theory Spec2Isabelle
  imports Main "HOL-Library.Word" "HOL-Library.List_Lexorder"
begin

section \<open>JavaScript strings\<close>

text \<open>
  A JavaScript string is a sequence of UTF-16 code units. Literals of the source are
  written \<open>str ''...''\<close>; the one literal of the source outside ASCII (the ellipsis
  read in the wrong encoding) is given by its code units.
\<close>

type_synonym jschar = "16 word"
type_synonym jsstring = "jschar list"

definition cu :: "char \<Rightarrow> jschar" where
  "cu c = of_nat (of_char c)"

definition str :: "string \<Rightarrow> jsstring" where
  "str s = map cu s"

text \<open>
  Truthiness of an optional string (\<open>undefined\<close> and \<open>''\<close> are falsy), as in
  \<^verbatim>\<open>if (fileName && ...)\<close> and \<^verbatim>\<open>if (customIcons[key])\<close>.
\<close>

fun truthy :: "jsstring option \<Rightarrow> bool" where
  "truthy None = False"
| "truthy (Some s) = (s \<noteq> [])"

text \<open>\<^verbatim>\<open>s.split(c)\<close> for a separator of one code unit; the result is never empty.\<close>

fun split :: "jschar \<Rightarrow> jsstring \<Rightarrow> jsstring list" where
  "split c [] = [[]]"
| "split c (x # xs) =
     (if x = c then [] # split c xs
      else (case split c xs of [] \<Rightarrow> [[x]] | y # ys \<Rightarrow> (x # y) # ys))"

text \<open>\<^verbatim>\<open>parts.join(c)\<close>.\<close>

fun join :: "jschar \<Rightarrow> jsstring list \<Rightarrow> jsstring" where
  "join c [] = []"
| "join c [p] = p"
| "join c (p # q # ps) = p @ c # join c (q # ps)"

text \<open>\<^verbatim>\<open>parts.pop()\<close> on the array a split returns: its last element.\<close>

definition pop :: "jsstring list \<Rightarrow> jsstring" where
  "pop parts = (case rev parts of [] \<Rightarrow> [] | p # _ \<Rightarrow> p)"

definition startsWith :: "jsstring \<Rightarrow> jsstring \<Rightarrow> bool" where
  "startsWith s p = (take (length p) s = p)"

definition endsWith :: "jsstring \<Rightarrow> jsstring \<Rightarrow> bool" where
  "endsWith s p = (length p \<le> length s \<and> drop (length s - length p) s = p)"

definition includes_cu :: "jsstring \<Rightarrow> jschar \<Rightarrow> bool" where
  "includes_cu s c = (c \<in> set s)"

text \<open>
  The code units that \<^verbatim>\<open>trim()\<close> strips and \<^verbatim>\<open>\s\<close> matches: ECMAScript's
  WhiteSpace and LineTerminator.
\<close>

definition isWhiteSpace :: "jschar \<Rightarrow> bool" where
  "isWhiteSpace c =
     (c = 0x09 \<or> c = 0x0A \<or> c = 0x0B \<or> c = 0x0C \<or> c = 0x0D \<or> c = 0x20
      \<or> c = 0xA0 \<or> c = 0x1680 \<or> (0x2000 \<le> c \<and> c \<le> 0x200A)
      \<or> c = 0x2028 \<or> c = 0x2029 \<or> c = 0x202F \<or> c = 0x205F
      \<or> c = 0x3000 \<or> c = 0xFEFF)"

definition trim :: "jsstring \<Rightarrow> jsstring" where
  "trim s = rev (dropWhile isWhiteSpace (rev (dropWhile isWhiteSpace s)))"

text \<open>\<^verbatim>\<open>s.replace(/[\\/]+$/, '')\<close>: the trailing run of slashes and backslashes goes.\<close>

definition isSeparator :: "jschar \<Rightarrow> bool" where
  "isSeparator c = (c = cu CHR ''/'' \<or> c = cu (CHR 0x5C))"

definition stripTrailingSeparators :: "jsstring \<Rightarrow> jsstring" where
  "stripTrailingSeparators s = rev (dropWhile isSeparator (rev s))"

text \<open>\<^verbatim>\<open>iconName.replace(/_/g, '-')\<close>.\<close>

definition hyphenate :: "jsstring \<Rightarrow> jsstring" where
  "hyphenate s = map (\<lambda>c. if c = cu CHR ''_'' then cu CHR ''-'' else c) s"

text \<open>
  \<^verbatim>\<open>toLowerCase()\<close> follows the Unicode case mapping, which is not reproduced here:
  every function below that lowercases takes the mapping as its first argument \<open>lc\<close>,
  and every theorem holds for any such mapping. The examples use the mapping on ASCII.
\<close>

definition asciiLower :: "jsstring \<Rightarrow> jsstring" where
  "asciiLower s = map (\<lambda>c. if 0x41 \<le> c \<and> c \<le> 0x5A then c + 0x20 else c) s"

section \<open>The icon data\<close>

text \<open>
  A value of type \<^verbatim>\<open>unknown\<close>, kept up to its truthiness, which is all the code
  inspects of an icon definition.
\<close>

datatype unknown = Falsy | Truthy

text \<open>
  A \<^verbatim>\<open>Record<string, T>\<close> is given by its own properties; what a lookup finds in
  it beyond them is the matter of \<open>property\<close> below.
\<close>

record LanguageMap =
  fileExtensions :: "jsstring \<rightharpoonup> jsstring"

record MaterialIcons =
  iconDefinitions :: "jsstring \<rightharpoonup> unknown"
  fileExtensions :: "jsstring \<rightharpoonup> jsstring"
  fileNames :: "jsstring \<rightharpoonup> jsstring"
  folderNames :: "jsstring \<rightharpoonup> jsstring"
  folderNamesExpanded :: "jsstring \<rightharpoonup> jsstring"
  languageIds :: "jsstring \<rightharpoonup> jsstring"

record MaterialIconsData =
  languageMap :: LanguageMap
  materialIcons :: MaterialIcons

text \<open>
  The exceptions: a failed request, a body that does not parse, a failed write or read of
  a file, and the \<^verbatim>\<open>TypeError\<close> of a method call on a value that has no such method.
\<close>

datatype error = FetchFailed | ParseFailed | WriteFailed | ReadFailed | TypeError

section \<open>The world the module runs in\<close>

text \<open>
  The module-level variables, the three remote documents and the files of the cache
  directory. A remote document is the outcome of its fetch (\<open>Inl\<close>: the request or the
  parse of its body threw). A cached JSON file is the value \<^verbatim>\<open>JSON.parse\<close> yields
  for it (\<open>None\<close>: the read or the parse threw); \<open>can_write f\<close> tells whether
  \<^verbatim>\<open>fs.writeFile\<close> on \<open>f\<close> succeeds, \<open>can_mkdir\<close> whether \<^verbatim>\<open>fs.mkdir\<close> does.
\<close>

datatype cachefile = VersionTxt | LanguageMapJson | MaterialIconsJson | SafelistJson

record world =
  cachedData :: "MaterialIconsData option"
  customFileIconsMap :: "(jsstring \<rightharpoonup> jsstring) option"
  spiCustomFileIcons :: "(jsstring \<rightharpoonup> jsstring) option"
  remoteVersion :: "error + jsstring"
  remoteLanguageMap :: "error + LanguageMap"
  remoteMaterialIcons :: "error + MaterialIcons"
  versionFile :: "jsstring option"
  languageMapFile :: "LanguageMap option"
  materialIconsFile :: "MaterialIcons option"
  safelistFile :: "jsstring option"
  can_write :: "cachefile \<Rightarrow> bool"
  can_mkdir :: bool

definition setCustomFileIcons :: "(jsstring \<rightharpoonup> jsstring) option \<Rightarrow> world \<Rightarrow> world" where
  "setCustomFileIcons m w = w\<lparr>customFileIconsMap := m, spiCustomFileIcons := m\<rparr>"

definition getCustomFileIcons :: "world \<Rightarrow> (jsstring \<rightharpoonup> jsstring) option" where
  "getCustomFileIcons w =
     (case customFileIconsMap w of Some m \<Rightarrow> Some m | None \<Rightarrow> spiCustomFileIcons w)"

text \<open>
  What \<^verbatim>\<open>fs.readFile(f, 'utf-8')\<close> returns after \<^verbatim>\<open>fs.writeFile(f, s, 'utf-8')\<close>:
  the encoder stores a surrogate that is not part of a pair as U+FFFD.
\<close>

definition isHighSurrogate :: "jschar \<Rightarrow> bool" where
  "isHighSurrogate c = (0xD800 \<le> c \<and> c \<le> 0xDBFF)"

definition isLowSurrogate :: "jschar \<Rightarrow> bool" where
  "isLowSurrogate c = (0xDC00 \<le> c \<and> c \<le> 0xDFFF)"

fun utf8 :: "jsstring \<Rightarrow> jsstring" where
  "utf8 [] = []"
| "utf8 [c] = (if isHighSurrogate c \<or> isLowSurrogate c then [0xFFFD] else [c])"
| "utf8 (c # d # s) =
     (if isHighSurrogate c then
        (if isLowSurrogate d then c # d # utf8 s else 0xFFFD # utf8 (d # s))
      else if isLowSurrogate c then 0xFFFD # utf8 (d # s)
      else c # utf8 (d # s))"

section \<open>The icon data store\<close>

definition getCachedVersion :: "world \<Rightarrow> jsstring option" where
  "getCachedVersion w = versionFile w"

text \<open>
  \<^verbatim>\<open>ensureCacheDir\<close> swallows a failing \<^verbatim>\<open>mkdir\<close>, so the writes below depend on
  \<open>can_write\<close> alone.
\<close>

definition setCachedVersion :: "jsstring \<Rightarrow> world \<Rightarrow> (error + unit) \<times> world" where
  "setCachedVersion version w =
     (if can_write w VersionTxt then (Inr (), w\<lparr>versionFile := Some (utf8 version)\<rparr>)
      else (Inl WriteFailed, w))"

text \<open>Both files must be read and parsed, or the catch block returns \<^verbatim>\<open>null\<close>.\<close>

definition getCachedData :: "world \<Rightarrow> MaterialIconsData option" where
  "getCachedData w =
     (case languageMapFile w of
        None \<Rightarrow> None
      | Some lm \<Rightarrow>
          (case materialIconsFile w of
             None \<Rightarrow> None
           | Some mi \<Rightarrow> Some \<lparr>languageMap = lm, materialIcons = mi\<rparr>))"

text \<open>The two writes run side by side: one that succeeds stays when the other throws.\<close>

definition setCachedData :: "MaterialIconsData \<Rightarrow> world \<Rightarrow> (error + unit) \<times> world" where
  "setCachedData d w =
     (let w1 = (if can_write w LanguageMapJson
                then w\<lparr>languageMapFile := Some (languageMap d)\<rparr> else w);
          w2 = (if can_write w MaterialIconsJson
                then w1\<lparr>materialIconsFile := Some (materialIcons d)\<rparr> else w1)
      in (if can_write w LanguageMapJson \<and> can_write w MaterialIconsJson
          then Inr () else Inl WriteFailed, w2))"

text \<open>
  The body of the \<^verbatim>\<open>try\<close> block of \<^verbatim>\<open>getMaterialIconsData\<close>: \<open>Inl\<close> is an
  exception thrown inside it.
\<close>

definition tryGetMaterialIconsData :: "world \<Rightarrow> (error + MaterialIconsData) \<times> world" where
  "tryGetMaterialIconsData w =
     (case remoteVersion w of
        Inl e \<Rightarrow> (Inl e, w)
      | Inr v \<Rightarrow>
          (let currentVersion = trim v;
               cachedVersion = getCachedVersion w;
               data = (if Some currentVersion = cachedVersion then getCachedData w else None)
           in case data of
                Some d \<Rightarrow> (Inr d, w)
              | None \<Rightarrow>
                  (case remoteLanguageMap w of
                     Inl e \<Rightarrow> (Inl e, w)
                   | Inr lm \<Rightarrow>
                       (case remoteMaterialIcons w of
                          Inl e \<Rightarrow> (Inl e, w)
                        | Inr mi \<Rightarrow>
                            (let d = \<lparr>languageMap = lm, materialIcons = mi\<rparr>;
                                 (r1, w1) = setCachedData d w;
                                 (r2, w2) = setCachedVersion currentVersion w1
                             in case r1 of
                                  Inl e \<Rightarrow> (Inl e, w2)
                                | Inr _ \<Rightarrow>
                                    (case r2 of
                                       Inl e \<Rightarrow> (Inl e, w2)
                                     | Inr _ \<Rightarrow> (Inr d, w2)))))))"

text \<open>
  \<^verbatim>\<open>getMaterialIconsData\<close>: \<open>Inr None\<close> is the result \<^verbatim>\<open>undefined\<close>, \<open>Inl e\<close> would be
  an exception leaving the function.
\<close>

definition getMaterialIconsData :: "world \<Rightarrow> (error + MaterialIconsData option) \<times> world" where
  "getMaterialIconsData w =
     (case cachedData w of
        Some d \<Rightarrow> (Inr (Some d), w)
      | None \<Rightarrow>
          (case tryGetMaterialIconsData w of
             (Inr d, w') \<Rightarrow> (Inr (Some d), w'\<lparr>cachedData := Some d\<rparr>)
           | (Inl e, w') \<Rightarrow> (Inr None, w')))"


section \<open>Property lookups\<close>

text \<open>
  The tables of the icon data come from \<^verbatim>\<open>JSON.parse\<close> and the overrides from the
  options schema: plain objects, whose prototype is \<^verbatim>\<open>Object.prototype\<close>. A lookup
  \<^verbatim>\<open>obj[key]\<close> finds the own property of that name and, when there is none, the property
  of that name of \<^verbatim>\<open>Object.prototype\<close>. These are its property names.
\<close>

definition objectPrototypeNames :: "jsstring list" where
  "objectPrototypeNames =
     [str ''constructor'', str ''__defineGetter__'', str ''__defineSetter__'',
      str ''hasOwnProperty'', str ''__lookupGetter__'', str ''__lookupSetter__'',
      str ''isPrototypeOf'', str ''propertyIsEnumerable'', str ''toString'', str ''valueOf'',
      str ''__proto__'', str ''toLocaleString'']"

text \<open>
  What a lookup in a \<^verbatim>\<open>Record<string, string>\<close> yields: a string of the record's own, or
  the value \<open>Inherited name\<close> of the property \<open>name\<close> of \<^verbatim>\<open>Object.prototype\<close>, which is
  a function, or for \<^verbatim>\<open>__proto__\<close> the prototype object itself. \<open>None\<close> is
  \<^verbatim>\<open>undefined\<close>.
\<close>

datatype jsvalue = Text jsstring | Inherited jsstring

definition property :: "(jsstring \<rightharpoonup> jsstring) \<Rightarrow> jsstring \<Rightarrow> jsvalue option" where
  "property obj key =
     (case obj key of
        Some v \<Rightarrow> Some (Text v)
      | None \<Rightarrow> if key \<in> set objectPrototypeNames then Some (Inherited key) else None)"

text \<open>Truthiness of such a value: functions and objects are truthy.\<close>

fun truthyValue :: "jsvalue option \<Rightarrow> bool" where
  "truthyValue None = False"
| "truthyValue (Some (Text s)) = (s \<noteq> [])"
| "truthyValue (Some (Inherited name)) = True"

text \<open>
  The string a value becomes as a property key, in a sort and in a comparison: a built-in
  function prints as \<^verbatim>\<open>function name() { [native code] }\<close>, where the function under
  \<^verbatim>\<open>constructor\<close> is named \<^verbatim>\<open>Object\<close>, and the prototype object prints as
  \<^verbatim>\<open>[object Object]\<close>.
\<close>

fun toString :: "jsvalue \<Rightarrow> jsstring" where
  "toString (Text s) = s"
| "toString (Inherited name) =
     (if name = str ''__proto__'' then str ''[object Object]''
      else str ''function ''
             @ (if name = str ''constructor'' then str ''Object'' else name)
             @ str ''() { [native code] }'')"

section \<open>The icon resolver\<close>

definition iconClass :: "jsstring \<Rightarrow> jsstring" where
  "iconClass iconName = str ''i-material-icon-theme:'' @ hyphenate iconName"

text \<open>
  \<^verbatim>\<open>materialIcons.iconDefinitions[iconName]\<close> is truthy, for the property key
  \<open>iconName\<close>. An inherited property is truthy.
\<close>

definition hasDefinition :: "MaterialIcons \<Rightarrow> jsstring \<Rightarrow> bool" where
  "hasDefinition mi iconName =
     (case iconDefinitions mi iconName of
        Some v \<Rightarrow> v = Truthy
      | None \<Rightarrow> iconName \<in> set objectPrototypeNames)"

text \<open>
  The step that every probe of a table ends with (lines 331 to 333, 376 to 378, 406 to
  408 and 412 to 416): \<^verbatim>\<open>if (iconName && materialIcons.iconDefinitions[iconName])\<close>, and
  then the class built with \<^verbatim>\<open>iconName.replace(/_/g, '-')\<close>. \<open>None\<close>: the test fails.
  On an inherited value the test can pass, and the call of \<^verbatim>\<open>replace\<close> throws, as that
  value has no such method.
\<close>

definition definedIcon :: "MaterialIcons \<Rightarrow> jsvalue option \<Rightarrow> (error + jsstring) option" where
  "definedIcon mi iconName =
     (case iconName of
        None \<Rightarrow> None
      | Some v \<Rightarrow>
          if truthyValue (Some v) \<and> hasDefinition mi (toString v) then
            (case v of
               Text n \<Rightarrow> Some (Inr (iconClass n))
             | Inherited name \<Rightarrow> Some (Inl TypeError))
          else None)"

definition justFileName :: "jsstring \<Rightarrow> jsstring" where
  "justFileName fileName =
     (if includes_cu fileName (cu CHR ''/'') then pop (split (cu CHR ''/'') fileName)
      else fileName)"

definition lowerFileName :: "(jsstring \<Rightarrow> jsstring) \<Rightarrow> jsstring \<Rightarrow> jsstring" where
  "lowerFileName lc fileName = lc (justFileName fileName)"

definition longExtension :: "(jsstring \<Rightarrow> jsstring) \<Rightarrow> jsstring \<Rightarrow> jsstring" where
  "longExtension lc fileName =
     join (cu CHR ''.'') (tl (split (cu CHR ''.'') (lowerFileName lc fileName)))"

definition shortExtension :: "(jsstring \<Rightarrow> jsstring) \<Rightarrow> jsstring \<Rightarrow> jsstring" where
  "shortExtension lc fileName = pop (split (cu CHR ''.'') (lowerFileName lc fileName))"

text \<open>
  The test \<^verbatim>\<open>key && customIcons[key]\<close> and the loop over the three keys of a custom
  override (lines 348 to 352). The value returned is what the lookup found.
\<close>

definition hasOverride :: "(jsstring \<rightharpoonup> jsstring) \<Rightarrow> jsstring \<Rightarrow> bool" where
  "hasOverride customIcons key = (key \<noteq> [] \<and> truthyValue (property customIcons key))"

fun customIconOf :: "(jsstring \<rightharpoonup> jsstring) \<Rightarrow> jsstring list \<Rightarrow> jsvalue option" where
  "customIconOf customIcons [] = None"
| "customIconOf customIcons (key # keys) =
     (if hasOverride customIcons key then property customIcons key
      else customIconOf customIcons keys)"

text \<open>The custom override of a file name, if one applies (lines 341 to 353).\<close>

definition customFileIcon ::
  "(jsstring \<Rightarrow> jsstring) \<Rightarrow> (jsstring \<rightharpoonup> jsstring) option \<Rightarrow> jsstring option \<Rightarrow> jsvalue option"
where
  "customFileIcon lc customIcons fileName =
     (case fileName of
        None \<Rightarrow> None
      | Some f \<Rightarrow>
          (case customIcons of
             None \<Rightarrow> None
           | Some ci \<Rightarrow>
               if f = [] then None
               else customIconOf ci
                      [lowerFileName lc f, longExtension lc f, shortExtension lc f]))"

text \<open>\<^verbatim>\<open>getIconClass\<close> (lines 372 to 382): \<open>Inr None\<close> is \<^verbatim>\<open>null\<close>.\<close>

fun getIconClass ::
  "MaterialIcons \<Rightarrow> (jsstring \<times> (jsstring \<rightharpoonup> jsstring) option) list
     \<Rightarrow> error + jsstring option"
where
  "getIconClass mi [] = Inr None"
| "getIconClass mi ((key, lookup) # pairs) =
     (case lookup of
        None \<Rightarrow> getIconClass mi pairs
      | Some m \<Rightarrow>
          (case definedIcon mi (property m key) of
             None \<Rightarrow> getIconClass mi pairs
           | Some (Inl e) \<Rightarrow> Inl e
           | Some (Inr c) \<Rightarrow> Inr (Some c)))"

text \<open>The probes on a file name (lines 384 to 410).\<close>

definition fileNameIcon ::
  "(jsstring \<Rightarrow> jsstring) \<Rightarrow> MaterialIconsData \<Rightarrow> jsstring \<Rightarrow> error + jsstring option"
where
  "fileNameIcon lc data f =
     (let mi = materialIcons data;
          pairs = [(lowerFileName lc f, Some (fileNames mi)),
                   (longExtension lc f, Some (MaterialIcons.fileExtensions mi)),
                   (shortExtension lc f, Some (MaterialIcons.fileExtensions mi)),
                   (shortExtension lc f, Some (LanguageMap.fileExtensions (languageMap data)))]
      in case getIconClass mi pairs of
           Inl e \<Rightarrow> Inl e
         | Inr (Some c) \<Rightarrow> Inr (Some c)
         | Inr None \<Rightarrow>
             if \<not> startsWith (lowerFileName lc f) (str ''.'') then
               (case definedIcon mi (property (fileNames mi) (cu CHR ''.'' # lowerFileName lc f)) of
                  None \<Rightarrow> Inr None
                | Some (Inl e) \<Rightarrow> Inl e
                | Some (Inr c) \<Rightarrow> Inr (Some c))
             else Inr None)"

text \<open>The probe on the language id (lines 412 to 417).\<close>

definition languageIcon :: "MaterialIcons \<Rightarrow> jsstring option \<Rightarrow> error + jsstring option" where
  "languageIcon mi language =
     (case language of
        None \<Rightarrow> Inr None
      | Some l \<Rightarrow>
          if l = [] then Inr None
          else (case definedIcon mi (property (languageIds mi) l) of
                  None \<Rightarrow> Inr None
                | Some (Inl e) \<Rightarrow> Inl e
                | Some (Inr c) \<Rightarrow> Inr (Some c)))"

definition svelteIcon :: "jsstring option \<Rightarrow> jsstring option" where
  "svelteIcon fileName =
     (case fileName of
        None \<Rightarrow> None
      | Some f \<Rightarrow>
          if endsWith f (str ''.svelte.js'') then Some (str ''i-starlight-plugin-icons:svelte-js'')
          else if endsWith f (str ''.svelte.ts'') then Some (str ''i-starlight-plugin-icons:svelte-ts'')
          else None)"

text \<open>
  What \<^verbatim>\<open>resolveIcon\<close> does once the data is there (lines 359 to 419): \<open>Inr None\<close> is
  \<^verbatim>\<open>null\<close>, \<open>Inl\<close> an exception.
\<close>

definition resolveFromData ::
  "(jsstring \<Rightarrow> jsstring) \<Rightarrow> MaterialIconsData \<Rightarrow> jsstring option \<Rightarrow> jsstring option
     \<Rightarrow> error + jsstring option"
where
  "resolveFromData lc data fileName language =
     (if \<not> truthy fileName \<and> \<not> truthy language then Inr None
      else
        (case svelteIcon fileName of
           Some c \<Rightarrow> Inr (Some c)
         | None \<Rightarrow>
             (case (case fileName of
                      None \<Rightarrow> Inr None
                    | Some f \<Rightarrow> if f = [] then Inr None else fileNameIcon lc data f) of
                Inl e \<Rightarrow> Inl e
              | Inr (Some c) \<Rightarrow> Inr (Some c)
              | Inr None \<Rightarrow>
                  (case languageIcon (materialIcons data) language of
                     Inl e \<Rightarrow> Inl e
                   | Inr (Some c) \<Rightarrow> Inr (Some c)
                   | Inr None \<Rightarrow> Inr (Some (str ''i-material-icon-theme:document''))))))"

text \<open>
  \<^verbatim>\<open>resolveIcon(fileName, language)()\<close>: the result \<open>Inr None\<close> is \<^verbatim>\<open>null\<close>, and \<open>Inl\<close>
  a rejected promise.
\<close>

definition resolveIcon ::
  "(jsstring \<Rightarrow> jsstring) \<Rightarrow> jsstring option \<Rightarrow> jsstring option \<Rightarrow> world
     \<Rightarrow> (error + jsvalue option) \<times> world"
where
  "resolveIcon lc fileName language w =
     (case customFileIcon lc (getCustomFileIcons w) fileName of
        Some v \<Rightarrow> (Inr (Some v), w)
      | None \<Rightarrow>
          (case getMaterialIconsData w of
             (Inl e, w') \<Rightarrow> (Inl e, w')
           | (Inr None, w') \<Rightarrow> (Inr None, w')
           | (Inr (Some data), w') \<Rightarrow>
               (case resolveFromData lc data fileName language of
                  Inl e \<Rightarrow> (Inl e, w')
                | Inr c \<Rightarrow> (Inr (map_option Text c), w'))))"

text \<open>
  \<^verbatim>\<open>resolveFolderIcon(folderName, isOpen)()\<close>: the result \<open>Inr None\<close> is \<^verbatim>\<open>undefined\<close>.
\<close>

definition lowerFolderName :: "(jsstring \<Rightarrow> jsstring) \<Rightarrow> jsstring \<Rightarrow> jsstring" where
  "lowerFolderName lc folderName = lc (stripTrailingSeparators (trim folderName))"

definition folderKey :: "(jsstring \<Rightarrow> jsstring) \<Rightarrow> jsstring \<Rightarrow> bool \<Rightarrow> jsstring" where
  "folderKey lc folderName isOpen =
     (if isOpen then str ''folder-open'' else str ''folder'') @ str '':''
       @ lowerFolderName lc folderName"

definition customFolderIcon ::
  "(jsstring \<Rightarrow> jsstring) \<Rightarrow> (jsstring \<rightharpoonup> jsstring) option \<Rightarrow> jsstring \<Rightarrow> bool \<Rightarrow> jsvalue option"
where
  "customFolderIcon lc customIcons folderName isOpen =
     (case customIcons of
        None \<Rightarrow> None
      | Some ci \<Rightarrow>
          if truthyValue (property ci (folderKey lc folderName isOpen))
          then property ci (folderKey lc folderName isOpen) else None)"

definition folderFromData ::
  "(jsstring \<Rightarrow> jsstring) \<Rightarrow> MaterialIconsData \<Rightarrow> jsstring \<Rightarrow> bool \<Rightarrow> error + jsstring"
where
  "folderFromData lc data folderName isOpen =
     (let mi = materialIcons data;
          iconName = (if isOpen then property (folderNamesExpanded mi) (lowerFolderName lc folderName)
                      else property (folderNames mi) (lowerFolderName lc folderName))
      in case definedIcon mi iconName of
           Some r \<Rightarrow> r
         | None \<Rightarrow>
             Inr (if isOpen then str ''i-starlight-plugin-icons:folder-open''
                  else str ''i-starlight-plugin-icons:folder''))"

definition resolveFolderIcon ::
  "(jsstring \<Rightarrow> jsstring) \<Rightarrow> jsstring \<Rightarrow> bool \<Rightarrow> world \<Rightarrow> (error + jsvalue option) \<times> world"
where
  "resolveFolderIcon lc folderName isOpen w =
     (case customFolderIcon lc (getCustomFileIcons w) folderName isOpen of
        Some v \<Rightarrow> (Inr (Some v), w)
      | None \<Rightarrow>
          (case getMaterialIconsData w of
             (Inl e, w') \<Rightarrow> (Inl e, w')
           | (Inr None, w') \<Rightarrow> (Inr None, w')
           | (Inr (Some data), w') \<Rightarrow>
               (case folderFromData lc data folderName isOpen of
                  Inl e \<Rightarrow> (Inl e, w')
                | Inr c \<Rightarrow> (Inr (Some (Text c)), w'))))"

text \<open>\<^verbatim>\<open>getIconDetails\<close>: \<open>Inr None\<close> is \<^verbatim>\<open>null\<close>, otherwise the object's \<^verbatim>\<open>iconClass\<close>
  and \<^verbatim>\<open>language\<close>.\<close>

definition getIconDetails ::
  "(jsstring \<Rightarrow> jsstring) \<Rightarrow> jsstring option \<Rightarrow> jsstring option \<Rightarrow> world
     \<Rightarrow> (error + (jsvalue option \<times> jsstring option) option) \<times> world"
where
  "getIconDetails lc title language w =
     (if language = Some (str ''sh'') then (Inr None, w)
      else
        (case resolveIcon lc title language w of
           (Inl e, w') \<Rightarrow> (Inl e, w')
         | (Inr c, w') \<Rightarrow> (Inr (Some (c, language)), w')))"

section \<open>The three regular expressions\<close>

text \<open>
  All matches of a regular expression with the flag \<^verbatim>\<open>g\<close>, from left to right, as
  \<^verbatim>\<open>matchAll\<close> and \<^verbatim>\<open>match\<close> give them. \<open>matchAt\<close> tells, for the rest of the text
  from a position on, whether the expression matches there, with what result and over how
  many code units; the search goes on behind a match (\<open>skip\<close> counts the code units of
  the match still to pass). None of the three expressions matches the empty string.
\<close>

fun matchAll :: "(jsstring \<Rightarrow> ('a \<times> nat) option) \<Rightarrow> nat \<Rightarrow> jsstring \<Rightarrow> 'a list" where
  "matchAll matchAt skip [] = []"
| "matchAll matchAt skip (c # cs) =
     (if 0 < skip then matchAll matchAt (skip - 1) cs
      else
        (case matchAt (c # cs) of
           None \<Rightarrow> matchAll matchAt 0 cs
         | Some (found, n) \<Rightarrow> found # matchAll matchAt (n - 1) cs))"

text \<open>The character classes \<^verbatim>\<open>[a-zA-Z]\<close>, \<^verbatim>\<open>[0-9]\<close> and \<^verbatim>\<open>\w\<close>.\<close>

definition isLetter :: "jschar \<Rightarrow> bool" where
  "isLetter c = ((0x41 \<le> c \<and> c \<le> 0x5A) \<or> (0x61 \<le> c \<and> c \<le> 0x7A))"

definition isDigit :: "jschar \<Rightarrow> bool" where
  "isDigit c = (0x30 \<le> c \<and> c \<le> 0x39)"

definition isWordChar :: "jschar \<Rightarrow> bool" where
  "isWordChar c = (isLetter c \<or> isDigit c \<or> c = 0x5F)"

subsection \<open>Code fences\<close>

text \<open>
  \<^verbatim>\<open>codeBlockRegex\<close> (line 7) is three backticks, an optional group \<^verbatim>\<open>lang\<close> and an
  optional group of attributes that holds the group \<^verbatim>\<open>title\<close>.
\<close>

definition fence :: jsstring where
  "fence = [0x60, 0x60, 0x60]"

text \<open>\<^verbatim>\<open>(?<lang>[a-zA-Z]\w*)?\<close>: the longest run, as nothing behind it can fail.\<close>

definition langAt :: "jsstring \<Rightarrow> jsstring option" where
  "langAt s =
     (case s of
        [] \<Rightarrow> None
      | c # cs \<Rightarrow> if isLetter c then Some (c # takeWhile isWordChar cs) else None)"

text \<open>
  \<^verbatim>\<open>title="(?<title>[^"]+)"\<close> at the start of \<open>s\<close>: the title is the run up to the next
  quote, it is not empty, and the quote must be there. The result is the title and the
  number of code units matched.
\<close>

definition titleAt :: "jsstring \<Rightarrow> (jsstring \<times> nat) option" where
  "titleAt s =
     (if startsWith s (str ''title='' @ [0x22]) then
        (let title = takeWhile (\<lambda>c. c \<noteq> 0x22) (drop 7 s)
         in if title \<noteq> [] \<and> length title < length (drop 7 s)
            then Some (title, 7 + length title + 1) else None)
      else None)"

text \<open>
  \<^verbatim>\<open>[^\n]*?title="(?<title>[^"]+)"\<close>: the lazy star passes as few code units as it can,
  none of them a line feed.
\<close>

fun findTitle :: "jsstring \<Rightarrow> (jsstring \<times> nat) option" where
  "findTitle [] = None"
| "findTitle (c # cs) =
     (case titleAt (c # cs) of
        Some found \<Rightarrow> Some found
      | None \<Rightarrow>
          if c = 0x0A then None
          else (case findTitle cs of
                  None \<Rightarrow> None
                | Some (title, n) \<Rightarrow> Some (title, n + 1)))"

text \<open>
  \<^verbatim>\<open>(?:\s[^\n]*?title="(?<title>[^"]+)")\<close>: one code unit of white space, which a line
  feed is, and then the above.
\<close>

definition attributesAt :: "jsstring \<Rightarrow> (jsstring \<times> nat) option" where
  "attributesAt s =
     (case s of
        [] \<Rightarrow> None
      | c # cs \<Rightarrow>
          if isWhiteSpace c then
            (case findTitle cs of
               None \<Rightarrow> None
             | Some (title, n) \<Rightarrow> Some (title, n + 1))
          else None)"

text \<open>The groups \<^verbatim>\<open>(lang, title)\<close> of the match at the start of \<open>s\<close>, and its length.\<close>

definition codeBlockAt :: "jsstring \<Rightarrow> ((jsstring option \<times> jsstring option) \<times> nat) option" where
  "codeBlockAt s =
     (if startsWith s fence then
        (let lang = langAt (drop 3 s);
             n = 3 + (case lang of None \<Rightarrow> 0 | Some l \<Rightarrow> length l)
         in case attributesAt (drop n s) of
              None \<Rightarrow> Some ((lang, None), n)
            | Some (title, m) \<Rightarrow> Some ((lang, Some title), n + m))
      else None)"

definition codeBlockMatches :: "jsstring \<Rightarrow> (jsstring option \<times> jsstring option) list" where
  "codeBlockMatches contents = matchAll codeBlockAt 0 contents"

subsection \<open>FileTree components\<close>

text \<open>
  \<^verbatim>\<open>fileTreeRegex\<close> (line 8): group 1 is the text up to the first closing tag.
\<close>

fun bodyUntilClose :: "jsstring \<Rightarrow> jsstring option" where
  "bodyUntilClose [] = None"
| "bodyUntilClose (c # cs) =
     (if startsWith (c # cs) (str ''</FileTree>'') then Some []
      else (case bodyUntilClose cs of None \<Rightarrow> None | Some body \<Rightarrow> Some (c # body)))"

definition fileTreeAt :: "jsstring \<Rightarrow> (jsstring \<times> nat) option" where
  "fileTreeAt s =
     (if startsWith s (str ''<FileTree>'') then
        (case bodyUntilClose (drop 10 s) of
           None \<Rightarrow> None
         | Some body \<Rightarrow> Some (body, 10 + length body + 11))
      else None)"

definition fileTreeMatches :: "jsstring \<Rightarrow> jsstring list" where
  "fileTreeMatches contents = matchAll fileTreeAt 0 contents"

subsection \<open>Icon classes in a configuration file\<close>

text \<open>
  \<^verbatim>\<open>iconClassRegex\<close> (line 9), with the flag \<^verbatim>\<open>i\<close>: the letters of both cases. Each of
  the two runs is the longest one, as the code unit behind the first run must be the
  colon, which is not in its class.
\<close>

definition isClassChar :: "jschar \<Rightarrow> bool" where
  "isClassChar c = (isLetter c \<or> isDigit c \<or> c = 0x2D)"

definition isClassTailChar :: "jschar \<Rightarrow> bool" where
  "isClassTailChar c = (isClassChar c \<or> c = 0x3A \<or> c = 0x2E \<or> c = 0x2F)"

definition iconClassAt :: "jsstring \<Rightarrow> (jsstring \<times> nat) option" where
  "iconClassAt s =
     (case s of
        i # hyphen # rest \<Rightarrow>
          (let collection = takeWhile isClassChar rest;
               name = takeWhile isClassTailChar (drop (length collection + 1) rest)
           in if (i = 0x69 \<or> i = 0x49) \<and> hyphen = 0x2D \<and> collection \<noteq> []
                 \<and> startsWith (drop (length collection) rest) (str '':'') \<and> name \<noteq> []
              then Some (take (2 + length collection + 1 + length name) s,
                         2 + length collection + 1 + length name)
              else None)
      | _ \<Rightarrow> None)"

definition iconClassMatches :: "jsstring \<Rightarrow> jsstring list" where
  "iconClassMatches source = matchAll iconClassAt 0 source"

section \<open>The safelist generator\<close>

text \<open>
  An asynchronous computation on the world: \<open>Inl e\<close> is a rejected promise.
  \<open>await m f\<close> is \<^verbatim>\<open>const x = await m; f(x)\<close>.
\<close>

type_synonym 'a io = "world \<Rightarrow> (error + 'a) \<times> world"

definition return :: "'a \<Rightarrow> 'a io" where
  "return x w = (Inr x, w)"

definition throw :: "error \<Rightarrow> 'a io" where
  "throw e w = (Inl e, w)"

definition await :: "'a io \<Rightarrow> ('a \<Rightarrow> 'b io) \<Rightarrow> 'b io" where
  "await m f w = (case m w of (Inl e, w') \<Rightarrow> (Inl e, w') | (Inr x, w') \<Rightarrow> f x w')"

fun forEach :: "('a \<Rightarrow> 's \<Rightarrow> 's io) \<Rightarrow> 'a list \<Rightarrow> 's \<Rightarrow> 's io" where
  "forEach body [] s = return s"
| "forEach body (x # xs) s = await (body x s) (forEach body xs)"

text \<open>
  \<^verbatim>\<open>usedIcons\<close>, a \<^verbatim>\<open>Set\<close>: its elements in insertion order. It is declared a set of
  strings; what a resolver returns from an inherited property is added as it is.
\<close>

definition add :: "jsvalue \<Rightarrow> jsvalue list \<Rightarrow> jsvalue list" where
  "add c usedIcons = (if c \<in> set usedIcons then usedIcons else usedIcons @ [c])"

text \<open>\<^verbatim>\<open>if (icon) usedIcons.add(icon)\<close>.\<close>

definition addIfTruthy :: "jsvalue option \<Rightarrow> jsvalue list \<Rightarrow> jsvalue list" where
  "addIfTruthy icon usedIcons =
     (case icon of
        None \<Rightarrow> usedIcons
      | Some c \<Rightarrow> if truthyValue (Some c) then add c usedIcons else usedIcons)"

subsection \<open>Code blocks\<close>

text \<open>
  The body of the loop over the matches of \<^verbatim>\<open>codeBlockRegex\<close> (lines 27 to 33); a
  match is given by its groups \<^verbatim>\<open>lang\<close> and \<^verbatim>\<open>title\<close>.
\<close>

definition codeBlockIcon ::
  "(jsstring \<Rightarrow> jsstring) \<Rightarrow> jsstring option \<times> jsstring option \<Rightarrow> jsvalue list
     \<Rightarrow> jsvalue list io"
where
  "codeBlockIcon lc match usedIcons =
     await (getIconDetails lc (snd match) (fst match))
       (\<lambda>iconDetails.
          return (case iconDetails of
                    None \<Rightarrow> usedIcons
                  | Some (c, language) \<Rightarrow> addIfTruthy c usedIcons))"

subsection \<open>Tree diagrams\<close>

record line =
  indentation :: nat
  content :: jsstring

definition toLines :: "jsstring \<Rightarrow> line list" where
  "toLines fileTreeContent =
     map (\<lambda>l. \<lparr>indentation = length (takeWhile isWhiteSpace l), content = trim l\<rparr>)
       (split 0x0A (trim fileTreeContent))"

text \<open>The code units that \<^verbatim>\<open>.\<close> does not match in a regular expression.\<close>

definition isLineTerminator :: "jschar \<Rightarrow> bool" where
  "isLineTerminator c = (c = 0x0A \<or> c = 0x0D \<or> c = 0x2028 \<or> c = 0x2029)"

text \<open>
  \<^verbatim>\<open>name.replace(/^M(.+)M$/, '$1')\<close> for a marker \<open>M\<close> of literal code units: the
  expression matches when the name starts and ends with the marker around at least one
  code unit, none of them a line terminator.
\<close>

definition unwrap :: "jsstring \<Rightarrow> jsstring \<Rightarrow> jsstring" where
  "unwrap marker name =
     (let n = length marker;
          inner = take (length name - 2 * n) (drop n name)
      in if 2 * n < length name \<and> startsWith name marker \<and> endsWith name marker
            \<and> \<not> list_ex isLineTerminator inner
         then inner else name)"

definition normalizeFileTreeEntry :: "jsstring \<Rightarrow> jsstring" where
  "normalizeFileTreeEntry input =
     unwrap (str ''_'') (unwrap (str ''*'') (unwrap (str ''__'') (unwrap (str ''**'')
       (trim (filter (\<lambda>c. c \<noteq> 0x60) input)))))"

text \<open>\<^verbatim>\<open>normalizeFileTreeEntry(line.content.substring(2).split(' ')[0] ?? '')\<close>.\<close>

definition entryNameOf :: "line \<Rightarrow> jsstring" where
  "entryNameOf l =
     normalizeFileTreeEntry
       (case split (cu CHR '' '') (drop 2 (content l)) of [] \<Rightarrow> [] | rawEntry # _ \<Rightarrow> rawEntry)"

text \<open>The second literal is the ellipsis U+2026 read in the wrong encoding.\<close>

definition isEllipsis :: "jsstring \<Rightarrow> bool" where
  "isEllipsis entryName = (entryName = str ''...'' \<or> entryName = [0xE2, 0x20AC, 0xA6])"

text \<open>\<^verbatim>\<open>lines[i + 1]\<close> is \<^verbatim>\<open>undefined\<close> past the last line.\<close>

definition isDirectory :: "line list \<Rightarrow> nat \<Rightarrow> jsstring \<Rightarrow> bool" where
  "isDirectory lines i entryName =
     (endsWith entryName (str ''/'')
      \<or> (i + 1 < length lines \<and> indentation (lines ! i) < indentation (lines ! (i + 1))))"

text \<open>
  The two branches of a line (lines 68 to 86). The two folder lookups that
  \<^verbatim>\<open>Promise.all\<close> awaits are run one after the other, the closed one first.
\<close>

definition folderIcons ::
  "(jsstring \<Rightarrow> jsstring) \<Rightarrow> jsstring \<Rightarrow> jsvalue list \<Rightarrow> jsvalue list io"
where
  "folderIcons lc entryName usedIcons =
     (let folderName = stripTrailingSeparators (trim entryName)
      in await (resolveFolderIcon lc folderName False)
           (\<lambda>closedIcon.
              await (resolveFolderIcon lc folderName True)
                (\<lambda>openIcon. return (addIfTruthy openIcon (addIfTruthy closedIcon usedIcons)))))"

definition fileIcon ::
  "(jsstring \<Rightarrow> jsstring) \<Rightarrow> jsstring \<Rightarrow> jsvalue list \<Rightarrow> jsvalue list io"
where
  "fileIcon lc entryName usedIcons =
     await (resolveIcon lc (Some entryName) None)
       (\<lambda>iconClass. return (addIfTruthy iconClass usedIcons))"

text \<open>The body of the loop over the lines (lines 52 to 86).\<close>

definition fileTreeLine ::
  "(jsstring \<Rightarrow> jsstring) \<Rightarrow> line list \<Rightarrow> nat \<Rightarrow> jsvalue list \<Rightarrow> jsvalue list io"
where
  "fileTreeLine lc lines i usedIcons =
     (if \<not> i < length lines then return usedIcons
      else if \<not> startsWith (content (lines ! i)) (str ''- '') then return usedIcons
      else
        (let entryName = entryNameOf (lines ! i)
         in if entryName = [] \<or> isEllipsis entryName then return usedIcons
            else if isDirectory lines i entryName then folderIcons lc entryName usedIcons
            else fileIcon lc entryName usedIcons))"

text \<open>The body of the loop over the matches of \<^verbatim>\<open>fileTreeRegex\<close> (lines 38 to 87).\<close>

definition fileTree ::
  "(jsstring \<Rightarrow> jsstring) \<Rightarrow> jsstring \<Rightarrow> jsvalue list \<Rightarrow> jsvalue list io"
where
  "fileTree lc fileTreeContent usedIcons =
     (if fileTreeContent = [] then return usedIcons
      else
        (let lines = toLines fileTreeContent
         in forEach (fileTreeLine lc lines) [0..<length lines] usedIcons))"

subsection \<open>The whole generation\<close>

text \<open>
  The body of the loop over the content files (lines 22 to 89): \<open>file\<close> is what
  \<^verbatim>\<open>fs.readFile\<close> gives for it, and a file that cannot be read rejects the whole
  generation (line 23).
\<close>

definition scanFile ::
  "(jsstring \<Rightarrow> jsstring) \<Rightarrow> error + jsstring \<Rightarrow> jsvalue list \<Rightarrow> jsvalue list io"
where
  "scanFile lc file usedIcons =
     (case file of
        Inl e \<Rightarrow> throw e
      | Inr contents \<Rightarrow>
          await (forEach (codeBlockIcon lc) (codeBlockMatches contents) usedIcons)
            (forEach (fileTree lc) (fileTreeMatches contents)))"

text \<open>
  \<^verbatim>\<open>JSON.stringify(newSafelist, null, 2)\<close> on the array: a string is quoted, a function
  is written \<^verbatim>\<open>null\<close>, and the prototype object, which has no enumerable property, is
  written \<^verbatim>\<open>{}\<close>.
\<close>

definition hexDigit :: "nat \<Rightarrow> jschar" where
  "hexDigit n = (if n < 10 then 0x30 + of_nat n else 0x61 + of_nat (n - 10))"

definition unicodeEscape :: "jschar \<Rightarrow> jsstring" where
  "unicodeEscape c =
     [0x5C, 0x75, hexDigit (unat c div 4096 mod 16), hexDigit (unat c div 256 mod 16),
      hexDigit (unat c div 16 mod 16), hexDigit (unat c mod 16)]"

definition escapeUnit :: "jschar \<Rightarrow> jsstring" where
  "escapeUnit c =
     (if c = 0x08 then [0x5C, 0x62]
      else if c = 0x09 then [0x5C, 0x74]
      else if c = 0x0A then [0x5C, 0x6E]
      else if c = 0x0C then [0x5C, 0x66]
      else if c = 0x0D then [0x5C, 0x72]
      else if c = 0x22 then [0x5C, 0x22]
      else if c = 0x5C then [0x5C, 0x5C]
      else if c < 0x20 \<or> isHighSurrogate c \<or> isLowSurrogate c then unicodeEscape c
      else [c])"

fun escape :: "jsstring \<Rightarrow> jsstring" where
  "escape [] = []"
| "escape [c] = escapeUnit c"
| "escape (c # d # s) =
     (if isHighSurrogate c \<and> isLowSurrogate d then c # d # escape s
      else escapeUnit c @ escape (d # s))"

definition quote :: "jsstring \<Rightarrow> jsstring" where
  "quote s = 0x22 # escape s @ [0x22]"

fun element :: "jsvalue \<Rightarrow> jsstring" where
  "element (Text s) = quote s"
| "element (Inherited name) = (if name = str ''__proto__'' then str ''{}'' else str ''null'')"

fun items :: "jsvalue list \<Rightarrow> jsstring" where
  "items [] = []"
| "items [x] = [0x0A, 0x20, 0x20] @ element x @ [0x0A]"
| "items (x # y # xs) = [0x0A, 0x20, 0x20] @ element x @ [0x2C] @ items (y # xs)"

definition stringify :: "jsvalue list \<Rightarrow> jsstring" where
  "stringify xs = 0x5B # items xs @ [0x5D]"

text \<open>
  The default \<^verbatim>\<open>sort()\<close> compares the elements as strings, by their code units, which
  is the lexicographic order of the lists, and keeps elements that compare equal in the
  order they had.
\<close>

definition sortIcons :: "jsvalue list \<Rightarrow> jsvalue list" where
  "sortIcons usedIcons = sort_key toString usedIcons"

text \<open>The end of \<^verbatim>\<open>generateSafelist\<close> (lines 117 to 139).\<close>

definition writeSafelist :: "jsstring \<Rightarrow> bool io" where
  "writeSafelist newSafelistJSON w =
     (if \<not> can_mkdir w then (Inl WriteFailed, w)
      else if \<not> can_write w SafelistJson then (Inl WriteFailed, w)
      else (Inr True, w\<lparr>safelistFile := Some (utf8 newSafelistJSON)\<rparr>))"

definition saveSafelist :: "jsvalue list \<Rightarrow> bool io" where
  "saveSafelist usedIcons w =
     (let newSafelist = sortIcons usedIcons;
          newSafelistJSON = stringify newSafelist
      in case safelistFile w of
           Some currentSafelist \<Rightarrow>
             if currentSafelist = newSafelistJSON then (Inr False, w)
             else writeSafelist newSafelistJSON w
         | None \<Rightarrow>
             if length newSafelist = 0 then (Inr False, w)
             else writeSafelist newSafelistJSON w)"

text \<open>
  The classes found in the candidate configuration files (lines 100 to 109): \<open>configs\<close>
  holds, for each candidate, its source text, or \<open>None\<close> when the read threw and the
  catch block ignored it.
\<close>

definition addConfigIcons :: "jsstring option list \<Rightarrow> jsvalue list \<Rightarrow> jsvalue list" where
  "addConfigIcons configs usedIcons =
     fold (\<lambda>cfg used.
             case cfg of
               None \<Rightarrow> used
             | Some source \<Rightarrow> fold add (map Text (iconClassMatches source)) used)
       configs usedIcons"

text \<open>
  The values of the custom overrides (lines 111 to 115): \<open>customFileIcons\<close> are the
  entries of the argument in property order.
\<close>

definition addCustomIcons ::
  "(jsstring \<times> jsstring) list option \<Rightarrow> jsvalue list \<Rightarrow> jsvalue list"
where
  "addCustomIcons customFileIcons usedIcons =
     (case customFileIcons of
        None \<Rightarrow> usedIcons
      | Some entries \<Rightarrow> fold add (map (\<lambda>entry. Text (snd entry)) entries) usedIcons)"

text \<open>
  \<^verbatim>\<open>generateSafelist\<close>; \<open>files\<close> are the content files the glob finds, each with what
  reading it gives.
\<close>

definition generateSafelist ::
  "(jsstring \<Rightarrow> jsstring) \<Rightarrow> (error + jsstring) list \<Rightarrow> jsstring option list
     \<Rightarrow> (jsstring \<times> jsstring) list option \<Rightarrow> bool io"
where
  "generateSafelist lc files configs customFileIcons =
     await (forEach (scanFile lc) files [])
       (\<lambda>scanned.
          saveSafelist (addCustomIcons customFileIcons (addConfigIcons configs scanned)))"

section \<open>Notions for the statements\<close>

text \<open>
  The directory test as the specification words it, against the next line that the loop
  does not skip; \<open>skipped\<close> collects the two \<^verbatim>\<open>continue\<close> tests of the loop.
\<close>

definition skipped :: "line \<Rightarrow> bool" where
  "skipped l =
     (\<not> startsWith (content l) (str ''- '') \<or> entryNameOf l = [] \<or> isEllipsis (entryNameOf l))"

definition spec_isDirectory :: "line list \<Rightarrow> nat \<Rightarrow> jsstring \<Rightarrow> bool" where
  "spec_isDirectory lines i entryName =
     (endsWith entryName (str ''/'')
      \<or> (case filter (\<lambda>l. \<not> skipped l) (drop (i + 1) lines) of
            [] \<Rightarrow> False
          | nextLine # _ \<Rightarrow> indentation (lines ! i) < indentation nextLine))"

text \<open>
  The lines of a tree diagram as they stand in the text of the component, before the
  scanner trims the text: \<open>firstLine t\<close> is the index of the first line that holds more
  than white space, \<open>textLine t i\<close> the \<open>i\<close>-th line from there on, and \<open>leading l\<close> the
  number of white-space code units the line \<open>l\<close> begins with, its indentation.
\<close>

definition leading :: "jsstring \<Rightarrow> nat" where
  "leading l = length (takeWhile isWhiteSpace l)"

definition firstLine :: "jsstring \<Rightarrow> nat" where
  "firstLine t = length (split 0x0A (takeWhile isWhiteSpace t)) - 1"

definition textLine :: "jsstring \<Rightarrow> nat \<Rightarrow> jsstring" where
  "textLine t i = split 0x0A t ! (firstLine t + i)"

text \<open>
  The three files of the icon cache can all be written, or none of them can: a failing
  write then leaves no part of a download behind.
\<close>

definition cacheWritesAgree :: "world \<Rightarrow> bool" where
  "cacheWritesAgree w =
     (can_write w VersionTxt = can_write w LanguageMapJson
      \<and> can_write w LanguageMapJson = can_write w MaterialIconsJson)"

text \<open>What a lookup can see of the world: the icon data it would get, and the overrides.\<close>

definition view :: "world \<Rightarrow> (error + MaterialIconsData option) \<times> (jsstring \<rightharpoonup> jsstring) option" where
  "view w = (fst (getMaterialIconsData w), getCustomFileIcons w)"

text \<open>
  A computation whose result depends on the view alone, and which leaves the view, the
  safelist file and what can be written as they were.
\<close>

definition steady :: "'a io \<Rightarrow> bool" where
  "steady m =
     ((\<forall>w1 w2. cacheWritesAgree w1 \<and> cacheWritesAgree w2 \<and> view w1 = view w2
          \<longrightarrow> fst (m w1) = fst (m w2))
      \<and> (\<forall>w. cacheWritesAgree w
          \<longrightarrow> view (snd (m w)) = view w \<and> safelistFile (snd (m w)) = safelistFile w
              \<and> can_write (snd (m w)) = can_write w \<and> can_mkdir (snd (m w)) = can_mkdir w))"

section \<open>Sample data\<close>

definition sample_icons :: MaterialIcons where
  "sample_icons =
     \<lparr>iconDefinitions = [str ''markdown'' \<mapsto> Truthy, str ''javascript'' \<mapsto> Truthy,
                          str ''react_ts'' \<mapsto> Truthy, str ''folder_src'' \<mapsto> Truthy,
                          str ''folder_src_open'' \<mapsto> Truthy],
      fileExtensions = [str ''md'' \<mapsto> str ''markdown'', str ''js'' \<mapsto> str ''javascript'',
                         str ''tsx'' \<mapsto> str ''react_ts''],
      fileNames = Map.empty,
      folderNames = [str ''src'' \<mapsto> str ''folder_src''],
      folderNamesExpanded = [str ''src'' \<mapsto> str ''folder_src_open''],
      languageIds = [str ''javascript'' \<mapsto> str ''javascript'']\<rparr>"

definition sample_data :: MaterialIconsData where
  "sample_data =
     \<lparr>languageMap = \<lparr>LanguageMap.fileExtensions = Map.empty\<rparr>,
      materialIcons = sample_icons\<rparr>"

text \<open>No data in memory, no network, no cache, no overrides.\<close>

definition offline :: world where
  "offline =
     \<lparr>cachedData = None, customFileIconsMap = None, spiCustomFileIcons = None,
      remoteVersion = Inl FetchFailed, remoteLanguageMap = Inl FetchFailed,
      remoteMaterialIcons = Inl FetchFailed, versionFile = None, languageMapFile = None,
      materialIconsFile = None, safelistFile = None, can_write = (\<lambda>f. True),
      can_mkdir = True\<rparr>"

text \<open>The sample data already in memory.\<close>

definition loaded :: world where
  "loaded = offline\<lparr>cachedData := Some sample_data\<rparr>"

text \<open>The network answers, nothing is cached yet.\<close>

definition fresh :: world where
  "fresh =
     offline\<lparr>remoteVersion := Inr (str ''5.21.0'' @ [0x0A]),
             remoteLanguageMap := Inr \<lparr>LanguageMap.fileExtensions = Map.empty\<rparr>,
             remoteMaterialIcons := Inr sample_icons\<rparr>"

text \<open>The second document of the remote source does not parse.\<close>

definition broken_remote :: world where
  "broken_remote = fresh\<lparr>remoteMaterialIcons := Inl ParseFailed\<rparr>"

text \<open>
  Tree diagrams, each as the text between the tags of the component. The first: a folder
  marked by a slash, a folder marked by its child, and two files. The second: the two
  ellipsis forms and an entry of two backticks. The third: a file, and an entry with an
  empty line between it and its child. The fourth: two files, each indented by two blanks.
\<close>

definition sample_tree :: jsstring where
  "sample_tree =
     [0x0A] @ str ''- src/'' @ [0x0A] @ str ''- utils'' @ [0x0A] @ str ''  - index.ts'' @ [0x0A]
       @ str ''- README.md'' @ [0x0A]"

definition ellipsis_tree :: jsstring where
  "ellipsis_tree =
     str ''- ...'' @ [0x0A] @ str ''- '' @ [0xE2, 0x20AC, 0xA6] @ [0x0A]
       @ str ''- '' @ [0x60, 0x60]"

definition gap_tree :: jsstring where
  "gap_tree =
     [0x0A] @ str ''- a.md'' @ [0x0A] @ str ''- utils'' @ [0x0A, 0x0A] @ str ''  - child''
       @ [0x0A]"

definition indented_tree :: jsstring where
  "indented_tree =
     [0x0A] @ str ''  - index.ts'' @ [0x0A] @ str ''  - other.ts'' @ [0x0A]"

text \<open>The sample data in memory, and a cache directory that cannot be written.\<close>

definition read_only :: world where
  "read_only = loaded\<lparr>can_write := (\<lambda>f. False)\<rparr>"

text \<open>
  A content file with one code block, of language \<^verbatim>\<open>tsx\<close> and titled \<^verbatim>\<open>App.tsx\<close>.
\<close>

definition sample_file :: jsstring where
  "sample_file =
     fence @ str ''tsx title='' @ [0x22] @ str ''App.tsx'' @ [0x22, 0x0A]
       @ str ''let x'' @ [0x0A] @ fence @ [0x0A]"

text \<open>
  A content file with two code blocks, the second straight behind the first: one of
  language \<^verbatim>\<open>js\<close>, and one of language \<^verbatim>\<open>sh\<close> titled \<^verbatim>\<open>install.md\<close>. In the file
  after it an empty line stands between the two blocks.
\<close>

definition shell_after_fence :: jsstring where
  "shell_after_fence =
     fence @ str ''js'' @ [0x0A] @ str ''let x'' @ [0x0A] @ fence @ [0x0A]
       @ fence @ str ''sh title='' @ [0x22] @ str ''install.md'' @ [0x22, 0x0A]
       @ str ''npm i'' @ [0x0A] @ fence @ [0x0A]"

definition shell_after_gap :: jsstring where
  "shell_after_gap =
     fence @ str ''js'' @ [0x0A] @ str ''let x'' @ [0x0A] @ fence @ [0x0A, 0x0A]
       @ fence @ str ''sh title='' @ [0x22] @ str ''install.md'' @ [0x22, 0x0A]
       @ str ''npm i'' @ [0x0A] @ fence @ [0x0A]"

definition sample_overrides :: "jsstring \<rightharpoonup> jsstring" where
  "sample_overrides =
     [str ''readme.md'' \<mapsto> str ''i-custom:readme'', str ''tar.gz'' \<mapsto> str ''i-custom:archive'',
      str ''md'' \<mapsto> str ''i-custom:md'', str ''folder:src'' \<mapsto> str ''i-custom:src'']"

definition empty_override :: "jsstring \<rightharpoonup> jsstring" where
  "empty_override = [str ''md'' \<mapsto> []]"

section \<open>Evaluation and shared lemmas\<close>

lemmas string_eval =
  str_def cu_def pop_def startsWith_def endsWith_def includes_cu_def isWhiteSpace_def trim_def
  isSeparator_def stripTrailingSeparators_def hyphenate_def asciiLower_def

lemmas resolver_eval =
  getCustomFileIcons_def objectPrototypeNames_def property_def hasOverride_def customFileIcon_def
  justFileName_def lowerFileName_def longExtension_def shortExtension_def iconClass_def
  hasDefinition_def definedIcon_def fileNameIcon_def languageIcon_def svelteIcon_def
  resolveFromData_def resolveIcon_def lowerFolderName_def folderKey_def customFolderIcon_def
  folderFromData_def resolveFolderIcon_def getIconDetails_def

lemmas store_eval =
  getCachedVersion_def setCachedVersion_def getCachedData_def setCachedData_def
  tryGetMaterialIconsData_def getMaterialIconsData_def

lemmas sample_eval =
  sample_icons_def sample_data_def offline_def loaded_def sample_overrides_def fresh_def

lemmas scan_eval =
  return_def throw_def await_def add_def addIfTruthy_def codeBlockIcon_def toLines_def
  isLineTerminator_def unwrap_def normalizeFileTreeEntry_def entryNameOf_def isEllipsis_def
  isDirectory_def folderIcons_def fileIcon_def
  fileTreeLine_def fileTree_def scanFile_def

lemmas regex_eval =
  isLetter_def isDigit_def isWordChar_def fence_def langAt_def titleAt_def attributesAt_def
  codeBlockAt_def codeBlockMatches_def fileTreeAt_def fileTreeMatches_def isClassChar_def
  isClassTailChar_def iconClassAt_def iconClassMatches_def

lemma getMaterialIconsData_no_throw:
  "\<exists>r w'. getMaterialIconsData w = (Inr r, w')"
proof (cases "cachedData w")
  case None
  obtain r w' where t: "tryGetMaterialIconsData w = (r, w')"
    by (cases "tryGetMaterialIconsData w")
  show ?thesis using None t
    by (cases r) (simp_all add: getMaterialIconsData_def)
next
  case (Some d)
  then show ?thesis by (simp add: getMaterialIconsData_def)
qed

lemma getMaterialIconsData_fst:
  "fst (getMaterialIconsData w) = Inr r \<Longrightarrow> \<exists>w'. getMaterialIconsData w = (Inr r, w')"
  by (cases "getMaterialIconsData w") simp

text \<open>No property name of \<^verbatim>\<open>Object.prototype\<close> is empty or holds a dot or a colon.\<close>

lemma objectPrototypeNames_plain:
  "name \<in> set objectPrototypeNames
   \<Longrightarrow> name \<noteq> [] \<and> cu CHR ''.'' \<notin> set name \<and> cu CHR '':'' \<notin> set name"
  by (auto simp: objectPrototypeNames_def str_def cu_def)

lemma property_own: "obj key = Some v \<Longrightarrow> property obj key = Some (Text v)"
  by (simp add: property_def)

lemma property_Text: "property obj key = Some (Text v) \<longleftrightarrow> obj key = Some v"
  by (auto simp: property_def split: option.splits)

lemma property_Inherited:
  "property obj key = Some (Inherited name)
     \<longleftrightarrow> obj key = None \<and> key \<in> set objectPrototypeNames \<and> name = key"
  by (auto simp: property_def split: option.splits)

lemma property_None:
  "property obj key = None \<longleftrightarrow> obj key = None \<and> key \<notin> set objectPrototypeNames"
  by (auto simp: property_def split: option.splits)

lemma definedIcon_Text:
  "definedIcon mi (Some (Text n))
     = (if n \<noteq> [] \<and> hasDefinition mi n then Some (Inr (iconClass n)) else None)"
  by (simp add: definedIcon_def)

lemma definedIcon_None: "definedIcon mi None = None"
  by (simp add: definedIcon_def)

lemma resolveIcon_custom:
  "customFileIcon lc (getCustomFileIcons w) fileName = Some c
   \<Longrightarrow> resolveIcon lc fileName language w = (Inr (Some c), w)"
  by (simp add: resolveIcon_def)

lemma resolveIcon_data:
  "customFileIcon lc (getCustomFileIcons w) fileName = None
   \<Longrightarrow> getMaterialIconsData w = (Inr (Some data), w')
   \<Longrightarrow> resolveFromData lc data fileName language = Inr c
   \<Longrightarrow> resolveIcon lc fileName language w = (Inr (map_option Text c), w')"
  by (simp add: resolveIcon_def)

lemma resolveIcon_no_data:
  "customFileIcon lc (getCustomFileIcons w) fileName = None
   \<Longrightarrow> getMaterialIconsData w = (Inr None, w')
   \<Longrightarrow> resolveIcon lc fileName language w = (Inr None, w')"
  by (simp add: resolveIcon_def)

lemma hasOverride_Some:
  "hasOverride ci k \<Longrightarrow> \<exists>v. property ci k = Some v \<and> truthyValue (Some v)"
  by (cases "property ci k") (simp_all add: hasOverride_def)

lemma resolveIcon_override:
  assumes "getCustomFileIcons w = Some ci" and "f \<noteq> []"
    and "customIconOf ci [lowerFileName lc f, longExtension lc f, shortExtension lc f]
           = property ci k"
    and "hasOverride ci k"
  shows "resolveIcon lc (Some f) language w = (Inr (property ci k), w)"
proof -
  obtain v where v: "property ci k = Some v" using hasOverride_Some [OF assms(4)] by blast
  have "customFileIcon lc (getCustomFileIcons w) (Some f) = Some v"
    using assms(1-3) v by (simp add: customFileIcon_def)
  then show ?thesis using v by (simp add: resolveIcon_custom)
qed

lemma resolveFolderIcon_custom:
  "customFolderIcon lc (getCustomFileIcons w) d isOpen = Some c
   \<Longrightarrow> resolveFolderIcon lc d isOpen w = (Inr (Some c), w)"
  by (simp add: resolveFolderIcon_def)

lemma customIconOf_hit:
  "k \<in> set keys \<Longrightarrow> hasOverride ci k
   \<Longrightarrow> \<exists>k'. k' \<in> set keys \<and> hasOverride ci k' \<and> customIconOf ci keys = property ci k'"
  by (induction keys) auto

lemma customFileIcon_falsy: "\<not> truthy fileName \<Longrightarrow> customFileIcon lc ci fileName = None"
  by (cases fileName; cases ci) (simp_all add: customFileIcon_def)

text \<open>The key of a folder override holds a colon, so the lookup finds own entries only.\<close>

lemma folderKey_own:
  "property ci (folderKey lc d isOpen) = map_option Text (ci (folderKey lc d isOpen))"
proof -
  have "cu CHR '':'' \<in> set (folderKey lc d isOpen)"
    by (simp add: folderKey_def str_def)
  then have "folderKey lc d isOpen \<notin> set objectPrototypeNames"
    using objectPrototypeNames_plain by blast
  then show ?thesis by (simp add: property_def split: option.splits)
qed

lemma customFolderIcon_own:
  "customFolderIcon lc (Some ci) d isOpen
     = (case ci (folderKey lc d isOpen) of
          None \<Rightarrow> None
        | Some v \<Rightarrow> if v = [] then None else Some (Text v))"
  by (simp add: customFolderIcon_def folderKey_own split: option.splits)

text \<open>
  A long extension that names a property of \<^verbatim>\<open>Object.prototype\<close> holds no dot, so it
  is the short extension as well.
\<close>

lemma split_not_Nil: "split c s \<noteq> []"
  by (induction s) (simp_all split: list.splits)

lemma join_dot: "c \<in> set (join c (p # q # ps))"
  by simp

lemma longExtension_inherited:
  assumes "longExtension lc f \<in> set objectPrototypeNames"
  shows "longExtension lc f = shortExtension lc f"
proof -
  let ?parts = "split (cu CHR ''.'') (lowerFileName lc f)"
  obtain a rest where parts: "?parts = a # rest"
    using split_not_Nil [of "cu CHR ''.''" "lowerFileName lc f"] by (cases ?parts) auto
  have long: "longExtension lc f = join (cu CHR ''.'') rest"
    by (simp add: longExtension_def parts)
  show ?thesis
  proof (cases rest)
    case Nil
    with long assms objectPrototypeNames_plain show ?thesis by fastforce
  next
    case (Cons p rest')
    show ?thesis
    proof (cases rest')
      case Nil
      with Cons parts long show ?thesis
        by (simp add: shortExtension_def pop_def)
    next
      case (Cons q ps)
      with \<open>rest = p # rest'\<close> long have "cu CHR ''.'' \<in> set (longExtension lc f)"
        by simp
      with assms objectPrototypeNames_plain show ?thesis by blast
    qed
  qed
qed

lemma getIconClass_append:
  "getIconClass mi (ps @ qs)
     = (case getIconClass mi ps of
          Inl e \<Rightarrow> Inl e
        | Inr (Some c) \<Rightarrow> Inr (Some c)
        | Inr None \<Rightarrow> getIconClass mi qs)"
  by (induction ps) (auto split: option.splits sum.splits)

lemma hyphenate_no_underscore: "cu CHR ''_'' \<notin> set (hyphenate n)"
  by (auto simp: hyphenate_def cu_def)

lemma resolveFolderIcon_data:
  "customFolderIcon lc (getCustomFileIcons w) d isOpen = None
   \<Longrightarrow> fst (getMaterialIconsData w) = Inr (Some data)
   \<Longrightarrow> fst (resolveFolderIcon lc d isOpen w)
       = (case folderFromData lc data d isOpen of
            Inl e \<Rightarrow> Inl e
          | Inr c \<Rightarrow> Inr (Some (Text c)))"
  by (cases "getMaterialIconsData w")
    (simp add: resolveFolderIcon_def split: sum.splits)

lemma resolveFolderIcon_no_data:
  "customFolderIcon lc (getCustomFileIcons w) d isOpen = None
   \<Longrightarrow> fst (getMaterialIconsData w) = Inr None
   \<Longrightarrow> fst (resolveFolderIcon lc d isOpen w) = Inr None"
  by (cases "getMaterialIconsData w") (simp add: resolveFolderIcon_def)

lemma iconClass_not_folder_default:
  "iconClass n \<noteq> str ''i-starlight-plugin-icons:folder-open''"
  "iconClass n \<noteq> str ''i-starlight-plugin-icons:folder''"
  by (simp_all add: iconClass_def str_def cu_def)

lemma iconClass_eq: "iconClass a = iconClass b \<longleftrightarrow> hyphenate a = hyphenate b"
  by (simp add: iconClass_def)

text \<open>What the probe of a folder table gives, by what the lookup finds.\<close>

lemma folderFromData_cases:
  "folderFromData lc data d isOpen
     = (case property (if isOpen then folderNamesExpanded (materialIcons data)
                       else folderNames (materialIcons data)) (lowerFolderName lc d) of
          None \<Rightarrow> Inr (if isOpen then str ''i-starlight-plugin-icons:folder-open''
                       else str ''i-starlight-plugin-icons:folder'')
        | Some (Text n) \<Rightarrow>
            if n \<noteq> [] \<and> hasDefinition (materialIcons data) n then Inr (iconClass n)
            else Inr (if isOpen then str ''i-starlight-plugin-icons:folder-open''
                      else str ''i-starlight-plugin-icons:folder'')
        | Some (Inherited name) \<Rightarrow>
            if hasDefinition (materialIcons data) (toString (Inherited name))
            then Inl TypeError
            else Inr (if isOpen then str ''i-starlight-plugin-icons:folder-open''
                      else str ''i-starlight-plugin-icons:folder''))"
  by (simp add: folderFromData_def Let_def definedIcon_def split: option.splits jsvalue.splits)

lemma tryGet_remoteVersion_fails:
  "remoteVersion w = Inl e \<Longrightarrow> tryGetMaterialIconsData w = (Inl e, w)"
  by (simp add: tryGetMaterialIconsData_def)

lemma tryGet_fetch_fails:
  assumes "remoteVersion w = Inr v"
    and "Some (trim v) \<noteq> getCachedVersion w \<or> getCachedData w = None"
    and "(\<exists>e. remoteLanguageMap w = Inl e) \<or> (\<exists>e. remoteMaterialIcons w = Inl e)"
  shows "\<exists>e. tryGetMaterialIconsData w = (Inl e, w)"
  using assms by (auto simp: tryGetMaterialIconsData_def Let_def split: sum.splits)

lemma tryGet_sources:
  assumes "tryGetMaterialIconsData w = (Inr d, w')"
  shows "(languageMapFile w = Some (languageMap d) \<and> materialIconsFile w = Some (materialIcons d))
       \<or> (remoteLanguageMap w = Inr (languageMap d)
           \<and> remoteMaterialIcons w = Inr (materialIcons d))"
  using assms
  by (auto simp: tryGetMaterialIconsData_def Let_def getCachedData_def
      split: sum.splits option.splits if_splits prod.splits)

lemma getIconDetails_sh: "getIconDetails lc title (Some (str ''sh'')) w = (Inr None, w)"
  by (simp add: getIconDetails_def)

lemma codeBlockIcon_sh:
  "codeBlockIcon lc (Some (str ''sh''), title) usedIcons w = (Inr usedIcons, w)"
  by (simp add: codeBlockIcon_def await_def return_def getIconDetails_sh)
lemma utf8_Cons_plain:
  "\<not> isHighSurrogate c \<Longrightarrow> \<not> isLowSurrogate c \<Longrightarrow> utf8 (c # s) = c # utf8 s"
  by (cases s) simp_all

lemma replacement_not_surrogate: "\<not> isHighSurrogate 0xFFFD" "\<not> isLowSurrogate 0xFFFD"
  by (simp_all add: isHighSurrogate_def isLowSurrogate_def)

text \<open>A string that the encoder stores as it is can be followed by any other.\<close>

lemma utf8_append: "utf8 x = x \<Longrightarrow> utf8 (x @ y) = x @ utf8 y"
proof (induction x rule: utf8.induct)
  case 1
  then show ?case by simp
next
  case (2 c)
  then have "\<not> isHighSurrogate c" "\<not> isLowSurrogate c"
    using replacement_not_surrogate by (auto split: if_splits)
  then show ?case by (simp add: utf8_Cons_plain)
next
  case (3 c d s)
  show ?case
  proof (cases "isHighSurrogate c")
    case True
    show ?thesis
    proof (cases "isLowSurrogate d")
      case True
      with \<open>isHighSurrogate c\<close> 3 show ?thesis by simp
    next
      case False
      with \<open>isHighSurrogate c\<close> 3(5) have "c = 0xFFFD" by simp
      with \<open>isHighSurrogate c\<close> replacement_not_surrogate show ?thesis by simp
    qed
  next
    case False
    show ?thesis
    proof (cases "isLowSurrogate c")
      case True
      with False 3(5) have "c = 0xFFFD" by simp
      with True replacement_not_surrogate show ?thesis by simp
    next
      case low: False
      with False 3 have "utf8 (d # s) = d # s" by simp
      with False low 3 have "utf8 ((d # s) @ y) = (d # s) @ utf8 y" by simp
      with False low show ?thesis by (simp add: utf8_Cons_plain)
    qed
  qed
qed

lemma utf8_append_fixed: "utf8 x = x \<Longrightarrow> utf8 y = y \<Longrightarrow> utf8 (x @ y) = x @ y"
  by (simp add: utf8_append)

lemma utf8_plain:
  "\<forall>c \<in> set s. \<not> isHighSurrogate c \<and> \<not> isLowSurrogate c \<Longrightarrow> utf8 s = s"
  by (induction s) (simp_all add: utf8_Cons_plain)

lemma hexDigit_plain:
  assumes "n < 16"
  shows "\<not> isHighSurrogate (hexDigit n) \<and> \<not> isLowSurrogate (hexDigit n)"
proof -
  have "list_all (\<lambda>k. \<not> isHighSurrogate (hexDigit k) \<and> \<not> isLowSurrogate (hexDigit k))
      [0..<16]"
    by (simp add: upt_rec hexDigit_def isHighSurrogate_def isLowSurrogate_def)
  moreover have "n \<in> set [0..<16]" using assms by simp
  ultimately show ?thesis unfolding list_all_iff by blast
qed

lemma unicodeEscape_fixed: "utf8 (unicodeEscape c) = unicodeEscape c"
proof -
  have h: "\<not> isHighSurrogate (hexDigit (k mod 16)) \<and> \<not> isLowSurrogate (hexDigit (k mod 16))"
    for k by (rule hexDigit_plain) simp
  have b: "\<not> isHighSurrogate 0x5C \<and> \<not> isLowSurrogate 0x5C"
      "\<not> isHighSurrogate 0x75 \<and> \<not> isLowSurrogate 0x75"
    by (simp_all add: isHighSurrogate_def isLowSurrogate_def)
  show ?thesis
    by (rule utf8_plain) (simp add: unicodeEscape_def h b)
qed

lemma escapeUnit_fixed: "utf8 (escapeUnit c) = escapeUnit c"
  by (simp add: escapeUnit_def unicodeEscape_fixed isHighSurrogate_def isLowSurrogate_def)

lemma escape_fixed: "utf8 (escape s) = escape s"
proof (induction s rule: escape.induct)
  case 1
  then show ?case by simp
next
  case (2 c)
  then show ?case by (simp add: escapeUnit_fixed)
next
  case (3 c d s)
  then show ?case by (simp add: escapeUnit_fixed utf8_append_fixed)
qed

lemma quote_fixed: "utf8 (quote s) = quote s"
proof -
  have "utf8 ([0x22] @ escape s @ [0x22]) = [0x22] @ escape s @ [0x22]"
    by (intro utf8_append_fixed escape_fixed)
      (simp_all add: isHighSurrogate_def isLowSurrogate_def)
  then show ?thesis by (simp add: quote_def)
qed

lemma element_fixed: "utf8 (element x) = element x"
  by (cases x)
    (simp_all add: quote_fixed str_def cu_def isHighSurrogate_def isLowSurrogate_def)

lemma items_fixed: "utf8 (items xs) = items xs"
proof (induction xs rule: items.induct)
  case 1
  then show ?case by simp
next
  case (2 x)
  have "utf8 ([0x0A, 0x20, 0x20] @ element x @ [0x0A])
      = [0x0A, 0x20, 0x20] @ element x @ [0x0A]"
    by (intro utf8_append_fixed element_fixed)
      (simp_all add: isHighSurrogate_def isLowSurrogate_def)
  then show ?case by simp
next
  case (3 x y xs)
  have "utf8 ([0x0A, 0x20, 0x20] @ element x @ [0x2C] @ items (y # xs))
      = [0x0A, 0x20, 0x20] @ element x @ [0x2C] @ items (y # xs)"
    using 3 by (intro utf8_append_fixed element_fixed)
      (simp_all add: isHighSurrogate_def isLowSurrogate_def)
  then show ?case by simp
qed

text \<open>The serialised safelist is read back as it was written.\<close>

lemma stringify_fixed: "utf8 (stringify xs) = stringify xs"
proof -
  have "utf8 ([0x5B] @ items xs @ [0x5D]) = [0x5B] @ items xs @ [0x5D]"
    by (intro utf8_append_fixed items_fixed)
      (simp_all add: isHighSurrogate_def isLowSurrogate_def)
  then show ?thesis by (simp add: stringify_def)
qed
text \<open>Lookups see the same data throughout a run, and the scan keeps the set free of duplicates.\<close>

lemma getMaterialIconsData_settles:
  assumes "cacheWritesAgree w" and "getMaterialIconsData w = (r, w')"
  shows "fst (getMaterialIconsData w') = r \<and> customFileIconsMap w' = customFileIconsMap w
       \<and> spiCustomFileIcons w' = spiCustomFileIcons w \<and> safelistFile w' = safelistFile w
       \<and> can_write w' = can_write w \<and> can_mkdir w' = can_mkdir w"
proof (cases "cachedData w")
  case (Some d)
  with assms(2) show ?thesis by (auto simp: getMaterialIconsData_def)
next
  case None
  obtain x u where t: "tryGetMaterialIconsData w = (x, u)"
    by (cases "tryGetMaterialIconsData w")
  show ?thesis
  proof (cases x)
    case (Inr d)
    with None t assms(2) have w': "w' = u\<lparr>cachedData := Some d\<rparr>" and r: "r = Inr (Some d)"
      by (simp_all add: getMaterialIconsData_def)
    have "customFileIconsMap u = customFileIconsMap w \<and> spiCustomFileIcons u = spiCustomFileIcons w
        \<and> safelistFile u = safelistFile w \<and> can_write u = can_write w \<and> can_mkdir u = can_mkdir w"
      using t
      by (auto simp: tryGetMaterialIconsData_def Let_def setCachedData_def setCachedVersion_def
          split: sum.splits option.splits if_splits prod.splits)
    then show ?thesis using w' r by (simp add: getMaterialIconsData_def)
  next
    case (Inl e)
    with None t assms(2) have w': "w' = u" and r: "r = Inr None"
      by (simp_all add: getMaterialIconsData_def)
    have "u = w"
      using t Inl assms(1)
      by (auto simp: tryGetMaterialIconsData_def Let_def setCachedData_def setCachedVersion_def
          cacheWritesAgree_def
          split: sum.splits option.splits if_splits prod.splits)
    then show ?thesis using w' r assms(2) by simp
  qed
qed


lemma getMaterialIconsData_view:
  assumes "cacheWritesAgree w"
  shows "view (snd (getMaterialIconsData w)) = view w
       \<and> safelistFile (snd (getMaterialIconsData w)) = safelistFile w
       \<and> can_write (snd (getMaterialIconsData w)) = can_write w
       \<and> can_mkdir (snd (getMaterialIconsData w)) = can_mkdir w"
proof -
  obtain r w' where g: "getMaterialIconsData w = (r, w')"
    by (cases "getMaterialIconsData w")
  from getMaterialIconsData_settles [OF assms g]
  have s: "fst (getMaterialIconsData w') = r" "customFileIconsMap w' = customFileIconsMap w"
      "spiCustomFileIcons w' = spiCustomFileIcons w" "safelistFile w' = safelistFile w"
      "can_write w' = can_write w" "can_mkdir w' = can_mkdir w"
    by simp_all
  have c: "getCustomFileIcons w' = getCustomFileIcons w"
    by (simp add: getCustomFileIcons_def s cong: option.case_cong)
  show ?thesis
    unfolding view_def g by (simp add: s c)
qed

lemma steadyI:
  assumes "\<And>w1 w2. cacheWritesAgree w1 \<Longrightarrow> cacheWritesAgree w2 \<Longrightarrow> view w1 = view w2
      \<Longrightarrow> fst (m w1) = fst (m w2)"
    and "\<And>w. cacheWritesAgree w
      \<Longrightarrow> view (snd (m w)) = view w \<and> safelistFile (snd (m w)) = safelistFile w
          \<and> can_write (snd (m w)) = can_write w \<and> can_mkdir (snd (m w)) = can_mkdir w"
  shows "steady m"
  using assms unfolding steady_def by blast

lemma steady_result:
  "steady m \<Longrightarrow> cacheWritesAgree w1 \<Longrightarrow> cacheWritesAgree w2 \<Longrightarrow> view w1 = view w2
   \<Longrightarrow> fst (m w1) = fst (m w2)"
  unfolding steady_def by blast

lemma steady_world:
  "steady m \<Longrightarrow> cacheWritesAgree w
   \<Longrightarrow> view (snd (m w)) = view w \<and> safelistFile (snd (m w)) = safelistFile w
       \<and> can_write (snd (m w)) = can_write w \<and> can_mkdir (snd (m w)) = can_mkdir w"
  unfolding steady_def by blast

lemma steady_agree:
  "steady m \<Longrightarrow> cacheWritesAgree w \<Longrightarrow> cacheWritesAgree (snd (m w))"
  using steady_world [of m w] by (simp add: cacheWritesAgree_def)

lemma steady_return: "steady (return x)"
  by (rule steadyI) (simp_all add: return_def)

lemma steady_throw: "steady (throw e)"
  by (rule steadyI) (simp_all add: throw_def)

lemma steady_await:
  assumes m: "steady m" and f: "\<And>x. steady (f x)"
  shows "steady (await m f)"
proof (rule steadyI)
  fix w1 w2
  assume a: "cacheWritesAgree w1" "cacheWritesAgree w2" "view w1 = view w2"
  obtain r1 u1 where m1: "m w1 = (r1, u1)" by (cases "m w1")
  obtain r2 u2 where m2: "m w2 = (r2, u2)" by (cases "m w2")
  have r: "r1 = r2" using steady_result [OF m a] m1 m2 by simp
  have v: "view u1 = view u2"
    using steady_world [OF m a(1)] steady_world [OF m a(2)] a(3) m1 m2 by simp
  have c: "cacheWritesAgree u1" "cacheWritesAgree u2"
    using steady_agree [OF m a(1)] steady_agree [OF m a(2)] m1 m2 by simp_all
  show "fst (await m f w1) = fst (await m f w2)"
  proof (cases r1)
    case (Inl e)
    then have "m w1 = (Inl e, u1)" "m w2 = (Inl e, u2)" using r m1 m2 by simp_all
    then show ?thesis by (simp add: await_def)
  next
    case (Inr x)
    then have "m w1 = (Inr x, u1)" "m w2 = (Inr x, u2)" using r m1 m2 by simp_all
    with steady_result [OF f [of x] c v] show ?thesis
      by (simp add: await_def)
  qed
next
  fix w
  assume a: "cacheWritesAgree w"
  obtain r u where mw: "m w = (r, u)" by (cases "m w")
  have u: "view u = view w" "safelistFile u = safelistFile w" "can_write u = can_write w"
      "can_mkdir u = can_mkdir w"
    using steady_world [OF m a] mw by simp_all
  have c: "cacheWritesAgree u" using steady_agree [OF m a] mw by simp
  show "view (snd (await m f w)) = view w \<and> safelistFile (snd (await m f w)) = safelistFile w
      \<and> can_write (snd (await m f w)) = can_write w \<and> can_mkdir (snd (await m f w)) = can_mkdir w"
  proof (cases r)
    case (Inl e)
    then have "m w = (Inl e, u)" using mw by simp
    with u show ?thesis by (simp add: await_def)
  next
    case (Inr x)
    then have "m w = (Inr x, u)" using mw by simp
    with steady_world [OF f [of x] c] u show ?thesis
      by (simp add: await_def)
  qed
qed

lemma steady_forEach:
  assumes "\<And>x s. steady (body x s)"
  shows "steady (forEach body xs s)"
  by (induction xs arbitrary: s) (simp_all add: steady_return steady_await assms)

lemma resolveIcon_await:
  "resolveIcon lc fileName language
     = (\<lambda>w. case customFileIcon lc (getCustomFileIcons w) fileName of
               Some c \<Rightarrow> return (Some c) w
             | None \<Rightarrow> await getMaterialIconsData
                 (\<lambda>data. case data of
                    None \<Rightarrow> return None
                  | Some d \<Rightarrow>
                      (case resolveFromData lc d fileName language of
                         Inl e \<Rightarrow> throw e
                       | Inr c \<Rightarrow> return (map_option Text c))) w)"
  by (rule ext)
    (simp add: resolveIcon_def await_def return_def throw_def
      split: prod.splits sum.splits option.splits)
lemma steady_getMaterialIconsData: "steady getMaterialIconsData"
  by (rule steadyI) (simp_all add: view_def getMaterialIconsData_view [unfolded view_def])

lemma steady_by_overrides:
  assumes "\<And>c. steady (m c)"
  shows "steady (\<lambda>w. m (getCustomFileIcons w) w)"
proof (rule steadyI)
  fix w1 w2
  assume a: "cacheWritesAgree w1" "cacheWritesAgree w2" "view w1 = view w2"
  then have "getCustomFileIcons w1 = getCustomFileIcons w2" by (simp add: view_def)
  with steady_result [OF assms a] show "fst (m (getCustomFileIcons w1) w1) = fst (m (getCustomFileIcons w2) w2)"
    by simp
next
  fix w
  assume "cacheWritesAgree w"
  from steady_world [OF assms this]
  show "view (snd (m (getCustomFileIcons w) w)) = view w
      \<and> safelistFile (snd (m (getCustomFileIcons w) w)) = safelistFile w
      \<and> can_write (snd (m (getCustomFileIcons w) w)) = can_write w
      \<and> can_mkdir (snd (m (getCustomFileIcons w) w)) = can_mkdir w" .
qed

lemma steady_resolveIcon: "steady (resolveIcon lc fileName language)"
proof -
  let ?look = "\<lambda>data. case data of
                    None \<Rightarrow> return None
                  | Some d \<Rightarrow>
                      (case resolveFromData lc d fileName language of
                         Inl e \<Rightarrow> throw e
                       | Inr c \<Rightarrow> return (map_option Text c))"
  have look: "steady (?look data)" for data
    by (simp add: steady_return steady_throw split: option.splits sum.splits)
  have "steady (case customFileIcon lc c fileName of
               Some x \<Rightarrow> return (Some x)
             | None \<Rightarrow> await getMaterialIconsData ?look)" for c
    using look
    by (cases "customFileIcon lc c fileName")
      (simp_all add: steady_return steady_await steady_getMaterialIconsData)
  from steady_by_overrides [of "\<lambda>c. case customFileIcon lc c fileName of
               Some x \<Rightarrow> return (Some x)
             | None \<Rightarrow> await getMaterialIconsData ?look", OF this]
  show ?thesis
    by (simp add: resolveIcon_await option.case_distrib [of "\<lambda>f. f _"] cong: option.case_cong)
qed

lemma resolveFolderIcon_await:
  "resolveFolderIcon lc d isOpen
     = (\<lambda>w. case customFolderIcon lc (getCustomFileIcons w) d isOpen of
               Some c \<Rightarrow> return (Some c) w
             | None \<Rightarrow> await getMaterialIconsData
                 (\<lambda>data. case data of
                    None \<Rightarrow> return None
                  | Some x \<Rightarrow>
                      (case folderFromData lc x d isOpen of
                         Inl e \<Rightarrow> throw e
                       | Inr c \<Rightarrow> return (Some (Text c)))) w)"
  by (rule ext)
    (simp add: resolveFolderIcon_def await_def return_def throw_def
      split: prod.splits sum.splits option.splits)

lemma steady_resolveFolderIcon: "steady (resolveFolderIcon lc d isOpen)"
proof -
  let ?look = "\<lambda>data. case data of
                    None \<Rightarrow> return None
                  | Some x \<Rightarrow>
                      (case folderFromData lc x d isOpen of
                         Inl e \<Rightarrow> throw e
                       | Inr c \<Rightarrow> return (Some (Text c)))"
  have look: "steady (?look data)" for data
    by (simp add: steady_return steady_throw split: option.splits sum.splits)
  have "steady (case customFolderIcon lc c d isOpen of
               Some x \<Rightarrow> return (Some x)
             | None \<Rightarrow> await getMaterialIconsData ?look)" for c
    using look
    by (cases "customFolderIcon lc c d isOpen")
      (simp_all add: steady_return steady_await steady_getMaterialIconsData)
  from steady_by_overrides [of "\<lambda>c. case customFolderIcon lc c d isOpen of
               Some x \<Rightarrow> return (Some x)
             | None \<Rightarrow> await getMaterialIconsData ?look", OF this]
  show ?thesis
    by (simp add: resolveFolderIcon_await option.case_distrib [of "\<lambda>f. f _"]
        cong: option.case_cong)
qed

lemma getIconDetails_await:
  "getIconDetails lc title language
     = (if language = Some (str ''sh'') then return None
        else await (resolveIcon lc title language) (\<lambda>c. return (Some (c, language))))"
  by (rule ext) (simp add: getIconDetails_def await_def return_def split: prod.splits sum.splits)

lemma steady_getIconDetails: "steady (getIconDetails lc title language)"
  by (simp add: getIconDetails_await steady_return steady_await steady_resolveIcon)

lemma steady_codeBlockIcon: "steady (codeBlockIcon lc m usedIcons)"
  by (simp add: codeBlockIcon_def steady_return steady_await steady_getIconDetails)

lemma steady_folderIcons: "steady (folderIcons lc e usedIcons)"
  by (simp add: folderIcons_def Let_def steady_return steady_await steady_resolveFolderIcon)

lemma steady_fileIcon: "steady (fileIcon lc e usedIcons)"
  by (simp add: fileIcon_def steady_return steady_await steady_resolveIcon)

lemma steady_fileTreeLine: "steady (fileTreeLine lc lines i usedIcons)"
  by (simp add: fileTreeLine_def Let_def steady_return steady_folderIcons steady_fileIcon)

lemma steady_fileTree: "steady (fileTree lc t usedIcons)"
  by (simp add: fileTree_def Let_def steady_return steady_forEach steady_fileTreeLine)

lemma steady_scanFile: "steady (scanFile lc f usedIcons)"
  by (cases f)
    (simp_all add: scanFile_def steady_throw steady_await steady_forEach steady_codeBlockIcon
      steady_fileTree)

lemma steady_scan: "steady (forEach (scanFile lc) files usedIcons)"
  by (simp add: steady_forEach steady_scanFile)

text \<open>The safelist file is no part of the view.\<close>

lemma tryGet_safelistFile:
  "tryGetMaterialIconsData (w\<lparr>safelistFile := x\<rparr>)
     = (fst (tryGetMaterialIconsData w), (snd (tryGetMaterialIconsData w))\<lparr>safelistFile := x\<rparr>)"
  by (auto simp: tryGetMaterialIconsData_def Let_def setCachedData_def setCachedVersion_def
      getCachedVersion_def getCachedData_def
      split: sum.splits option.splits prod.splits)

lemma view_safelistFile: "view (w\<lparr>safelistFile := x\<rparr>) = view w"
  by (cases "tryGetMaterialIconsData w")
    (auto simp: view_def getMaterialIconsData_def getCustomFileIcons_def tryGet_safelistFile
      split: sum.splits option.splits prod.splits)

lemma saveSafelist_world:
  "saveSafelist usedIcons w = (r, w')
   \<Longrightarrow> w' = w \<or> w' = w\<lparr>safelistFile := Some (stringify (sortIcons usedIcons))\<rparr>"
  by (auto simp: saveSafelist_def writeSafelist_def Let_def stringify_fixed
      split: option.splits if_splits)

lemma saveSafelist_again:
  assumes "saveSafelist usedIcons w = (Inr changed, w')"
    and "safelistFile u = safelistFile w'"
  shows "saveSafelist usedIcons u = (Inr False, u)"
  using assms
  by (auto simp: saveSafelist_def writeSafelist_def Let_def stringify_fixed
      split: option.splits if_splits)

lemma generateSafelist_twice:
  assumes agree: "cacheWritesAgree w"
    and run: "generateSafelist lc files configs customFileIcons w = (Inr changed, w')"
    and later: "cacheWritesAgree u" "view u = view w'" "safelistFile u = safelistFile w'"
  shows "\<exists>u'. generateSafelist lc files configs customFileIcons u = (Inr False, u')
           \<and> safelistFile u' = safelistFile w'"
proof -
  let ?scan = "forEach (scanFile lc) files []"
  note st = steady_scan [of lc files "[]"]
  obtain r w1 where s1: "?scan w = (r, w1)" by (cases "?scan w")
  from run s1 obtain scanned where r: "r = Inr scanned"
    by (cases r) (simp_all add: generateSafelist_def await_def)
  let ?used = "addCustomIcons customFileIcons (addConfigIcons configs scanned)"
  from run s1 r have save: "saveSafelist ?used w1 = (Inr changed, w')"
    by (simp add: generateSafelist_def await_def)
  have w1: "view w1 = view w"
    using steady_world [OF st agree] s1 by simp
  from saveSafelist_world [OF save]
  have "view w' = view w"
    using w1 by (auto simp: view_safelistFile)
  with later(2) have v: "view u = view w" by simp
  obtain r2 u1 where s2: "?scan u = (r2, u1)" by (cases "?scan u")
  have "r2 = r" using steady_result [OF st later(1) agree v] s1 s2 by simp
  with r s2 have s2': "?scan u = (Inr scanned, u1)" by simp
  have "safelistFile u1 = safelistFile w'"
    using steady_world [OF st later(1)] s2 later(3) by simp
  from saveSafelist_again [OF save this] s2' this
  show ?thesis by (simp add: generateSafelist_def await_def)
qed

lemma forEach_invariant:
  assumes step: "\<And>x s w r w'. P s \<Longrightarrow> body x s w = (Inr r, w') \<Longrightarrow> P r"
    and "P s" and "forEach body xs s w = (Inr r, w')"
  shows "P r"
  using assms(2,3)
proof (induction xs arbitrary: s w)
  case Nil
  then show ?case by (simp add: return_def)
next
  case (Cons x xs)
  obtain r1 w1 where b: "body x s w = (r1, w1)" by (cases "body x s w")
  with Cons.prems(2) obtain s1 where r1: "r1 = Inr s1"
    by (cases r1) (simp_all add: await_def)
  with b Cons.prems(1) step have "P s1" by blast
  moreover from b r1 Cons.prems(2) have "forEach body xs s1 w1 = (Inr r, w')"
    by (simp add: await_def)
  ultimately show ?case by (rule Cons.IH)
qed

lemma distinct_add: "distinct used \<Longrightarrow> distinct (add c used)"
  by (simp add: add_def)

lemma distinct_addIfTruthy: "distinct used \<Longrightarrow> distinct (addIfTruthy c used)"
  by (simp add: addIfTruthy_def distinct_add split: option.splits)

lemma await_Inr:
  "await m f w = (Inr r, w') \<Longrightarrow> \<exists>x w1. m w = (Inr x, w1) \<and> f x w1 = (Inr r, w')"
  by (cases "m w") (auto simp: await_def split: sum.splits)

lemma distinct_codeBlockIcon:
  "distinct s \<Longrightarrow> codeBlockIcon lc m s w = (Inr r, w') \<Longrightarrow> distinct r"
  by (auto simp: codeBlockIcon_def return_def distinct_addIfTruthy
      dest!: await_Inr split: option.splits)

lemma distinct_folderIcons:
  "distinct s \<Longrightarrow> folderIcons lc e s w = (Inr r, w') \<Longrightarrow> distinct r"
  by (auto simp: folderIcons_def Let_def return_def distinct_addIfTruthy dest!: await_Inr)

lemma distinct_fileIcon:
  "distinct s \<Longrightarrow> fileIcon lc e s w = (Inr r, w') \<Longrightarrow> distinct r"
  by (auto simp: fileIcon_def return_def distinct_addIfTruthy dest!: await_Inr)

lemma distinct_fileTreeLine:
  "distinct s \<Longrightarrow> fileTreeLine lc lines i s w = (Inr r, w') \<Longrightarrow> distinct r"
  by (auto simp: fileTreeLine_def Let_def return_def split: if_splits
      dest: distinct_folderIcons distinct_fileIcon)

lemma distinct_fileTree:
  "distinct s \<Longrightarrow> fileTree lc t s w = (Inr r, w') \<Longrightarrow> distinct r"
  by (auto simp: fileTree_def Let_def return_def split: if_splits
      elim: forEach_invariant [where P = distinct, rotated 2] dest: distinct_fileTreeLine)

lemma distinct_scanFile:
  "distinct s \<Longrightarrow> scanFile lc f s w = (Inr r, w') \<Longrightarrow> distinct r"
proof (cases f)
  case (Inl e)
  then show "scanFile lc f s w = (Inr r, w') \<Longrightarrow> distinct r"
    by (simp add: scanFile_def throw_def)
next
  case (Inr c)
  assume d: "distinct s" and run: "scanFile lc f s w = (Inr r, w')"
  from run Inr obtain s1 w1
    where 1: "forEach (codeBlockIcon lc) (codeBlockMatches c) s w = (Inr s1, w1)"
    and 2: "forEach (fileTree lc) (fileTreeMatches c) s1 w1 = (Inr r, w')"
    by (auto simp: scanFile_def dest!: await_Inr)
  have "distinct s1"
    by (rule forEach_invariant [where P = distinct, OF _ d 1]) (rule distinct_codeBlockIcon)
  show "distinct r"
    by (rule forEach_invariant [where P = distinct, OF _ \<open>distinct s1\<close> 2])
      (rule distinct_fileTree)
qed

lemma distinct_scan:
  "forEach (scanFile lc) files [] w = (Inr scanned, w') \<Longrightarrow> distinct scanned"
  by (rule forEach_invariant [where P = distinct and s = "[]"]) (auto dest: distinct_scanFile)

lemma distinct_fold_add: "distinct used \<Longrightarrow> distinct (fold add xs used)"
  by (induction xs arbitrary: used) (simp_all add: distinct_add)

lemma distinct_addConfigIcons: "distinct used \<Longrightarrow> distinct (addConfigIcons configs used)"
  unfolding addConfigIcons_def
  by (induction configs arbitrary: used) (simp_all add: distinct_fold_add split: option.splits)

lemma distinct_addCustomIcons: "distinct used \<Longrightarrow> distinct (addCustomIcons c used)"
  by (simp add: addCustomIcons_def distinct_fold_add split: option.splits)

section \<open>Custom overrides of file icons\<close>

text \<open>
  C1, as the code has it. A key counts when it is not empty and the lookup under it is
  truthy (\<open>hasOverride\<close>, the test of line 349): for an entry of the overrides, when its
  value is not the empty string. The file name is the part after the last slash. For a
  file name that is not empty: what the lookup finds under the lowercase file name is
  returned when that key counts; else what it finds under the long extension when that
  key counts; else what it finds under the short extension when that key counts. In each
  case the world comes back as it was, whatever the data store holds: the store is not
  consulted.
\<close>

theorem custom_override_in_key_order:
  assumes "getCustomFileIcons w = Some ci" and "f \<noteq> []"
  shows "(hasOverride ci (lowerFileName lc f) \<longrightarrow>
            resolveIcon lc (Some f) language w = (Inr (property ci (lowerFileName lc f)), w))
       \<and> (\<not> hasOverride ci (lowerFileName lc f) \<and> hasOverride ci (longExtension lc f) \<longrightarrow>
            resolveIcon lc (Some f) language w = (Inr (property ci (longExtension lc f)), w))
       \<and> (\<not> hasOverride ci (lowerFileName lc f) \<and> \<not> hasOverride ci (longExtension lc f)
            \<and> hasOverride ci (shortExtension lc f) \<longrightarrow>
            resolveIcon lc (Some f) language w = (Inr (property ci (shortExtension lc f)), w))"
proof (intro conjI impI)
  assume "hasOverride ci (lowerFileName lc f)"
  then show "resolveIcon lc (Some f) language w = (Inr (property ci (lowerFileName lc f)), w)"
    using assms by (intro resolveIcon_override) simp_all
next
  assume "\<not> hasOverride ci (lowerFileName lc f) \<and> hasOverride ci (longExtension lc f)"
  then show "resolveIcon lc (Some f) language w = (Inr (property ci (longExtension lc f)), w)"
    using assms by (intro resolveIcon_override) simp_all
next
  assume "\<not> hasOverride ci (lowerFileName lc f) \<and> \<not> hasOverride ci (longExtension lc f)
            \<and> hasOverride ci (shortExtension lc f)"
  then show "resolveIcon lc (Some f) language w = (Inr (property ci (shortExtension lc f)), w)"
    using assms by (intro resolveIcon_override) simp_all
qed

lemma sample_overrides_keys:
  "hasOverride sample_overrides (str ''readme.md'')"
  "\<not> hasOverride sample_overrides (str ''backup.tar.gz'')"
  "hasOverride sample_overrides (str ''tar.gz'')"
  "\<not> hasOverride sample_overrides (str ''notes.v2.md'')"
  "\<not> hasOverride sample_overrides (str ''v2.md'')"
  "hasOverride sample_overrides (str ''md'')"
  "property sample_overrides (str ''readme.md'') = Some (Text (str ''i-custom:readme''))"
  "property sample_overrides (str ''tar.gz'') = Some (Text (str ''i-custom:archive''))"
  "property sample_overrides (str ''md'') = Some (Text (str ''i-custom:md''))"
  by (simp_all add: hasOverride_def property_def objectPrototypeNames_def sample_overrides_def
      str_def cu_def)

lemma sample_names:
  "lowerFileName asciiLower (str ''README.md'') = str ''readme.md''"
  "lowerFileName asciiLower (str ''backup.tar.gz'') = str ''backup.tar.gz''"
  "longExtension asciiLower (str ''backup.tar.gz'') = str ''tar.gz''"
  "lowerFileName asciiLower (str ''notes.v2.md'') = str ''notes.v2.md''"
  "longExtension asciiLower (str ''notes.v2.md'') = str ''v2.md''"
  "shortExtension asciiLower (str ''notes.v2.md'') = str ''md''"
  "lowerFileName asciiLower (str ''docs/notes.v2.md'') = str ''notes.v2.md''"
  "longExtension asciiLower (str ''docs/notes.v2.md'') = str ''v2.md''"
  "shortExtension asciiLower (str ''docs/notes.v2.md'') = str ''md''"
  by (simp_all add: string_eval justFileName_def lowerFileName_def longExtension_def
      shortExtension_def)

text \<open>
  The three cases at \<^verbatim>\<open>README.md\<close>, \<^verbatim>\<open>backup.tar.gz\<close> and \<^verbatim>\<open>notes.v2.md\<close>, with the
  sample data in memory.
\<close>

theorem custom_override_in_key_order_witness:
  "resolveIcon asciiLower (Some (str ''README.md'')) None
     (loaded\<lparr>customFileIconsMap := Some sample_overrides\<rparr>)
     = (Inr (Some (Text (str ''i-custom:readme''))),
        loaded\<lparr>customFileIconsMap := Some sample_overrides\<rparr>)
   \<and> resolveIcon asciiLower (Some (str ''backup.tar.gz'')) None
     (loaded\<lparr>customFileIconsMap := Some sample_overrides\<rparr>)
     = (Inr (Some (Text (str ''i-custom:archive''))),
        loaded\<lparr>customFileIconsMap := Some sample_overrides\<rparr>)
   \<and> resolveIcon asciiLower (Some (str ''notes.v2.md'')) None
     (loaded\<lparr>customFileIconsMap := Some sample_overrides\<rparr>)
     = (Inr (Some (Text (str ''i-custom:md''))),
        loaded\<lparr>customFileIconsMap := Some sample_overrides\<rparr>)"
proof -
  let ?w = "loaded\<lparr>customFileIconsMap := Some sample_overrides\<rparr>"
  have c: "getCustomFileIcons ?w = Some sample_overrides"
    by (simp add: getCustomFileIcons_def)
  have n1: "str ''README.md'' \<noteq> []" and n2: "str ''backup.tar.gz'' \<noteq> []"
    and n3: "str ''notes.v2.md'' \<noteq> []"
    by (simp_all add: str_def)
  have 1: "resolveIcon asciiLower (Some (str ''README.md'')) None ?w
      = (Inr (Some (Text (str ''i-custom:readme''))), ?w)"
    using custom_override_in_key_order [OF c n1, of asciiLower None]
    by (simp only: sample_names sample_overrides_keys; simp)
  have 2: "resolveIcon asciiLower (Some (str ''backup.tar.gz'')) None ?w
      = (Inr (Some (Text (str ''i-custom:archive''))), ?w)"
    using custom_override_in_key_order [OF c n2, of asciiLower None]
    by (simp only: sample_names sample_overrides_keys; simp)
  have 3: "resolveIcon asciiLower (Some (str ''notes.v2.md'')) None ?w
      = (Inr (Some (Text (str ''i-custom:md''))), ?w)"
    using custom_override_in_key_order [OF c n3, of asciiLower None]
    by (simp only: sample_names sample_overrides_keys; simp)
  show ?thesis using 1 2 3 by (intro conjI)
qed

text \<open>
  C1 as it is written fails for an entry whose value is the empty string: with
  \<^verbatim>\<open>{ md: '' }\<close> as overrides, the map has an entry under the short extension of
  \<^verbatim>\<open>README.md\<close>, and the result is the class from the Material-Icon table.
\<close>

theorem custom_override_empty_value_counterexample:
  "getCustomFileIcons (loaded\<lparr>customFileIconsMap := Some empty_override\<rparr>) = Some empty_override
   \<and> empty_override (shortExtension asciiLower (str ''README.md'')) = Some []
   \<and> fst (resolveIcon asciiLower (Some (str ''README.md'')) None
        (loaded\<lparr>customFileIconsMap := Some empty_override\<rparr>))
     = Inr (Some (Text (str ''i-material-icon-theme:markdown'')))"
  by (simp add: string_eval resolver_eval store_eval sample_eval empty_override_def)

text \<open>
  C10, as the code has it. Whatever the data store holds, and so also when no icon data
  can be had: a file name that is not empty and has a key that counts (it is not empty and
  the lookup under it is truthy) gets what the lookup finds under such a key, and a folder
  name whose key \<^verbatim>\<open>folder:<name>\<close> or \<^verbatim>\<open>folder-open:<name>\<close> has a value that is not
  empty gets that value. The world comes back as it was: the store is not consulted.
\<close>

theorem override_needs_no_icon_data:
  assumes "getCustomFileIcons w = Some ci"
  shows "(f \<noteq> [] \<and> k \<in> {lowerFileName lc f, longExtension lc f, shortExtension lc f}
            \<and> hasOverride ci k \<longrightarrow>
          (\<exists>k'. k' \<in> {lowerFileName lc f, longExtension lc f, shortExtension lc f}
             \<and> hasOverride ci k'
             \<and> resolveIcon lc (Some f) language w = (Inr (property ci k'), w)))
       \<and> (ci (folderKey lc d isOpen) = Some v \<and> v \<noteq> [] \<longrightarrow>
            resolveFolderIcon lc d isOpen w = (Inr (Some (Text v)), w))"
proof (intro conjI impI)
  assume a: "f \<noteq> [] \<and> k \<in> {lowerFileName lc f, longExtension lc f, shortExtension lc f}
            \<and> hasOverride ci k"
  let ?keys = "[lowerFileName lc f, longExtension lc f, shortExtension lc f]"
  from a have "k \<in> set ?keys" by simp
  with a obtain k' where k': "k' \<in> set ?keys" "hasOverride ci k'"
      "customIconOf ci ?keys = property ci k'"
    using customIconOf_hit by blast
  have "resolveIcon lc (Some f) language w = (Inr (property ci k'), w)"
    using assms a k' by (intro resolveIcon_override) simp_all
  with k' show "\<exists>k'. k' \<in> {lowerFileName lc f, longExtension lc f, shortExtension lc f}
             \<and> hasOverride ci k'
             \<and> resolveIcon lc (Some f) language w = (Inr (property ci k'), w)"
    by auto
next
  assume "ci (folderKey lc d isOpen) = Some v \<and> v \<noteq> []"
  then show "resolveFolderIcon lc d isOpen w = (Inr (Some (Text v)), w)"
    using assms by (simp add: resolveFolderIcon_custom customFolderIcon_own)
qed

text \<open>
  With no network, no cache and nothing in memory, \<^verbatim>\<open>docs/notes.v2.md\<close> and the folder
  \<^verbatim>\<open>src/\<close> still get their overrides.
\<close>

theorem override_needs_no_icon_data_witness:
  "getMaterialIconsData (offline\<lparr>customFileIconsMap := Some sample_overrides\<rparr>)
     = (Inr None, offline\<lparr>customFileIconsMap := Some sample_overrides\<rparr>)
   \<and> resolveIcon asciiLower (Some (str ''docs/notes.v2.md'')) None
       (offline\<lparr>customFileIconsMap := Some sample_overrides\<rparr>)
     = (Inr (Some (Text (str ''i-custom:md''))),
        offline\<lparr>customFileIconsMap := Some sample_overrides\<rparr>)
   \<and> resolveFolderIcon asciiLower (str ''src/'') False
       (offline\<lparr>customFileIconsMap := Some sample_overrides\<rparr>)
     = (Inr (Some (Text (str ''i-custom:src''))),
        offline\<lparr>customFileIconsMap := Some sample_overrides\<rparr>)"
proof -
  let ?w = "offline\<lparr>customFileIconsMap := Some sample_overrides\<rparr>"
  let ?f = "str ''docs/notes.v2.md''"
  have c: "getCustomFileIcons ?w = Some sample_overrides"
    by (simp add: getCustomFileIcons_def)
  have d: "getMaterialIconsData ?w = (Inr None, ?w)"
    by (simp add: store_eval sample_eval)
  have h: "?f \<noteq> [] \<and> str ''md'' \<in> {lowerFileName asciiLower ?f, longExtension asciiLower ?f,
      shortExtension asciiLower ?f} \<and> hasOverride sample_overrides (str ''md'')"
    by (simp add: sample_names sample_overrides_keys) (simp add: str_def)
  have t: "sample_overrides (folderKey asciiLower (str ''src/'') False)
        = Some (str ''i-custom:src'') \<and> str ''i-custom:src'' \<noteq> []"
    by (simp add: string_eval lowerFolderName_def folderKey_def sample_overrides_def)
  note both = override_needs_no_icon_data
    [OF c, where f = ?f and k = "str ''md''" and lc = asciiLower and language = None
      and d = "str ''src/''" and isOpen = False and v = "str ''i-custom:src''"]
  from both h
  obtain k' where k': "k' \<in> {lowerFileName asciiLower ?f, longExtension asciiLower ?f,
        shortExtension asciiLower ?f}" "hasOverride sample_overrides k'"
      "resolveIcon asciiLower (Some ?f) None ?w = (Inr (property sample_overrides k'), ?w)"
    by blast
  from k'(1,2) have "k' = str ''md''"
    by (auto simp: sample_names sample_overrides_keys)
  with k'(3) have name: "resolveIcon asciiLower (Some ?f) None ?w
      = (Inr (Some (Text (str ''i-custom:md''))), ?w)"
    by (simp add: sample_overrides_keys)
  from both t
  have folder: "resolveFolderIcon asciiLower (str ''src/'') False ?w
        = (Inr (Some (Text (str ''i-custom:src''))), ?w)"
    by blast
  show ?thesis using d name folder by (intro conjI)
qed

text \<open>
  C10 as it is written fails for an entry whose value is the empty string: with
  \<^verbatim>\<open>{ md: '' }\<close> as overrides the short extension of \<^verbatim>\<open>README.md\<close> is a key of the
  map, and the data store is consulted. Where no icon data can be had the result is
  \<^verbatim>\<open>null\<close>; where the network answers, the data is fetched and the result is the class
  from the Material-Icon table.
\<close>

theorem override_empty_value_needs_icon_data_counterexample:
  "empty_override (shortExtension asciiLower (str ''README.md'')) = Some []
   \<and> resolveIcon asciiLower (Some (str ''README.md'')) None
       (offline\<lparr>customFileIconsMap := Some empty_override\<rparr>)
     = (Inr None, offline\<lparr>customFileIconsMap := Some empty_override\<rparr>)
   \<and> fst (resolveIcon asciiLower (Some (str ''README.md'')) None
        (fresh\<lparr>customFileIconsMap := Some empty_override\<rparr>))
     = Inr (Some (Text (str ''i-material-icon-theme:markdown'')))
   \<and> cachedData (snd (resolveIcon asciiLower (Some (str ''README.md'')) None
        (fresh\<lparr>customFileIconsMap := Some empty_override\<rparr>)))
     = Some sample_data"
  by (simp add: string_eval resolver_eval store_eval sample_eval empty_override_def)

section \<open>The fallback of file icons\<close>

text \<open>
  C2, as the code has it. With neither a file name nor a language (undefined or empty),
  the result is \<^verbatim>\<open>null\<close>. When the icon data cannot be had and no override applies,
  the result is \<^verbatim>\<open>null\<close> as well. When the data is there, a file name or a language is
  given and is not empty, and no override, special suffix, probe of the tables (with the
  retry under a leading dot) or probe of the language id resolves, the result is the class
  \<^verbatim>\<open>i-material-icon-theme:document\<close>. An override applies, and a probe resolves, also
  on a property that the lookup inherits from \<^verbatim>\<open>Object.prototype\<close>.
\<close>

theorem fallback_to_document:
  "(\<not> truthy fileName \<and> \<not> truthy language \<longrightarrow>
      fst (resolveIcon lc fileName language w) = Inr None)
   \<and> (fst (getMaterialIconsData w) = Inr None
        \<and> customFileIcon lc (getCustomFileIcons w) fileName = None \<longrightarrow>
      fst (resolveIcon lc fileName language w) = Inr None)
   \<and> (fst (getMaterialIconsData w) = Inr (Some data)
        \<and> (truthy fileName \<or> truthy language)
        \<and> customFileIcon lc (getCustomFileIcons w) fileName = None
        \<and> svelteIcon fileName = None
        \<and> (\<forall>f. fileName = Some f \<and> f \<noteq> [] \<longrightarrow> fileNameIcon lc data f = Inr None)
        \<and> languageIcon (materialIcons data) language = Inr None \<longrightarrow>
      fst (resolveIcon lc fileName language w)
        = Inr (Some (Text (str ''i-material-icon-theme:document''))))"
proof (intro conjI impI)
  assume a: "\<not> truthy fileName \<and> \<not> truthy language"
  then have c: "customFileIcon lc (getCustomFileIcons w) fileName = None"
    by (simp add: customFileIcon_falsy)
  obtain r w' where g: "getMaterialIconsData w = (Inr r, w')"
    using getMaterialIconsData_no_throw by blast
  show "fst (resolveIcon lc fileName language w) = Inr None"
    using a c g by (cases r) (simp_all add: resolveIcon_def resolveFromData_def)
next
  assume a: "fst (getMaterialIconsData w) = Inr None
        \<and> customFileIcon lc (getCustomFileIcons w) fileName = None"
  then obtain w' where "getMaterialIconsData w = (Inr None, w')"
    using getMaterialIconsData_fst by blast
  with a show "fst (resolveIcon lc fileName language w) = Inr None"
    by (simp add: resolveIcon_no_data)
next
  assume a: "fst (getMaterialIconsData w) = Inr (Some data)
        \<and> (truthy fileName \<or> truthy language)
        \<and> customFileIcon lc (getCustomFileIcons w) fileName = None
        \<and> svelteIcon fileName = None
        \<and> (\<forall>f. fileName = Some f \<and> f \<noteq> [] \<longrightarrow> fileNameIcon lc data f = Inr None)
        \<and> languageIcon (materialIcons data) language = Inr None"
  then obtain w' where g: "getMaterialIconsData w = (Inr (Some data), w')"
    using getMaterialIconsData_fst by blast
  have "resolveFromData lc data fileName language
      = Inr (Some (str ''i-material-icon-theme:document''))"
    using a by (auto simp: resolveFromData_def split: option.splits)
  with a g show "fst (resolveIcon lc fileName language w)
      = Inr (Some (Text (str ''i-material-icon-theme:document'')))"
    by (simp add: resolveIcon_data)
qed

text \<open>
  Neither argument given; \<^verbatim>\<open>notes.xyz\<close> without data; \<^verbatim>\<open>notes.xyz\<close> with the sample
  data in memory.
\<close>

theorem fallback_to_document_witness:
  "fst (resolveIcon asciiLower None None loaded) = Inr None
   \<and> fst (resolveIcon asciiLower (Some (str ''notes.xyz'')) None offline) = Inr None
   \<and> fst (resolveIcon asciiLower (Some (str ''notes.xyz'')) None loaded)
       = Inr (Some (Text (str ''i-material-icon-theme:document'')))"
proof -
  let ?f = "Some (str ''notes.xyz'')"
  have h1: "\<not> truthy None \<and> \<not> truthy None" by simp
  have h2: "fst (getMaterialIconsData offline) = Inr None
      \<and> customFileIcon asciiLower (getCustomFileIcons offline) ?f = None"
    by (simp add: resolver_eval store_eval sample_eval)
  have d: "fst (getMaterialIconsData loaded) = Inr (Some sample_data)"
    by (simp add: store_eval sample_eval)
  have c: "customFileIcon asciiLower (getCustomFileIcons loaded) ?f = None"
    by (simp add: resolver_eval sample_eval)
  have s: "svelteIcon ?f = None"
    by (simp add: string_eval resolver_eval)
  have p: "\<forall>f. ?f = Some f \<and> f \<noteq> [] \<longrightarrow> fileNameIcon asciiLower sample_data f = Inr None"
    by (simp add: string_eval resolver_eval sample_eval)
  have l: "languageIcon (materialIcons sample_data) None = Inr None"
    by (simp add: languageIcon_def)
  have t: "truthy ?f \<or> truthy None" by (simp add: str_def)
  show ?thesis
    using fallback_to_document [where fileName = None and language = None
        and lc = asciiLower and w = loaded] h1
      fallback_to_document [where fileName = ?f and language = None
        and lc = asciiLower and w = offline] h2
      fallback_to_document [where fileName = ?f and language = None
        and lc = asciiLower and w = loaded and data = sample_data] d c s p l t
    by simp
qed

text \<open>
  C2 as it is written fails when the icon data cannot be had: a file name is given,
  nothing resolves, and the result is \<^verbatim>\<open>null\<close>, not the document class.
\<close>

theorem fallback_without_data_counterexample:
  "truthy (Some (str ''notes.xyz''))
   \<and> customFileIcon asciiLower (getCustomFileIcons offline) (Some (str ''notes.xyz'')) = None
   \<and> svelteIcon (Some (str ''notes.xyz'')) = None
   \<and> resolveIcon asciiLower (Some (str ''notes.xyz'')) None offline = (Inr None, offline)"
  by (simp add: string_eval resolver_eval store_eval sample_eval)
section \<open>Icons of known extensions\<close>

text \<open>What a probe gives on a lookup that finds no inherited property.\<close>

lemma definedIcon_own:
  assumes "\<forall>k. property m key \<noteq> Some (Inherited k)"
  shows "definedIcon mi (property m key) = None
       \<or> (\<exists>n. m key = Some n \<and> n \<noteq> [] \<and> hasDefinition mi n
             \<and> definedIcon mi (property m key) = Some (Inr (iconClass n)))"
proof (cases "property m key")
  case None
  then show ?thesis by (simp add: definedIcon_None)
next
  case (Some v)
  with assms obtain n where v: "v = Text n" by (cases v) auto
  with Some have "m key = Some n" by (simp add: property_Text)
  with Some v show ?thesis by (simp add: definedIcon_Text)
qed

text \<open>
  C3, as the code has it. The icon data is there, the file name is not empty, no override
  applies, the name does not end in \<^verbatim>\<open>.svelte.js\<close> or \<^verbatim>\<open>.svelte.ts\<close>, and the lookup
  of the lowercase file name in the File-Name Map finds no property inherited from
  \<^verbatim>\<open>Object.prototype\<close>. If the File-Extension Map has, for the long or the short
  extension, an entry with an icon name that is not empty and has a truthy entry in the
  Icon Definition Table, then the result is \<^verbatim>\<open>i-material-icon-theme:\<close> followed by an
  icon name with every underscore replaced by a hyphen; that icon name has a truthy
  definition and is the one stored under the lowercase file name in the File-Name Map or
  under the long or short extension in the File-Extension Map. When the File-Name Map has
  nothing under the file name and the extension is the long one, it is the extension's own
  icon name.
\<close>

theorem known_extension_icon:
  assumes data: "fst (getMaterialIconsData w) = Inr (Some data)"
    and custom: "customFileIcon lc (getCustomFileIcons w) (Some f) = None"
    and f: "f \<noteq> []"
    and svelte: "svelteIcon (Some f) = None"
    and name: "\<forall>k. property (fileNames (materialIcons data)) (lowerFileName lc f)
                 \<noteq> Some (Inherited k)"
    and ext: "ext = longExtension lc f \<or> ext = shortExtension lc f"
    and n: "MaterialIcons.fileExtensions (materialIcons data) ext = Some n" "n \<noteq> []"
      "hasDefinition (materialIcons data) n"
  shows "(\<exists>n'. fst (resolveIcon lc (Some f) language w)
               = Inr (Some (Text (str ''i-material-icon-theme:'' @ hyphenate n')))
             \<and> cu CHR ''_'' \<notin> set (hyphenate n')
             \<and> n' \<noteq> [] \<and> hasDefinition (materialIcons data) n'
             \<and> (fileNames (materialIcons data) (lowerFileName lc f) = Some n'
                \<or> MaterialIcons.fileExtensions (materialIcons data) (longExtension lc f) = Some n'
                \<or> MaterialIcons.fileExtensions (materialIcons data) (shortExtension lc f) = Some n'))
         \<and> (fileNames (materialIcons data) (lowerFileName lc f) = None
              \<and> ext = longExtension lc f \<longrightarrow>
            fst (resolveIcon lc (Some f) language w)
              = Inr (Some (Text (str ''i-material-icon-theme:'' @ hyphenate n))))"
proof -
  let ?mi = "materialIcons data"
  let ?fe = "MaterialIcons.fileExtensions ?mi"
  let ?ps = "[(lowerFileName lc f, Some (fileNames ?mi)),
              (longExtension lc f, Some ?fe),
              (shortExtension lc f, Some ?fe)]"
  let ?qs = "[(shortExtension lc f, Some (LanguageMap.fileExtensions (languageMap data)))]"
  define p1 where "p1 = definedIcon ?mi (property (fileNames ?mi) (lowerFileName lc f))"
  define p2 where "p2 = definedIcon ?mi (property ?fe (longExtension lc f))"
  define p3 where "p3 = definedIcon ?mi (property ?fe (shortExtension lc f))"
  have hit: "definedIcon ?mi (property ?fe ext) = Some (Inr (iconClass n))"
    using n by (simp add: property_own definedIcon_Text)
  have 1: "p1 = None
      \<or> (\<exists>a. fileNames ?mi (lowerFileName lc f) = Some a \<and> a \<noteq> [] \<and> hasDefinition ?mi a
            \<and> p1 = Some (Inr (iconClass a)))"
    unfolding p1_def using name by (rule definedIcon_own)
  have "\<forall>k. property ?fe (longExtension lc f) \<noteq> Some (Inherited k)"
  proof (intro allI notI)
    fix k
    assume "property ?fe (longExtension lc f) = Some (Inherited k)"
    then have none: "?fe (longExtension lc f) = None"
      and mem: "longExtension lc f \<in> set objectPrototypeNames"
      by (simp_all add: property_Inherited)
    from mem have "longExtension lc f = shortExtension lc f"
      by (rule longExtension_inherited)
    with ext have "ext = longExtension lc f" by auto
    with n(1) none show False by simp
  qed
  then have 2: "p2 = None
      \<or> (\<exists>a. ?fe (longExtension lc f) = Some a \<and> a \<noteq> [] \<and> hasDefinition ?mi a
            \<and> p2 = Some (Inr (iconClass a)))"
    unfolding p2_def by (rule definedIcon_own)
  have 3: "ext = longExtension lc f \<longrightarrow> p2 = Some (Inr (iconClass n))"
    "ext = shortExtension lc f \<longrightarrow> p3 = Some (Inr (iconClass n))"
    using hit by (auto simp: p2_def p3_def)
  have g: "getIconClass ?mi ?ps
      = (case p1 of
           Some (Inl e) \<Rightarrow> Inl e
         | Some (Inr c) \<Rightarrow> Inr (Some c)
         | None \<Rightarrow>
             (case p2 of
                Some (Inl e) \<Rightarrow> Inl e
              | Some (Inr c) \<Rightarrow> Inr (Some c)
              | None \<Rightarrow>
                  (case p3 of
                     Some (Inl e) \<Rightarrow> Inl e
                   | Some (Inr c) \<Rightarrow> Inr (Some c)
                   | None \<Rightarrow> Inr None)))"
    by (simp add: p1_def p2_def p3_def split: option.splits sum.splits)
  have found: "\<exists>n'. getIconClass ?mi ?ps = Inr (Some (iconClass n'))
      \<and> n' \<noteq> [] \<and> hasDefinition ?mi n'
      \<and> (fileNames ?mi (lowerFileName lc f) = Some n'
         \<or> ?fe (longExtension lc f) = Some n' \<or> ?fe (shortExtension lc f) = Some n')"
  proof (cases p1)
    case (Some r)
    with 1 obtain a where "fileNames ?mi (lowerFileName lc f) = Some a" "a \<noteq> []"
        "hasDefinition ?mi a" "p1 = Some (Inr (iconClass a))"
      by auto
    then show ?thesis unfolding g by (intro exI [of _ a]) simp
  next
    case None
    show ?thesis
    proof (cases p2)
      case (Some r)
      with 2 obtain a where "?fe (longExtension lc f) = Some a" "a \<noteq> []"
          "hasDefinition ?mi a" "p2 = Some (Inr (iconClass a))"
        by auto
      then show ?thesis unfolding g using None by (intro exI [of _ a]) simp
    next
      case p2: None
      with 3(1) have "ext \<noteq> longExtension lc f" by auto
      with ext 3(2) have "ext = shortExtension lc f" "p3 = Some (Inr (iconClass n))"
        by auto
      then show ?thesis unfolding g using None p2 n by (intro exI [of _ n]) simp
    qed
  qed
  then obtain n' where h: "getIconClass ?mi ?ps = Inr (Some (iconClass n'))" "n' \<noteq> []"
      "hasDefinition ?mi n'"
      "fileNames ?mi (lowerFileName lc f) = Some n'
         \<or> ?fe (longExtension lc f) = Some n' \<or> ?fe (shortExtension lc f) = Some n'"
    by blast
  have "getIconClass ?mi (?ps @ ?qs) = Inr (Some (iconClass n'))"
    using h(1) by (simp only: getIconClass_append sum.case option.case)
  then have "fileNameIcon lc data f = Inr (Some (iconClass n'))"
    by (simp add: fileNameIcon_def Let_def)
  then have r: "resolveFromData lc data (Some f) language = Inr (Some (iconClass n'))"
    using f svelte by (simp add: resolveFromData_def)
  obtain w' where "getMaterialIconsData w = (Inr (Some data), w')"
    using data getMaterialIconsData_fst by blast
  then have res: "fst (resolveIcon lc (Some f) language w) = Inr (Some (Text (iconClass n')))"
    using custom r by (simp add: resolveIcon_data)
  have first: "fileNames ?mi (lowerFileName lc f) = None \<and> ext = longExtension lc f \<longrightarrow>
      fst (resolveIcon lc (Some f) language w) = Inr (Some (Text (iconClass n)))"
  proof
    assume a: "fileNames ?mi (lowerFileName lc f) = None \<and> ext = longExtension lc f"
    with 1 have "p1 = None" by auto
    moreover from a 3(1) have "p2 = Some (Inr (iconClass n))" by simp
    ultimately have "getIconClass ?mi ?ps = Inr (Some (iconClass n))"
      unfolding g by simp
    with h(1) res show "fst (resolveIcon lc (Some f) language w)
        = Inr (Some (Text (iconClass n)))"
      by simp
  qed
  have "\<exists>n'. fst (resolveIcon lc (Some f) language w)
               = Inr (Some (Text (str ''i-material-icon-theme:'' @ hyphenate n')))
             \<and> cu CHR ''_'' \<notin> set (hyphenate n')
             \<and> n' \<noteq> [] \<and> hasDefinition (materialIcons data) n'
             \<and> (fileNames (materialIcons data) (lowerFileName lc f) = Some n'
                \<or> MaterialIcons.fileExtensions (materialIcons data) (longExtension lc f) = Some n'
                \<or> MaterialIcons.fileExtensions (materialIcons data) (shortExtension lc f) = Some n')"
    using res h(2,3,4) hyphenate_no_underscore [of n']
    by (intro exI [of _ n']) (simp add: iconClass_def)
  then show ?thesis using first by (simp add: iconClass_def)
qed

text \<open>\<^verbatim>\<open>App.tsx\<close>, whose extension has the icon name \<^verbatim>\<open>react_ts\<close> in the sample data.\<close>

theorem known_extension_icon_witness:
  "fst (resolveIcon asciiLower (Some (str ''App.tsx'')) None loaded)
     = Inr (Some (Text (str ''i-material-icon-theme:react-ts'')))"
proof -
  let ?f = "str ''App.tsx''"
  have data: "fst (getMaterialIconsData loaded) = Inr (Some sample_data)"
    by (simp add: store_eval sample_eval)
  have custom: "customFileIcon asciiLower (getCustomFileIcons loaded) (Some ?f) = None"
    by (simp add: resolver_eval sample_eval)
  have f: "?f \<noteq> []" by (simp add: str_def)
  have svelte: "svelteIcon (Some ?f) = None"
    by (simp add: string_eval resolver_eval)
  have name: "\<forall>k. property (fileNames (materialIcons sample_data))
      (lowerFileName asciiLower ?f) \<noteq> Some (Inherited k)"
    by (simp add: string_eval resolver_eval sample_eval)
  have ext: "str ''tsx'' = longExtension asciiLower ?f \<or> str ''tsx'' = shortExtension asciiLower ?f"
    by (simp add: string_eval resolver_eval)
  have long: "str ''tsx'' = longExtension asciiLower ?f"
    by (simp add: string_eval resolver_eval)
  have n: "MaterialIcons.fileExtensions (materialIcons sample_data) (str ''tsx'')
        = Some (str ''react_ts'')"
      "str ''react_ts'' \<noteq> []" "hasDefinition (materialIcons sample_data) (str ''react_ts'')"
    by (simp_all add: string_eval resolver_eval sample_eval)
  have none: "fileNames (materialIcons sample_data) (lowerFileName asciiLower ?f) = None"
    by (simp add: sample_eval)
  have "fst (resolveIcon asciiLower (Some ?f) None loaded)
      = Inr (Some (Text (str ''i-material-icon-theme:'' @ hyphenate (str ''react_ts''))))"
    using known_extension_icon [OF data custom f svelte name ext n, of None] none long by simp
  then show ?thesis by (simp add: string_eval)
qed

text \<open>
  C3 as it is written fails for the special suffixes: \<^verbatim>\<open>js\<close> is in the File-Extension
  Map of the sample data, and \<^verbatim>\<open>app.svelte.js\<close> gets a class of another collection.
\<close>

theorem known_extension_svelte_counterexample:
  "fst (getMaterialIconsData loaded) = Inr (Some sample_data)
   \<and> MaterialIcons.fileExtensions (materialIcons sample_data)
       (shortExtension asciiLower (str ''app.svelte.js'')) = Some (str ''javascript'')
   \<and> hasDefinition (materialIcons sample_data) (str ''javascript'')
   \<and> fst (resolveIcon asciiLower (Some (str ''app.svelte.js'')) None loaded)
       = Inr (Some (Text (str ''i-starlight-plugin-icons:svelte-js'')))"
  by (simp add: string_eval resolver_eval store_eval sample_eval)

section \<open>Folder icons\<close>

text \<open>
  C4, as the code has it, for the state the flag asks for. A value that is not empty
  under the key \<^verbatim>\<open>folder:<name>\<close> or \<^verbatim>\<open>folder-open:<name>\<close>, by the flag, is returned
  first. Without such an override for that state and without icon data the result is
  \<^verbatim>\<open>undefined\<close>. Without such an override for that state and with the data, the expanded
  or collapsed Folder-Name Map is probed by the flag: an entry with an icon name that is
  not empty and has a truthy definition gives \<^verbatim>\<open>i-material-icon-theme:<name>\<close> with
  hyphens for underscores; a lookup that finds nothing, and an entry whose icon name is
  empty or has no truthy definition, give the default open or closed class. With the data,
  no override for either state and the open lookup returning, the open and the closed
  result differ unless both maps have an entry and the two entries are equal once
  underscores are hyphens.
\<close>

theorem folder_icon_resolution:
  "(getCustomFileIcons w = Some ci \<and> ci (folderKey lc d isOpen) = Some v \<and> v \<noteq> [] \<longrightarrow>
      resolveFolderIcon lc d isOpen w = (Inr (Some (Text v)), w))
   \<and> (customFolderIcon lc (getCustomFileIcons w) d isOpen = None
        \<and> fst (getMaterialIconsData w) = Inr None \<longrightarrow>
      fst (resolveFolderIcon lc d isOpen w) = Inr None)
   \<and> (customFolderIcon lc (getCustomFileIcons w) d isOpen = None
        \<and> fst (getMaterialIconsData w) = Inr (Some data) \<longrightarrow>
      ((if isOpen then folderNamesExpanded (materialIcons data)
        else folderNames (materialIcons data)) (lowerFolderName lc d) = Some n
         \<and> n \<noteq> [] \<and> hasDefinition (materialIcons data) n \<longrightarrow>
       fst (resolveFolderIcon lc d isOpen w)
         = Inr (Some (Text (str ''i-material-icon-theme:'' @ hyphenate n))))
      \<and> (property (if isOpen then folderNamesExpanded (materialIcons data)
                   else folderNames (materialIcons data)) (lowerFolderName lc d) = None \<longrightarrow>
       fst (resolveFolderIcon lc d isOpen w)
         = Inr (Some (Text (if isOpen then str ''i-starlight-plugin-icons:folder-open''
                            else str ''i-starlight-plugin-icons:folder''))))
      \<and> ((if isOpen then folderNamesExpanded (materialIcons data)
          else folderNames (materialIcons data)) (lowerFolderName lc d) = Some n
         \<and> (n = [] \<or> \<not> hasDefinition (materialIcons data) n) \<longrightarrow>
       fst (resolveFolderIcon lc d isOpen w)
         = Inr (Some (Text (if isOpen then str ''i-starlight-plugin-icons:folder-open''
                            else str ''i-starlight-plugin-icons:folder'')))))
   \<and> (fst (getMaterialIconsData w) = Inr (Some data)
        \<and> customFolderIcon lc (getCustomFileIcons w) d True = None
        \<and> customFolderIcon lc (getCustomFileIcons w) d False = None
        \<and> (\<exists>c. fst (resolveFolderIcon lc d True w) = Inr c)
        \<and> \<not> (\<exists>a b. folderNamesExpanded (materialIcons data) (lowerFolderName lc d) = Some a
                 \<and> folderNames (materialIcons data) (lowerFolderName lc d) = Some b
                 \<and> hyphenate a = hyphenate b) \<longrightarrow>
      fst (resolveFolderIcon lc d True w) \<noteq> fst (resolveFolderIcon lc d False w))"
proof (intro conjI)
  show "getCustomFileIcons w = Some ci \<and> ci (folderKey lc d isOpen) = Some v \<and> v \<noteq> [] \<longrightarrow>
      resolveFolderIcon lc d isOpen w = (Inr (Some (Text v)), w)"
    by (simp add: resolveFolderIcon_custom customFolderIcon_own)
next
  show "customFolderIcon lc (getCustomFileIcons w) d isOpen = None
        \<and> fst (getMaterialIconsData w) = Inr None \<longrightarrow>
      fst (resolveFolderIcon lc d isOpen w) = Inr None"
    by (simp add: resolveFolderIcon_no_data)
next
  let ?table = "if isOpen then folderNamesExpanded (materialIcons data)
                else folderNames (materialIcons data)"
  let ?default = "if isOpen then str ''i-starlight-plugin-icons:folder-open''
                  else str ''i-starlight-plugin-icons:folder''"
  show "customFolderIcon lc (getCustomFileIcons w) d isOpen = None
        \<and> fst (getMaterialIconsData w) = Inr (Some data) \<longrightarrow>
      (?table (lowerFolderName lc d) = Some n
         \<and> n \<noteq> [] \<and> hasDefinition (materialIcons data) n \<longrightarrow>
       fst (resolveFolderIcon lc d isOpen w)
         = Inr (Some (Text (str ''i-material-icon-theme:'' @ hyphenate n))))
      \<and> (property ?table (lowerFolderName lc d) = None \<longrightarrow>
       fst (resolveFolderIcon lc d isOpen w) = Inr (Some (Text ?default)))
      \<and> (?table (lowerFolderName lc d) = Some n
         \<and> (n = [] \<or> \<not> hasDefinition (materialIcons data) n) \<longrightarrow>
       fst (resolveFolderIcon lc d isOpen w) = Inr (Some (Text ?default)))"
  proof
    assume a: "customFolderIcon lc (getCustomFileIcons w) d isOpen = None
        \<and> fst (getMaterialIconsData w) = Inr (Some data)"
    have r: "fst (resolveFolderIcon lc d isOpen w)
        = (case folderFromData lc data d isOpen of
             Inl e \<Rightarrow> Inl e
           | Inr c \<Rightarrow> Inr (Some (Text c)))"
      using a by (simp add: resolveFolderIcon_data)
    have own: "?table (lowerFolderName lc d) = Some n
        \<Longrightarrow> property ?table (lowerFolderName lc d) = Some (Text n)"
      by (rule property_own)
    show "(?table (lowerFolderName lc d) = Some n
         \<and> n \<noteq> [] \<and> hasDefinition (materialIcons data) n \<longrightarrow>
       fst (resolveFolderIcon lc d isOpen w)
         = Inr (Some (Text (str ''i-material-icon-theme:'' @ hyphenate n))))
      \<and> (property ?table (lowerFolderName lc d) = None \<longrightarrow>
       fst (resolveFolderIcon lc d isOpen w) = Inr (Some (Text ?default)))
      \<and> (?table (lowerFolderName lc d) = Some n
         \<and> (n = [] \<or> \<not> hasDefinition (materialIcons data) n) \<longrightarrow>
       fst (resolveFolderIcon lc d isOpen w) = Inr (Some (Text ?default)))"
      unfolding r folderFromData_cases using own
      by (cases isOpen) (auto simp: iconClass_def)
  qed
next
  show "fst (getMaterialIconsData w) = Inr (Some data)
        \<and> customFolderIcon lc (getCustomFileIcons w) d True = None
        \<and> customFolderIcon lc (getCustomFileIcons w) d False = None
        \<and> (\<exists>c. fst (resolveFolderIcon lc d True w) = Inr c)
        \<and> \<not> (\<exists>a b. folderNamesExpanded (materialIcons data) (lowerFolderName lc d) = Some a
                 \<and> folderNames (materialIcons data) (lowerFolderName lc d) = Some b
                 \<and> hyphenate a = hyphenate b) \<longrightarrow>
      fst (resolveFolderIcon lc d True w) \<noteq> fst (resolveFolderIcon lc d False w)"
  proof
    assume a: "fst (getMaterialIconsData w) = Inr (Some data)
        \<and> customFolderIcon lc (getCustomFileIcons w) d True = None
        \<and> customFolderIcon lc (getCustomFileIcons w) d False = None
        \<and> (\<exists>c. fst (resolveFolderIcon lc d True w) = Inr c)
        \<and> \<not> (\<exists>a b. folderNamesExpanded (materialIcons data) (lowerFolderName lc d) = Some a
                 \<and> folderNames (materialIcons data) (lowerFolderName lc d) = Some b
                 \<and> hyphenate a = hyphenate b)"
    have o: "fst (resolveFolderIcon lc d True w)
        = (case folderFromData lc data d True of
             Inl e \<Rightarrow> Inl e
           | Inr c \<Rightarrow> Inr (Some (Text c)))"
      using a by (simp add: resolveFolderIcon_data)
    have c: "fst (resolveFolderIcon lc d False w)
        = (case folderFromData lc data d False of
             Inl e \<Rightarrow> Inl e
           | Inr c \<Rightarrow> Inr (Some (Text c)))"
      using a by (simp add: resolveFolderIcon_data)
    have dd: "str ''i-starlight-plugin-icons:folder-open'' \<noteq> str ''i-starlight-plugin-icons:folder''"
      by (simp add: str_def)
    from a obtain x where x: "folderFromData lc data d True = Inr x"
      unfolding o by (cases "folderFromData lc data d True") auto
    show "fst (resolveFolderIcon lc d True w) \<noteq> fst (resolveFolderIcon lc d False w)"
    proof (cases "folderFromData lc data d False")
      case (Inl e)
      with x show ?thesis unfolding o c by simp
    next
      case (Inr y)
      have "x \<noteq> y"
        using x Inr a dd iconClass_not_folder_default
        unfolding folderFromData_cases
        by (auto simp: iconClass_eq property_Text split: option.splits jsvalue.splits if_splits
            dest: sym)
      with x Inr show ?thesis unfolding o c by simp
    qed
  qed
qed

text \<open>
  With the sample data in memory: the folder \<^verbatim>\<open>SRC/\<close> open and closed, the folder
  \<^verbatim>\<open>docs\<close> open and closed, and the folder \<^verbatim>\<open>src\<close> under the sample overrides, which
  hold a value for the closed state alone: the closed folder gets the override and the open
  one the class of the table. Without data and overrides: the closed folder \<^verbatim>\<open>src\<close>.
\<close>

theorem folder_icon_resolution_witness:
  "fst (resolveFolderIcon asciiLower (str ''SRC/'') True loaded)
     = Inr (Some (Text (str ''i-material-icon-theme:folder-src-open'')))
   \<and> fst (resolveFolderIcon asciiLower (str ''SRC/'') False loaded)
     = Inr (Some (Text (str ''i-material-icon-theme:folder-src'')))
   \<and> fst (resolveFolderIcon asciiLower (str ''docs'') True loaded)
     = Inr (Some (Text (str ''i-starlight-plugin-icons:folder-open'')))
   \<and> fst (resolveFolderIcon asciiLower (str ''docs'') False loaded)
     = Inr (Some (Text (str ''i-starlight-plugin-icons:folder'')))
   \<and> fst (resolveFolderIcon asciiLower (str ''src'') False
        (loaded\<lparr>customFileIconsMap := Some sample_overrides\<rparr>))
     = Inr (Some (Text (str ''i-custom:src'')))
   \<and> fst (resolveFolderIcon asciiLower (str ''src'') True
        (loaded\<lparr>customFileIconsMap := Some sample_overrides\<rparr>))
     = Inr (Some (Text (str ''i-material-icon-theme:folder-src-open'')))
   \<and> fst (resolveFolderIcon asciiLower (str ''src'') False offline) = Inr None
   \<and> fst (resolveFolderIcon asciiLower (str ''SRC/'') True loaded)
     \<noteq> fst (resolveFolderIcon asciiLower (str ''SRC/'') False loaded)"
proof -
  let ?ov = "loaded\<lparr>customFileIconsMap := Some sample_overrides\<rparr>"
  have off: "customFolderIcon asciiLower (getCustomFileIcons offline) (str ''src'') False = None
      \<and> fst (getMaterialIconsData offline) = Inr None"
    by (simp add: resolver_eval store_eval sample_eval)
  have 7: "fst (resolveFolderIcon asciiLower (str ''src'') False offline) = Inr None"
    using folder_icon_resolution [where w = offline and lc = asciiLower and d = "str ''src''"
        and isOpen = False] off
    by blast
  have data: "fst (getMaterialIconsData loaded) = Inr (Some sample_data)"
      "fst (getMaterialIconsData ?ov) = Inr (Some sample_data)"
    by (simp_all add: store_eval sample_eval)
  have none: "customFolderIcon asciiLower (getCustomFileIcons loaded) d b = None" for d b
    by (simp add: customFolderIcon_def getCustomFileIcons_def sample_eval)
  have src: "lowerFolderName asciiLower (str ''SRC/'') = str ''src''"
      "lowerFolderName asciiLower (str ''src'') = str ''src''"
    and docs: "lowerFolderName asciiLower (str ''docs'') = str ''docs''"
    by (simp_all add: string_eval resolver_eval)
  have e: "folderNamesExpanded (materialIcons sample_data) (str ''src'')
        = Some (str ''folder_src_open'')"
      "hasDefinition (materialIcons sample_data) (str ''folder_src_open'')"
      "folderNames (materialIcons sample_data) (str ''src'') = Some (str ''folder_src'')"
      "hasDefinition (materialIcons sample_data) (str ''folder_src'')"
      "property (folderNamesExpanded (materialIcons sample_data)) (str ''docs'') = None"
      "property (folderNames (materialIcons sample_data)) (str ''docs'') = None"
    by (simp_all add: string_eval resolver_eval sample_eval)
  have ne: "str ''folder_src_open'' \<noteq> []" "str ''folder_src'' \<noteq> []"
    by (simp_all add: str_def)
  have h: "hyphenate (str ''folder_src_open'') = str ''folder-src-open''"
      "hyphenate (str ''folder_src'') = str ''folder-src''"
    by (simp_all add: string_eval)
  have ov: "getCustomFileIcons ?ov = Some sample_overrides"
      "sample_overrides (folderKey asciiLower (str ''src'') False) = Some (str ''i-custom:src'')"
      "str ''i-custom:src'' \<noteq> []"
      "customFolderIcon asciiLower (getCustomFileIcons ?ov) (str ''src'') True = None"
    by (simp_all add: string_eval resolver_eval sample_eval)
  have 1: "fst (resolveFolderIcon asciiLower (str ''SRC/'') True loaded)
      = Inr (Some (Text (str ''i-material-icon-theme:'' @ str ''folder-src-open'')))"
    using folder_icon_resolution [where w = loaded and lc = asciiLower and d = "str ''SRC/''"
        and data = sample_data and n = "str ''folder_src_open''" and isOpen = True]
      data none src e ne h by simp
  have 2: "fst (resolveFolderIcon asciiLower (str ''SRC/'') False loaded)
      = Inr (Some (Text (str ''i-material-icon-theme:'' @ str ''folder-src'')))"
    using folder_icon_resolution [where w = loaded and lc = asciiLower and d = "str ''SRC/''"
        and data = sample_data and n = "str ''folder_src''" and isOpen = False]
      data none src e ne h by simp
  have 3: "fst (resolveFolderIcon asciiLower (str ''docs'') True loaded)
        = Inr (Some (Text (str ''i-starlight-plugin-icons:folder-open'')))"
    using folder_icon_resolution [where w = loaded and lc = asciiLower and d = "str ''docs''"
        and data = sample_data and isOpen = True]
      data none docs e by simp
  have 4: "fst (resolveFolderIcon asciiLower (str ''docs'') False loaded)
        = Inr (Some (Text (str ''i-starlight-plugin-icons:folder'')))"
    using folder_icon_resolution [where w = loaded and lc = asciiLower and d = "str ''docs''"
        and data = sample_data and isOpen = False]
      data none docs e by simp
  have 5: "fst (resolveFolderIcon asciiLower (str ''src'') False ?ov)
      = Inr (Some (Text (str ''i-custom:src'')))"
    using folder_icon_resolution [where w = ?ov and lc = asciiLower and d = "str ''src''"
        and isOpen = False and ci = sample_overrides and v = "str ''i-custom:src''"] ov(1-3)
    by simp
  have 6: "fst (resolveFolderIcon asciiLower (str ''src'') True ?ov)
      = Inr (Some (Text (str ''i-material-icon-theme:'' @ str ''folder-src-open'')))"
    using folder_icon_resolution [where w = ?ov and lc = asciiLower and d = "str ''src''"
        and data = sample_data and n = "str ''folder_src_open''" and isOpen = True]
      data(2) ov(4) src e ne h by simp
  have differ: "hyphenate (str ''folder_src_open'') \<noteq> hyphenate (str ''folder_src'')"
    unfolding h by (simp add: str_def)
  have 8: "fst (resolveFolderIcon asciiLower (str ''SRC/'') True loaded)
      \<noteq> fst (resolveFolderIcon asciiLower (str ''SRC/'') False loaded)"
    using folder_icon_resolution [where w = loaded and lc = asciiLower and d = "str ''SRC/''"
        and data = sample_data]
      data(1) none src e(1,3) differ 1 by simp
  show ?thesis using 1 2 3 4 5 6 7 8 by (simp add: str_def)
qed

text \<open>
  C4 as it is written fails when the icon data cannot be had: no override, no table hit,
  and the result is \<^verbatim>\<open>undefined\<close>, not the default class of an open folder.
\<close>

theorem folder_without_data_counterexample:
  "customFolderIcon asciiLower (getCustomFileIcons offline) (str ''src'') True = None
   \<and> resolveFolderIcon asciiLower (str ''src'') True offline = (Inr None, offline)"
  by (simp add: string_eval resolver_eval store_eval sample_eval)
section \<open>The icon data store never throws\<close>

text \<open>
  C7. \<^verbatim>\<open>getMaterialIconsData\<close> always returns. With nothing in memory it returns
  \<^verbatim>\<open>undefined\<close> when the fetch of the version fails, and when the version arrives, the
  cache is not usable (its version differs, or one of its two files cannot be read and
  parsed) and the fetch or parse of either remote document fails. The data it returns is
  the data in memory, or both tables as the cache files hold them, or both tables as the
  remote source serves them.
\<close>

theorem data_store_all_or_nothing:
  "(\<exists>r. fst (getMaterialIconsData w) = Inr r)
   \<and> (cachedData w = None \<and> (\<exists>e. remoteVersion w = Inl e) \<longrightarrow>
        fst (getMaterialIconsData w) = Inr None)
   \<and> (cachedData w = None
        \<and> (\<exists>v. remoteVersion w = Inr v
              \<and> (Some (trim v) \<noteq> getCachedVersion w \<or> getCachedData w = None))
        \<and> ((\<exists>e. remoteLanguageMap w = Inl e) \<or> (\<exists>e. remoteMaterialIcons w = Inl e)) \<longrightarrow>
        fst (getMaterialIconsData w) = Inr None)
   \<and> (\<forall>d. fst (getMaterialIconsData w) = Inr (Some d) \<longrightarrow>
        cachedData w = Some d
        \<or> (languageMapFile w = Some (languageMap d)
            \<and> materialIconsFile w = Some (materialIcons d))
        \<or> (remoteLanguageMap w = Inr (languageMap d)
            \<and> remoteMaterialIcons w = Inr (materialIcons d)))"
proof (intro conjI impI allI)
  show "\<exists>r. fst (getMaterialIconsData w) = Inr r"
    using getMaterialIconsData_no_throw [of w] by auto
next
  assume "cachedData w = None \<and> (\<exists>e. remoteVersion w = Inl e)"
  then show "fst (getMaterialIconsData w) = Inr None"
    by (auto simp: getMaterialIconsData_def tryGet_remoteVersion_fails)
next
  assume a: "cachedData w = None
        \<and> (\<exists>v. remoteVersion w = Inr v
              \<and> (Some (trim v) \<noteq> getCachedVersion w \<or> getCachedData w = None))
        \<and> ((\<exists>e. remoteLanguageMap w = Inl e) \<or> (\<exists>e. remoteMaterialIcons w = Inl e))"
  then obtain e where "tryGetMaterialIconsData w = (Inl e, w)"
    using tryGet_fetch_fails by blast
  with a show "fst (getMaterialIconsData w) = Inr None"
    by (simp add: getMaterialIconsData_def)
next
  fix d
  assume r: "fst (getMaterialIconsData w) = Inr (Some d)"
  show "cachedData w = Some d
        \<or> (languageMapFile w = Some (languageMap d)
            \<and> materialIconsFile w = Some (materialIcons d))
        \<or> (remoteLanguageMap w = Inr (languageMap d)
            \<and> remoteMaterialIcons w = Inr (materialIcons d))"
  proof (cases "cachedData w")
    case (Some d')
    with r show ?thesis by (simp add: getMaterialIconsData_def)
  next
    case None
    obtain x w' where t: "tryGetMaterialIconsData w = (x, w')"
      by (cases "tryGetMaterialIconsData w")
    with None r have "x = Inr d"
      by (cases x) (simp_all add: getMaterialIconsData_def)
    with t tryGet_sources show ?thesis by blast
  qed
qed

text \<open>
  No network at all; a remote source whose second document does not parse, with nothing
  cached; and a remote source that answers, with nothing cached: both tables are the
  remote ones.
\<close>

theorem data_store_all_or_nothing_witness:
  "fst (getMaterialIconsData offline) = Inr None
   \<and> fst (getMaterialIconsData broken_remote) = Inr None
   \<and> fst (getMaterialIconsData fresh) = Inr (Some sample_data)
   \<and> remoteLanguageMap fresh = Inr (languageMap sample_data)
   \<and> remoteMaterialIcons fresh = Inr (materialIcons sample_data)"
proof -
  have h1: "cachedData offline = None \<and> (\<exists>e. remoteVersion offline = Inl e)"
    by (simp add: sample_eval)
  have h2: "cachedData broken_remote = None
        \<and> (\<exists>v. remoteVersion broken_remote = Inr v
              \<and> (Some (trim v) \<noteq> getCachedVersion broken_remote
                 \<or> getCachedData broken_remote = None))
        \<and> ((\<exists>e. remoteLanguageMap broken_remote = Inl e)
           \<or> (\<exists>e. remoteMaterialIcons broken_remote = Inl e))"
    by (simp add: sample_eval broken_remote_def store_eval)
  have 1: "fst (getMaterialIconsData offline) = Inr None"
    using data_store_all_or_nothing [of offline] h1 by blast
  have 2: "fst (getMaterialIconsData broken_remote) = Inr None"
    using data_store_all_or_nothing [of broken_remote] h2 by blast
  have 3: "fst (getMaterialIconsData fresh) = Inr (Some sample_data)"
    by (simp add: sample_eval store_eval string_eval)
  have n: "cachedData fresh \<noteq> Some sample_data" "languageMapFile fresh = None"
    by (simp_all add: sample_eval)
  have 4: "remoteLanguageMap fresh = Inr (languageMap sample_data)
      \<and> remoteMaterialIcons fresh = Inr (materialIcons sample_data)"
    using data_store_all_or_nothing [of fresh] 3 n by auto
  show ?thesis using 1 2 3 4 by (intro conjI) simp_all
qed
section \<open>Shell code blocks\<close>

text \<open>
  What holds of the shell marker: for the language tag \<^verbatim>\<open>sh\<close> and any title,
  \<^verbatim>\<open>getIconDetails\<close> returns \<^verbatim>\<open>null\<close> and leaves the world as it was, and the loop
  over the matches of a file gives what it gives without the matches whose group
  \<^verbatim>\<open>lang\<close> is \<^verbatim>\<open>sh\<close>.
\<close>

lemma forEach_skip_sh:
  "forEach (codeBlockIcon lc) matches usedIcons w
     = forEach (codeBlockIcon lc) (filter (\<lambda>m. fst m \<noteq> Some (str ''sh'')) matches)
         usedIcons w"
proof (induction matches arbitrary: usedIcons w)
  case Nil
  then show ?case by simp
next
  case (Cons m ms)
  show ?case
  proof (cases "fst m = Some (str ''sh'')")
    case True
    then obtain t where "m = (Some (str ''sh''), t)" by (cases m) simp
    then show ?thesis using Cons.IH by (simp add: await_def codeBlockIcon_sh)
  next
    case False
    then show ?thesis using Cons.IH
      by (simp add: await_def split: prod.splits sum.splits)
  qed
qed

lemma shell_after_fence_matches:
  "codeBlockMatches shell_after_fence
     = [(Some (str ''js''), None), (None, Some (str ''install.md'')), (None, None)]"
  by (simp add: shell_after_fence_def regex_eval string_eval)

lemma shell_after_gap_matches:
  "codeBlockMatches shell_after_gap
     = [(Some (str ''js''), None), (None, None), (Some (str ''sh''), Some (str ''install.md'')),
        (None, None)]"
  by (simp add: shell_after_gap_def regex_eval string_eval)

lemma shell_files_no_tree:
  "fileTreeMatches shell_after_fence = []" "fileTreeMatches shell_after_gap = []"
  by (simp_all add: shell_after_fence_def shell_after_gap_def regex_eval string_eval)

lemma sample_lookups:
  "resolveIcon asciiLower None (Some (str ''js'')) loaded
     = (Inr (Some (Text (str ''i-material-icon-theme:document''))), loaded)"
  "resolveIcon asciiLower (Some (str ''install.md'')) None loaded
     = (Inr (Some (Text (str ''i-material-icon-theme:markdown''))), loaded)"
  "resolveIcon asciiLower None None loaded = (Inr None, loaded)"
  by (simp_all add: string_eval resolver_eval store_eval sample_eval)

text \<open>
  C8 fails in the code. The expression of line 7 lets the white space before the
  attributes be a line feed, so the fence that closes a block takes the title from the
  line below it. In \<open>shell_after_fence\<close> the block of language \<^verbatim>\<open>sh\<close> stands on the line
  below the end of another block: the match at that end has no language and the title
  \<^verbatim>\<open>install.md\<close>, the fence of the shell block is passed over, the title is looked up
  and its class is in the set of used icons. With an empty line between the two blocks
  (\<open>shell_after_gap\<close>) the match at the shell fence has the language \<^verbatim>\<open>sh\<close> and
  nothing is looked up for it.
\<close>

theorem shell_title_after_fence_is_looked_up:
  "codeBlockMatches shell_after_fence
     = [(Some (str ''js''), None), (None, Some (str ''install.md'')), (None, None)]
   \<and> scanFile asciiLower (Inr shell_after_fence) [] loaded
     = (Inr [Text (str ''i-material-icon-theme:document''),
             Text (str ''i-material-icon-theme:markdown'')], loaded)
   \<and> codeBlockMatches shell_after_gap
     = [(Some (str ''js''), None), (None, None), (Some (str ''sh''), Some (str ''install.md'')),
        (None, None)]
   \<and> scanFile asciiLower (Inr shell_after_gap) [] loaded
     = (Inr [Text (str ''i-material-icon-theme:document'')], loaded)"
proof -
  have n: "str ''js'' \<noteq> str ''sh''"
      "str ''i-material-icon-theme:document'' \<noteq> []"
      "str ''i-material-icon-theme:markdown'' \<noteq> []"
      "str ''i-material-icon-theme:markdown'' \<noteq> str ''i-material-icon-theme:document''"
    by (simp_all add: str_def cu_def)
  have 1: "scanFile asciiLower (Inr shell_after_fence) [] loaded
      = (Inr [Text (str ''i-material-icon-theme:document''),
              Text (str ''i-material-icon-theme:markdown'')], loaded)"
    by (simp add: scanFile_def shell_after_fence_matches shell_files_no_tree codeBlockIcon_def
        getIconDetails_def n sample_lookups await_def return_def addIfTruthy_def add_def)
  have 2: "scanFile asciiLower (Inr shell_after_gap) [] loaded
      = (Inr [Text (str ''i-material-icon-theme:document'')], loaded)"
    by (simp add: scanFile_def shell_after_gap_matches shell_files_no_tree codeBlockIcon_def
        getIconDetails_def n sample_lookups await_def return_def addIfTruthy_def add_def)
  show ?thesis
    using shell_after_fence_matches shell_after_gap_matches 1 2 by (intro conjI)
qed
section \<open>Writing the safelist\<close>

lemma sortIcons_Nil: "sortIcons usedIcons = [] \<longleftrightarrow> usedIcons = []"
proof -
  have "length (sortIcons usedIcons) = length usedIcons"
    by (simp add: sortIcons_def)
  then show ?thesis by (metis length_0_conv)
qed

lemma saveSafelist_cases:
  "(safelistFile w = Some (stringify (sortIcons usedIcons)) \<longrightarrow>
      saveSafelist usedIcons w = (Inr False, w))
   \<and> (safelistFile w = None \<and> usedIcons = [] \<longrightarrow> saveSafelist usedIcons w = (Inr False, w))
   \<and> (safelistFile w \<noteq> Some (stringify (sortIcons usedIcons))
        \<and> \<not> (safelistFile w = None \<and> usedIcons = [])
        \<and> can_mkdir w \<and> can_write w SafelistJson \<longrightarrow>
      saveSafelist usedIcons w
        = (Inr True, w\<lparr>safelistFile := Some (stringify (sortIcons usedIcons))\<rparr>))
   \<and> (safelistFile w \<noteq> Some (stringify (sortIcons usedIcons))
        \<and> \<not> (safelistFile w = None \<and> usedIcons = [])
        \<and> \<not> (can_mkdir w \<and> can_write w SafelistJson) \<longrightarrow>
      saveSafelist usedIcons w = (Inl WriteFailed, w))"
  by (auto simp: saveSafelist_def writeSafelist_def Let_def stringify_fixed sortIcons_Nil
      split: option.splits if_splits)

lemma generateSafelist_saves:
  assumes "forEach (scanFile lc) files [] u = (Inr scanned, us)"
  shows "distinct (addCustomIcons customFileIcons (addConfigIcons configs scanned))
       \<and> generateSafelist lc files configs customFileIcons u
           = saveSafelist (addCustomIcons customFileIcons (addConfigIcons configs scanned)) us"
  using assms distinct_scan [OF assms]
  by (simp add: generateSafelist_def await_def distinct_addCustomIcons distinct_addConfigIcons)

text \<open>
  C5, as the code has it. The end of \<^verbatim>\<open>generateSafelist\<close>, on the set of used icons:
  if the file holds the serialised sorted set, the result is \<^verbatim>\<open>false\<close> and nothing is
  written; if the file cannot be read and the set is empty, the result is \<^verbatim>\<open>false\<close>
  and no file is made; in every other case, when the directory can be made and the file
  written, the file becomes the serialised sorted set and the result is \<^verbatim>\<open>true\<close>, and
  when not, the exception leaves the function and the world stays as it was. The sorted
  list of a set without duplicates is sorted, has no duplicates and has the same elements.
  \<^verbatim>\<open>generateSafelist\<close> applies that end to a set without duplicates: what the scan of
  the content files found, then the classes of the configuration files and the values of
  the overrides. When a run returns and the three files of the icon cache can all be
  written or none can, a later run on the same content files, configuration files and
  overrides, in a world with the same view (icon data and overrides) and the safelist file
  as the first run left it, returns \<^verbatim>\<open>false\<close> and leaves the file as it is.
\<close>

theorem safelist_written_when_changed:
  "(safelistFile w = Some (stringify (sortIcons usedIcons)) \<longrightarrow>
      saveSafelist usedIcons w = (Inr False, w))
   \<and> (safelistFile w = None \<and> usedIcons = [] \<longrightarrow> saveSafelist usedIcons w = (Inr False, w))
   \<and> (safelistFile w \<noteq> Some (stringify (sortIcons usedIcons))
        \<and> \<not> (safelistFile w = None \<and> usedIcons = [])
        \<and> can_mkdir w \<and> can_write w SafelistJson \<longrightarrow>
      saveSafelist usedIcons w
        = (Inr True, w\<lparr>safelistFile := Some (stringify (sortIcons usedIcons))\<rparr>))
   \<and> (safelistFile w \<noteq> Some (stringify (sortIcons usedIcons))
        \<and> \<not> (safelistFile w = None \<and> usedIcons = [])
        \<and> \<not> (can_mkdir w \<and> can_write w SafelistJson) \<longrightarrow>
      saveSafelist usedIcons w = (Inl WriteFailed, w))
   \<and> (distinct usedIcons \<longrightarrow>
        sorted (map toString (sortIcons usedIcons)) \<and> distinct (sortIcons usedIcons)
        \<and> set (sortIcons usedIcons) = set usedIcons)
   \<and> (forEach (scanFile lc) files [] u = (Inr scanned, us) \<longrightarrow>
        distinct (addCustomIcons customFileIcons (addConfigIcons configs scanned))
        \<and> generateSafelist lc files configs customFileIcons u
            = saveSafelist (addCustomIcons customFileIcons (addConfigIcons configs scanned)) us)
   \<and> (cacheWritesAgree u
        \<and> generateSafelist lc files configs customFileIcons u = (Inr changed, u')
        \<and> cacheWritesAgree v \<and> view v = view u' \<and> safelistFile v = safelistFile u' \<longrightarrow>
        (\<exists>v'. generateSafelist lc files configs customFileIcons v = (Inr False, v')
           \<and> safelistFile v' = safelistFile u'))"
proof -
  have tail: "distinct usedIcons \<longrightarrow>
        sorted (map toString (sortIcons usedIcons)) \<and> distinct (sortIcons usedIcons)
        \<and> set (sortIcons usedIcons) = set usedIcons"
    by (simp add: sortIcons_def)
  have scan: "forEach (scanFile lc) files [] u = (Inr scanned, us) \<longrightarrow>
        distinct (addCustomIcons customFileIcons (addConfigIcons configs scanned))
        \<and> generateSafelist lc files configs customFileIcons u
            = saveSafelist (addCustomIcons customFileIcons (addConfigIcons configs scanned)) us"
    using generateSafelist_saves by blast
  have twice: "cacheWritesAgree u
        \<and> generateSafelist lc files configs customFileIcons u = (Inr changed, u')
        \<and> cacheWritesAgree v \<and> view v = view u' \<and> safelistFile v = safelistFile u' \<longrightarrow>
        (\<exists>v'. generateSafelist lc files configs customFileIcons v = (Inr False, v')
           \<and> safelistFile v' = safelistFile u')"
    using generateSafelist_twice by blast
  show ?thesis
    using saveSafelist_cases [of w usedIcons] tail scan twice by (intro conjI) blast+
qed

text \<open>
  Two classes, not in order, with no safelist on disk: the end writes them sorted, and
  on the file it wrote it finds nothing to do; an empty set writes nothing. The whole
  generation on the sample file, a configuration file that names one class and one
  override, with the network there and nothing cached: it writes the three classes, and a
  run in a new process (nothing in memory) on what it left returns \<^verbatim>\<open>false\<close>.
\<close>

lemma sample_file_matches:
  "codeBlockMatches sample_file = [(Some (str ''tsx''), Some (str ''App.tsx'')), (None, None)]"
  "fileTreeMatches sample_file = []"
  by (simp_all add: sample_file_def regex_eval string_eval)

lemma sample_config_matches:
  "iconClassMatches (str ''icon: i-ph:rocket-launch, '') = [str ''i-ph:rocket-launch'']"
  by (simp add: regex_eval string_eval)

lemma sample_scan:
  "forEach (scanFile asciiLower) [Inr sample_file] [] fresh
     = (Inr [Text (str ''i-material-icon-theme:react-ts'')],
        fresh\<lparr>cachedData := Some sample_data, versionFile := Some (str ''5.21.0''),
          languageMapFile := Some \<lparr>LanguageMap.fileExtensions = Map.empty\<rparr>,
          materialIconsFile := Some sample_icons\<rparr>)"
  by (simp add: scanFile_def sample_file_matches codeBlockIcon_def await_def return_def
      addIfTruthy_def add_def string_eval resolver_eval store_eval sample_eval
      isHighSurrogate_def isLowSurrogate_def)

lemma sample_sorted:
  "sortIcons [Text (str ''i-custom:md''), Text (str ''i-custom:archive'')]
     = [Text (str ''i-custom:archive''), Text (str ''i-custom:md'')]"
  "sortIcons [Text (str ''i-material-icon-theme:react-ts''), Text (str ''i-ph:rocket-launch''),
       Text (str ''i-custom:md'')]
     = [Text (str ''i-custom:md''), Text (str ''i-material-icon-theme:react-ts''),
        Text (str ''i-ph:rocket-launch'')]"
  by (simp_all add: sortIcons_def str_def cu_def)

lemma sample_used:
  "addCustomIcons (Some [(str ''md'', str ''i-custom:md'')])
     (addConfigIcons [None, Some (str ''icon: i-ph:rocket-launch, '')]
        [Text (str ''i-material-icon-theme:react-ts'')])
     = [Text (str ''i-material-icon-theme:react-ts''), Text (str ''i-ph:rocket-launch''),
        Text (str ''i-custom:md'')]"
proof -
  have ne: "str ''i-ph:rocket-launch'' \<noteq> str ''i-material-icon-theme:react-ts''"
      "str ''i-custom:md'' \<noteq> str ''i-material-icon-theme:react-ts''"
      "str ''i-custom:md'' \<noteq> str ''i-ph:rocket-launch''"
    by (simp_all add: str_def cu_def)
  show ?thesis
    by (simp add: addCustomIcons_def addConfigIcons_def sample_config_matches add_def ne)
qed

theorem safelist_written_when_changed_witness:
  "saveSafelist [Text (str ''i-custom:md''), Text (str ''i-custom:archive'')] loaded
     = (Inr True,
        loaded\<lparr>safelistFile :=
          Some (stringify [Text (str ''i-custom:archive''), Text (str ''i-custom:md'')])\<rparr>)
   \<and> saveSafelist [Text (str ''i-custom:md''), Text (str ''i-custom:archive'')]
       (loaded\<lparr>safelistFile :=
          Some (stringify [Text (str ''i-custom:archive''), Text (str ''i-custom:md'')])\<rparr>)
     = (Inr False,
        loaded\<lparr>safelistFile :=
          Some (stringify [Text (str ''i-custom:archive''), Text (str ''i-custom:md'')])\<rparr>)
   \<and> saveSafelist [] loaded = (Inr False, loaded)
   \<and> generateSafelist asciiLower [Inr sample_file]
       [None, Some (str ''icon: i-ph:rocket-launch, '')]
       (Some [(str ''md'', str ''i-custom:md'')]) fresh
     = (Inr True,
        fresh\<lparr>cachedData := Some sample_data, versionFile := Some (str ''5.21.0''),
          languageMapFile := Some \<lparr>LanguageMap.fileExtensions = Map.empty\<rparr>,
          materialIconsFile := Some sample_icons,
          safelistFile :=
            Some (stringify [Text (str ''i-custom:md''),
              Text (str ''i-material-icon-theme:react-ts''),
              Text (str ''i-ph:rocket-launch'')])\<rparr>)
   \<and> (\<exists>v'. generateSafelist asciiLower [Inr sample_file]
              [None, Some (str ''icon: i-ph:rocket-launch, '')]
              (Some [(str ''md'', str ''i-custom:md'')])
              (fresh\<lparr>cachedData := None, versionFile := Some (str ''5.21.0''),
                 languageMapFile := Some \<lparr>LanguageMap.fileExtensions = Map.empty\<rparr>,
                 materialIconsFile := Some sample_icons,
                 safelistFile :=
                   Some (stringify [Text (str ''i-custom:md''),
                     Text (str ''i-material-icon-theme:react-ts''),
                     Text (str ''i-ph:rocket-launch'')])\<rparr>)
            = (Inr False, v')
          \<and> safelistFile v'
            = Some (stringify [Text (str ''i-custom:md''),
                Text (str ''i-material-icon-theme:react-ts''),
                Text (str ''i-ph:rocket-launch'')]))"
proof -
  let ?used = "[Text (str ''i-custom:md''), Text (str ''i-custom:archive'')]"
  let ?sorted = "[Text (str ''i-custom:archive''), Text (str ''i-custom:md'')]"
  let ?all = "[Text (str ''i-material-icon-theme:react-ts''), Text (str ''i-ph:rocket-launch''),
      Text (str ''i-custom:md'')]"
  let ?json = "stringify [Text (str ''i-custom:md''),
      Text (str ''i-material-icon-theme:react-ts''), Text (str ''i-ph:rocket-launch'')]"
  let ?u1 = "fresh\<lparr>cachedData := Some sample_data, versionFile := Some (str ''5.21.0''),
          languageMapFile := Some \<lparr>LanguageMap.fileExtensions = Map.empty\<rparr>,
          materialIconsFile := Some sample_icons\<rparr>"
  let ?u' = "fresh\<lparr>cachedData := Some sample_data, versionFile := Some (str ''5.21.0''),
          languageMapFile := Some \<lparr>LanguageMap.fileExtensions = Map.empty\<rparr>,
          materialIconsFile := Some sample_icons, safelistFile := Some ?json\<rparr>"
  let ?v = "fresh\<lparr>cachedData := None, versionFile := Some (str ''5.21.0''),
          languageMapFile := Some \<lparr>LanguageMap.fileExtensions = Map.empty\<rparr>,
          materialIconsFile := Some sample_icons, safelistFile := Some ?json\<rparr>"
  let ?configs = "[None, Some (str ''icon: i-ph:rocket-launch, '')]"
  let ?custom = "Some [(str ''md'', str ''i-custom:md'')]"
  have pre: "safelistFile loaded \<noteq> Some (stringify (sortIcons ?used))
      \<and> \<not> (safelistFile loaded = None \<and> ?used = [])
      \<and> can_mkdir loaded \<and> can_write loaded SafelistJson"
    by (simp add: sample_eval)
  have "saveSafelist ?used loaded
      = (Inr True, loaded\<lparr>safelistFile := Some (stringify (sortIcons ?used))\<rparr>)"
    using safelist_written_when_changed [of loaded ?used] pre by blast
  then have 1: "saveSafelist ?used loaded
      = (Inr True, loaded\<lparr>safelistFile := Some (stringify ?sorted)\<rparr>)"
    by (simp only: sample_sorted)
  have same: "safelistFile (loaded\<lparr>safelistFile := Some (stringify ?sorted)\<rparr>)
      = Some (stringify (sortIcons ?used))"
    by (simp only: sample_sorted) simp
  have again: "saveSafelist ?used (loaded\<lparr>safelistFile := Some (stringify ?sorted)\<rparr>)
      = (Inr False, loaded\<lparr>safelistFile := Some (stringify ?sorted)\<rparr>)"
    using safelist_written_when_changed
        [of "loaded\<lparr>safelistFile := Some (stringify ?sorted)\<rparr>" ?used] same
    by blast
  have none: "safelistFile loaded = None \<and> ([] :: jsvalue list) = []"
    by (simp add: sample_eval)
  have 2: "saveSafelist [] loaded = (Inr False, loaded)"
    using safelist_written_when_changed [of loaded "[]"] none by blast
  have gen: "generateSafelist asciiLower [Inr sample_file] ?configs ?custom fresh
      = saveSafelist ?all ?u1"
    using safelist_written_when_changed [where lc = asciiLower
        and files = "[Inr sample_file]" and u = fresh and us = ?u1
        and scanned = "[Text (str ''i-material-icon-theme:react-ts'')]"
        and configs = ?configs and customFileIcons = ?custom] sample_scan
    by (simp only: sample_used; blast)
  have pre': "safelistFile ?u1 \<noteq> Some (stringify (sortIcons ?all))
      \<and> \<not> (safelistFile ?u1 = None \<and> ?all = [])
      \<and> can_mkdir ?u1 \<and> can_write ?u1 SafelistJson"
    by (simp add: sample_eval)
  have "saveSafelist ?all ?u1
      = (Inr True, ?u1\<lparr>safelistFile := Some (stringify (sortIcons ?all))\<rparr>)"
    using safelist_written_when_changed [of ?u1 ?all] pre' by blast
  then have "saveSafelist ?all ?u1 = (Inr True, ?u1\<lparr>safelistFile := Some ?json\<rparr>)"
    by (simp only: sample_sorted)
  with gen have 3: "generateSafelist asciiLower [Inr sample_file] ?configs ?custom fresh
      = (Inr True, ?u')"
    by simp
  have a: "cacheWritesAgree fresh" "cacheWritesAgree ?v"
    by (simp_all add: cacheWritesAgree_def sample_eval)
  have vw: "view ?v = view ?u'"
    by (simp add: view_def store_eval getCustomFileIcons_def sample_eval string_eval)
  have sf: "safelistFile ?v = safelistFile ?u'" by simp
  have "\<exists>v'. generateSafelist asciiLower [Inr sample_file] ?configs ?custom ?v = (Inr False, v')
      \<and> safelistFile v' = safelistFile ?u'"
    using safelist_written_when_changed [where u = fresh and lc = asciiLower
        and files = "[Inr sample_file]" and configs = ?configs and customFileIcons = ?custom
        and changed = True and u' = ?u' and v = ?v] 3 a vw sf
    by blast
  then have 4: "\<exists>v'. generateSafelist asciiLower [Inr sample_file] ?configs ?custom ?v
        = (Inr False, v')
      \<and> safelistFile v' = Some ?json"
    by simp
  show ?thesis using 1 again 2 3 4 by (intro conjI)
qed

text \<open>
  C5 as it is written fails when the cache directory cannot be written: the file is not
  there, the set is not empty, and the function throws instead of returning
  \<^verbatim>\<open>true\<close>. The same through the whole of \<^verbatim>\<open>generateSafelist\<close>, with no content files
  and one override.
\<close>

theorem safelist_write_failure_counterexample:
  "safelistFile read_only = None
   \<and> saveSafelist [Text (str ''i-custom:md'')] read_only = (Inl WriteFailed, read_only)
   \<and> generateSafelist asciiLower [] [] (Some [(str ''md'', str ''i-custom:md'')]) read_only
       = (Inl WriteFailed, read_only)"
  by (simp add: generateSafelist_def addConfigIcons_def addCustomIcons_def saveSafelist_def
      writeSafelist_def sortIcons_def scan_eval sample_eval read_only_def str_def cu_def)
section \<open>Directories in a tree diagram\<close>

text \<open>
  The lines the scanner works on are the lines of the text of the component: its
  \<open>i\<close>-th line is \<open>textLine t i\<close> up to white space at both ends, and only the first
  one can have lost white space at its start.
\<close>

lemma split_Cons:
  "split c (x # xs)
     = (if x = c then [] # split c xs else (x # hd (split c xs)) # tl (split c xs))"
  using split_not_Nil [of c xs] by (cases "split c xs") simp_all

lemma split_append:
  "split c (a @ b)
     = butlast (split c a) @ (last (split c a) @ hd (split c b)) # tl (split c b)"
proof (induction a)
  case Nil
  show ?case using split_not_Nil [of c b] by simp
next
  case (Cons x a)
  obtain l ls where s: "split c a = l # ls"
    using split_not_Nil [of c a] by (cases "split c a") auto
  have ab: "split c (a @ b) \<noteq> []" by (rule split_not_Nil)
  show ?case
  proof (cases ls)
    case Nil
    with s Cons.IH show ?thesis
      by (simp add: split_Cons del: split.simps)
  next
    case (Cons l' ls')
    with s Cons.IH show ?thesis
      by (simp add: split_Cons del: split.simps)
  qed
qed

lemma split_within: "l \<in> set (split c s) \<Longrightarrow> set l \<subseteq> set s"
proof (induction s arbitrary: l)
  case Nil
  then show ?case by simp
next
  case (Cons x s)
  obtain a rest where s: "split c s = a # rest"
    using split_not_Nil [of c s] by (cases "split c s") auto
  have a: "set a \<subseteq> set s" using Cons.IH [of a] s by simp
  from Cons.prems s have "l = [] \<or> l = x # a \<or> l \<in> set (split c s)"
    by (auto simp: split_Cons simp del: split.simps split: if_splits)
  then show ?case
  proof (elim disjE)
    assume "l = []"
    then show ?thesis by simp
  next
    assume "l = x # a"
    with a show ?thesis by auto
  next
    assume "l \<in> set (split c s)"
    then have "set l \<subseteq> set s" by (rule Cons.IH)
    then show ?thesis by auto
  qed
qed

lemma split_last:
  "s \<noteq> [] \<Longrightarrow> last s \<noteq> c
   \<Longrightarrow> last (split c s) \<noteq> [] \<and> last (last (split c s)) = last s"
proof (induction s)
  case Nil
  then show ?case by simp
next
  case (Cons x s)
  obtain a rest where s: "split c s = a # rest"
    using split_not_Nil [of c s] by (cases "split c s") auto
  show ?case
  proof (cases "s = []")
    case True
    with Cons.prems show ?thesis by simp
  next
    case False
    with Cons.prems have "last s \<noteq> c" by simp
    with False Cons.IH have ih: "last (split c s) \<noteq> [] \<and> last (last (split c s)) = last s"
      by simp
    show ?thesis
    proof (cases rest)
      case Nil
      with s ih False show ?thesis
        by (simp add: split_Cons del: split.simps)
    next
      case (Cons b rest')
      with s ih False show ?thesis
        by (simp add: split_Cons del: split.simps)
    qed
  qed
qed

lemma trim_Nil: "trim [] = []"
  by (simp add: trim_def)

lemma trim_white:
  assumes "\<forall>c \<in> set s. isWhiteSpace c"
  shows "trim s = []"
proof -
  have d: "dropWhile isWhiteSpace s = []" using assms by simp
  show ?thesis unfolding trim_def d by simp
qed

lemma trim_before: "\<forall>c \<in> set p. isWhiteSpace c \<Longrightarrow> trim (p @ s) = trim s"
  by (simp add: trim_def dropWhile_append2)

lemma trim_behind:
  assumes "\<forall>c \<in> set q. isWhiteSpace c"
  shows "trim (s @ q) = trim s"
proof (cases "\<forall>c \<in> set s. isWhiteSpace c")
  case True
  with assms have "\<forall>c \<in> set (s @ q). isWhiteSpace c" by auto
  then have "trim (s @ q) = []" by (rule trim_white)
  moreover from True have "trim s = []" by (rule trim_white)
  ultimately show ?thesis by simp
next
  case False
  then obtain c where "c \<in> set s" "\<not> isWhiteSpace c" by blast
  then have front: "dropWhile isWhiteSpace (s @ q) = dropWhile isWhiteSpace s @ q"
    by (rule dropWhile_append1)
  have "dropWhile isWhiteSpace (rev q @ ys) = dropWhile isWhiteSpace ys" for ys
    using assms by (intro dropWhile_append2) simp
  then show ?thesis unfolding trim_def front by simp
qed

lemma trim_parts:
  "t = takeWhile isWhiteSpace t @ trim t
       @ rev (takeWhile isWhiteSpace (rev (dropWhile isWhiteSpace t)))"
proof -
  let ?rest = "dropWhile isWhiteSpace t"
  have "?rest = rev (dropWhile isWhiteSpace (rev ?rest))
      @ rev (takeWhile isWhiteSpace (rev ?rest))"
    by (metis rev_append rev_rev_ident takeWhile_dropWhile_id)
  then have rest: "?rest = trim t @ rev (takeWhile isWhiteSpace (rev ?rest))"
    by (simp only: trim_def)
  have "t = takeWhile isWhiteSpace t @ ?rest" by simp
  with rest show ?thesis by metis
qed

lemma trim_ends:
  assumes "trim t \<noteq> []"
  shows "\<not> isWhiteSpace (hd (trim t)) \<and> \<not> isWhiteSpace (last (trim t))"
proof -
  let ?rest = "dropWhile isWhiteSpace t"
  let ?tail = "dropWhile isWhiteSpace (rev ?rest)"
  have t: "trim t = rev ?tail" by (simp add: trim_def)
  with assms have some: "?tail \<noteq> []" by simp
  then have "\<not> isWhiteSpace (hd ?tail)" by (rule hd_dropWhile)
  then have l: "\<not> isWhiteSpace (last (trim t))"
    using some by (simp add: t last_rev)
  have rest: "?rest \<noteq> []"
  proof
    assume e: "?rest = []"
    have "?tail = []" unfolding e by simp
    with some show False by simp
  qed
  then have h: "\<not> isWhiteSpace (hd ?rest)" by (rule hd_dropWhile)
  have "?rest = trim t @ rev (takeWhile isWhiteSpace (rev ?rest))"
    using trim_parts [of t] by (metis append_eq_append_conv takeWhile_dropWhile_id)
  with assms have "hd ?rest = hd (trim t)" by (metis hd_append2)
  with h l show ?thesis by simp
qed

lemma isWhiteSpace_line_feed: "isWhiteSpace 0x0A"
  by (simp add: isWhiteSpace_def)

lemma textLine_parts:
  assumes core: "trim t \<noteq> []" and i: "i < length (split 0x0A (trim t))"
  shows "\<exists>p q. textLine t i = p @ split 0x0A (trim t) ! i @ q
           \<and> (\<forall>c \<in> set p. isWhiteSpace c) \<and> (\<forall>c \<in> set q. isWhiteSpace c)
           \<and> (0 < i \<longrightarrow> p = [])
           \<and> (q \<noteq> [] \<longrightarrow> (\<exists>c \<in> set (split 0x0A (trim t) ! i). \<not> isWhiteSpace c))"
proof -
  let ?c = "0x0A :: jschar"
  define pre where "pre = takeWhile isWhiteSpace t"
  define post where "post = rev (takeWhile isWhiteSpace (rev (dropWhile isWhiteSpace t)))"
  define A where "A = split ?c pre"
  define B where "B = split ?c (trim t @ post)"
  define C where "C = split ?c (trim t)"
  define D where "D = split ?c post"
  have t: "t = pre @ trim t @ post"
    unfolding pre_def post_def by (rule trim_parts)
  have ws_pre: "\<forall>c \<in> set pre. isWhiteSpace c"
    unfolding pre_def by (auto dest: set_takeWhileD)
  have ws_post: "\<forall>c \<in> set post. isWhiteSpace c"
    unfolding post_def by (auto dest: set_takeWhileD)
  have ne: "A \<noteq> []" "B \<noteq> []" "C \<noteq> []" "D \<noteq> []"
    unfolding A_def B_def C_def D_def by (rule split_not_Nil)+
  have first: "firstLine t = length (butlast A)"
    by (simp add: firstLine_def A_def pre_def)
  have "split ?c t = split ?c (pre @ (trim t @ post))" using t by simp
  then have raw: "split ?c t = butlast A @ (last A @ hd B) # tl B"
    unfolding A_def B_def by (simp only: split_append)
  have b: "B = butlast C @ (last C @ hd D) # tl D"
    unfolding B_def C_def D_def by (rule split_append)
  have len: "i < length C" using i by (simp add: C_def)
  define q where "q = (if i = length C - 1 then hd D else [])"
  define p where "p = (if i = 0 then last A else [])"
  have bi: "B ! i = C ! i @ q"
  proof (cases "i = length C - 1")
    case True
    then have "B ! i = last C @ hd D"
      unfolding b by (simp add: nth_append)
    moreover have "last C = C ! i" using True ne(3) by (simp add: last_conv_nth)
    ultimately show ?thesis using True by (simp add: q_def)
  next
    case False
    with len have "i < length (butlast C)" by simp
    then have "B ! i = C ! i"
      unfolding b by (simp add: nth_append nth_butlast)
    with False show ?thesis by (simp add: q_def)
  qed
  have lenB: "length C \<le> length B"
    unfolding b using ne(3) by simp
  have line: "textLine t i = p @ C ! i @ q"
  proof (cases i)
    case 0
    have "textLine t 0 = last A @ hd B"
      unfolding textLine_def first raw by (simp add: nth_append)
    moreover have "hd B = B ! 0" using ne(2) by (simp add: hd_conv_nth)
    ultimately show ?thesis using 0 bi by (simp add: p_def)
  next
    case (Suc j)
    with len lenB have j: "j < length (tl B)" by simp
    have "textLine t (Suc j) = tl B ! j"
      unfolding textLine_def first raw by (simp add: nth_append)
    also have "\<dots> = B ! Suc j" using j by (simp add: nth_tl)
    finally show ?thesis using Suc bi by (simp add: p_def)
  qed
  have "last A \<in> set A" using ne(1) by simp
  then have "set (last A) \<subseteq> set pre" unfolding A_def by (rule split_within)
  with ws_pre have ws_p: "\<forall>c \<in> set p. isWhiteSpace c" by (auto simp: p_def)
  have "hd D \<in> set D" using ne(4) by simp
  then have "set (hd D) \<subseteq> set post" unfolding D_def by (rule split_within)
  with ws_post have ws_q: "\<forall>c \<in> set q. isWhiteSpace c" by (auto simp: q_def)
  have mark: "q \<noteq> [] \<longrightarrow> (\<exists>c \<in> set (C ! i). \<not> isWhiteSpace c)"
  proof
    assume "q \<noteq> []"
    then have last: "i = length C - 1" by (auto simp: q_def split: if_splits)
    have "last (trim t) \<noteq> ?c"
      using trim_ends [OF core] isWhiteSpace_line_feed by auto
    with core have "last C \<noteq> [] \<and> last (last C) = last (trim t)"
      unfolding C_def by (rule split_last)
    moreover have "last C = C ! i" using last ne(3) by (simp add: last_conv_nth)
    ultimately have "C ! i \<noteq> []" "last (C ! i) = last (trim t)" by simp_all
    then have "last (trim t) \<in> set (C ! i)" by (metis last_in_set)
    with trim_ends [OF core] show "\<exists>c \<in> set (C ! i). \<not> isWhiteSpace c" by blast
  qed
  show ?thesis
    using line ws_p ws_q mark unfolding C_def
    by (intro exI [of _ p] exI [of _ q]) (simp add: p_def)
qed

lemma toLines_nth:
  "i < length (toLines t)
   \<Longrightarrow> indentation (toLines t ! i) = leading (split 0x0A (trim t) ! i)
       \<and> content (toLines t ! i) = trim (split 0x0A (trim t) ! i)"
  by (simp add: toLines_def leading_def)

lemma toLines_empty: "trim t = [] \<Longrightarrow> toLines t = [\<lparr>indentation = 0, content = []\<rparr>]"
  by (simp add: toLines_def trim_Nil)

text \<open>
  A line that starts a list entry is the line of the text at its place; its indentation
  is the one the line has in the text, but for the first line, whose indentation the
  scanner takes to be none.
\<close>

lemma toLines_textLine:
  assumes i: "i < length (toLines t)"
    and entry: "startsWith (content (toLines t ! i)) (str ''- '')"
  shows "content (toLines t ! i) = trim (textLine t i)"
    and "indentation (toLines t ! i) \<le> leading (textLine t i)"
    and "0 < i \<or> leading (textLine t i) = 0
           \<Longrightarrow> indentation (toLines t ! i) = leading (textLine t i)"
    and "i = 0 \<Longrightarrow> indentation (toLines t ! i) = 0"
proof -
  let ?l = "split 0x0A (trim t) ! i"
  have core: "trim t \<noteq> []"
  proof
    assume "trim t = []"
    then have "toLines t = [\<lparr>indentation = 0, content = []\<rparr>]" by (rule toLines_empty)
    with i entry show False by (simp add: startsWith_def str_def)
  qed
  have len: "i < length (split 0x0A (trim t))" using i by (simp add: toLines_def)
  from textLine_parts [OF core len]
  obtain p q where pq: "textLine t i = p @ ?l @ q"
      "\<forall>c \<in> set p. isWhiteSpace c" "\<forall>c \<in> set q. isWhiteSpace c" "0 < i \<longrightarrow> p = []"
      "q \<noteq> [] \<longrightarrow> (\<exists>c \<in> set ?l. \<not> isWhiteSpace c)"
    by blast
  have nth: "indentation (toLines t ! i) = leading ?l" "content (toLines t ! i) = trim ?l"
    using toLines_nth [OF i] by simp_all
  show c: "content (toLines t ! i) = trim (textLine t i)"
    using pq(1-3) nth(2) by (simp add: trim_before trim_behind)
  have behind: "leading (?l @ q) = leading ?l"
  proof (cases "q = []")
    case True
    then show ?thesis by simp
  next
    case False
    with pq(5) obtain c where "c \<in> set ?l" "\<not> isWhiteSpace c" by blast
    then have "takeWhile isWhiteSpace (?l @ q) = takeWhile isWhiteSpace ?l"
      by (rule takeWhile_append1)
    then show ?thesis by (simp add: leading_def)
  qed
  have before: "leading (p @ ?l @ q) = length p + leading (?l @ q)"
    using pq(2) by (simp add: leading_def takeWhile_append2)
  show le: "indentation (toLines t ! i) \<le> leading (textLine t i)"
    using nth(1) pq(1) behind before by simp
  have zero: "leading ?l = 0" if "i = 0"
  proof -
    have "split 0x0A (trim t) ! 0 = hd (split 0x0A (trim t))"
      using split_not_Nil [of "0x0A" "trim t"] by (simp add: hd_conv_nth)
    moreover obtain x xs where x: "trim t = x # xs" using core by (cases "trim t") auto
    moreover have "\<not> isWhiteSpace x" using trim_ends [OF core] x by simp
    moreover from this have "x \<noteq> 0x0A" using isWhiteSpace_line_feed by auto
    ultimately show ?thesis
      using that by (simp add: split_Cons leading_def del: split.simps)
  qed
  show "indentation (toLines t ! i) = 0" if "i = 0"
    using zero [OF that] nth(1) by simp
  show "indentation (toLines t ! i) = leading (textLine t i)"
    if "0 < i \<or> leading (textLine t i) = 0"
  proof (cases "0 < i")
    case True
    with pq(4) have "p = []" by simp
    with pq(1) behind nth(1) show ?thesis by simp
  next
    case False
    with that have "leading (textLine t i) = 0" by simp
    with le show ?thesis by simp
  qed
qed
text \<open>
  C6, as the code has it, on the text of the component. For a line of the list whose
  entry name is not empty and not an ellipsis: the line is the line of the text at its
  place; the directory branch is taken when the name ends with a slash, and when the line
  that follows immediately in the text (whether or not the loop skips it) is indented
  deeper; the file branch is taken when the name does not end with a slash and there is
  no following line or the following line is indented no deeper, for a line that is not
  the first of the diagram or is not indented.
\<close>

theorem directory_by_slash_or_next_line:
  assumes "i < length (toLines t)" and "startsWith (content (toLines t ! i)) (str ''- '')"
    and "e = entryNameOf (toLines t ! i)" and "e \<noteq> []" and "\<not> isEllipsis e"
  shows "content (toLines t ! i) = trim (textLine t i)
       \<and> (endsWith e (str ''/'') \<longrightarrow>
            fileTreeLine lc (toLines t) i usedIcons = folderIcons lc e usedIcons)
       \<and> (i + 1 < length (toLines t) \<and> leading (textLine t i) < leading (textLine t (i + 1)) \<longrightarrow>
            fileTreeLine lc (toLines t) i usedIcons = folderIcons lc e usedIcons)
       \<and> ((0 < i \<or> leading (textLine t i) = 0)
            \<and> \<not> endsWith e (str ''/'')
            \<and> (i + 1 < length (toLines t) \<longrightarrow>
                 leading (textLine t (i + 1)) \<le> leading (textLine t i)) \<longrightarrow>
            fileTreeLine lc (toLines t) i usedIcons = fileIcon lc e usedIcons)"
proof -
  note here = toLines_textLine [OF assms(1,2)]
  have next_line: "indentation (toLines t ! (i + 1)) = leading (split 0x0A (trim t) ! (i + 1))"
    if "i + 1 < length (toLines t)"
    using toLines_nth [OF that] by simp
  have core: "trim t \<noteq> []"
  proof
    assume "trim t = []"
    then have "toLines t = [\<lparr>indentation = 0, content = []\<rparr>]" by (rule toLines_empty)
    with assms(1,2) show False by (simp add: startsWith_def str_def)
  qed
  have following: "indentation (toLines t ! (i + 1)) = leading (textLine t (i + 1))"
    if n: "i + 1 < length (toLines t)"
  proof -
    let ?l = "split 0x0A (trim t) ! (i + 1)"
    have len: "i + 1 < length (split 0x0A (trim t))" using n by (simp add: toLines_def)
    from textLine_parts [OF core len]
    obtain p q where pq: "textLine t (i + 1) = p @ ?l @ q" "0 < i + 1 \<longrightarrow> p = []"
        "q \<noteq> [] \<longrightarrow> (\<exists>c \<in> set ?l. \<not> isWhiteSpace c)"
      by auto
    have "leading (?l @ q) = leading ?l"
    proof (cases "q = []")
      case True
      then show ?thesis by simp
    next
      case False
      with pq(3) obtain c where "c \<in> set ?l" "\<not> isWhiteSpace c" by blast
      then have "takeWhile isWhiteSpace (?l @ q) = takeWhile isWhiteSpace ?l"
        by (rule takeWhile_append1)
      then show ?thesis by (simp add: leading_def)
    qed
    with pq(1,2) next_line [OF n] show ?thesis by simp
  qed
  have line: "fileTreeLine lc (toLines t) i usedIcons
      = (if isDirectory (toLines t) i e then folderIcons lc e usedIcons
         else fileIcon lc e usedIcons)"
    using assms by (simp add: fileTreeLine_def Let_def)
  have slash: "endsWith e (str ''/'') \<longrightarrow>
      fileTreeLine lc (toLines t) i usedIcons = folderIcons lc e usedIcons"
    unfolding line by (simp add: isDirectory_def)
  have deeper: "i + 1 < length (toLines t) \<and> leading (textLine t i) < leading (textLine t (i + 1))
      \<longrightarrow> fileTreeLine lc (toLines t) i usedIcons = folderIcons lc e usedIcons"
  proof
    assume a: "i + 1 < length (toLines t) \<and> leading (textLine t i) < leading (textLine t (i + 1))"
    then have "indentation (toLines t ! i) < indentation (toLines t ! (i + 1))"
      using here(2) following by simp
    with a show "fileTreeLine lc (toLines t) i usedIcons = folderIcons lc e usedIcons"
      unfolding line by (simp add: isDirectory_def)
  qed
  have no_deeper: "(0 < i \<or> leading (textLine t i) = 0)
      \<and> \<not> endsWith e (str ''/'')
      \<and> (i + 1 < length (toLines t) \<longrightarrow>
           leading (textLine t (i + 1)) \<le> leading (textLine t i))
      \<longrightarrow> fileTreeLine lc (toLines t) i usedIcons = fileIcon lc e usedIcons"
  proof
    assume a: "(0 < i \<or> leading (textLine t i) = 0)
      \<and> \<not> endsWith e (str ''/'')
      \<and> (i + 1 < length (toLines t) \<longrightarrow>
           leading (textLine t (i + 1)) \<le> leading (textLine t i))"
    then have same: "indentation (toLines t ! i) = leading (textLine t i)"
      using here(3) by blast
    have "\<not> isDirectory (toLines t) i e"
      using a same following by (auto simp: isDirectory_def)
    then show "fileTreeLine lc (toLines t) i usedIcons = fileIcon lc e usedIcons"
      unfolding line by simp
  qed
  show ?thesis using here(1) slash deeper no_deeper by (intro conjI)
qed

lemma sample_tree_lines:
  "toLines sample_tree
     = [\<lparr>indentation = 0, content = str ''- src/''\<rparr>,
        \<lparr>indentation = 0, content = str ''- utils''\<rparr>,
        \<lparr>indentation = 2, content = str ''- index.ts''\<rparr>,
        \<lparr>indentation = 0, content = str ''- README.md''\<rparr>]"
  by (simp add: toLines_def sample_tree_def string_eval)

lemma sample_tree_text:
  "leading (textLine sample_tree 0) = 0" "leading (textLine sample_tree 1) = 0"
  "leading (textLine sample_tree 2) = 2" "leading (textLine sample_tree 3) = 0"
  by (simp_all add: leading_def textLine_def firstLine_def sample_tree_def string_eval)

lemma sample_tree_entries:
  "entryNameOf \<lparr>indentation = 0, content = str ''- src/''\<rparr> = str ''src/''"
  "entryNameOf \<lparr>indentation = 0, content = str ''- utils''\<rparr> = str ''utils''"
  "entryNameOf \<lparr>indentation = 2, content = str ''- index.ts''\<rparr> = str ''index.ts''"
  "entryNameOf \<lparr>indentation = 0, content = str ''- README.md''\<rparr> = str ''README.md''"
  "entryNameOf \<lparr>indentation = 0, content = str ''- a.md''\<rparr> = str ''a.md''"
  "entryNameOf \<lparr>indentation = 2, content = str ''- child''\<rparr> = str ''child''"
  "entryNameOf \<lparr>indentation = 2, content = str ''- other.ts''\<rparr> = str ''other.ts''"
  "entryNameOf \<lparr>indentation = 0, content = str ''- index.ts''\<rparr> = str ''index.ts''"
  by (simp_all add: string_eval scan_eval)

text \<open>
  The sample tree: \<^verbatim>\<open>src/\<close> is a directory by its slash, \<^verbatim>\<open>utils\<close> by the deeper line
  that follows, \<^verbatim>\<open>index.ts\<close>, followed by a line less deep, is a file, and so is
  \<^verbatim>\<open>README.md\<close>, the last line.
\<close>

theorem directory_by_slash_or_next_line_witness:
  "fileTreeLine asciiLower (toLines sample_tree) 0 []
     = folderIcons asciiLower (str ''src/'') []
   \<and> fileTreeLine asciiLower (toLines sample_tree) 1 []
     = folderIcons asciiLower (str ''utils'') []
   \<and> fileTreeLine asciiLower (toLines sample_tree) 2 []
     = fileIcon asciiLower (str ''index.ts'') []
   \<and> fileTreeLine asciiLower (toLines sample_tree) 3 []
     = fileIcon asciiLower (str ''README.md'') []"
proof -
  let ?ls = "toLines sample_tree"
  have len: "0 < length ?ls" "1 < length ?ls" "2 < length ?ls" "3 < length ?ls"
    by (simp_all add: sample_tree_lines)
  have st: "startsWith (content (?ls ! 0)) (str ''- '')"
      "startsWith (content (?ls ! 1)) (str ''- '')"
      "startsWith (content (?ls ! 2)) (str ''- '')"
      "startsWith (content (?ls ! 3)) (str ''- '')"
    by (simp_all add: sample_tree_lines string_eval)
  have e: "str ''src/'' = entryNameOf (?ls ! 0)" "str ''utils'' = entryNameOf (?ls ! 1)"
      "str ''index.ts'' = entryNameOf (?ls ! 2)" "str ''README.md'' = entryNameOf (?ls ! 3)"
    by (simp_all add: sample_tree_lines sample_tree_entries)
  have ne: "str ''src/'' \<noteq> []" "str ''utils'' \<noteq> []" "str ''index.ts'' \<noteq> []"
      "str ''README.md'' \<noteq> []"
    by (simp_all add: str_def)
  have el: "\<not> isEllipsis (str ''src/'')" "\<not> isEllipsis (str ''utils'')"
      "\<not> isEllipsis (str ''index.ts'')" "\<not> isEllipsis (str ''README.md'')"
    by (simp_all add: isEllipsis_def str_def cu_def)
  have c0: "endsWith (str ''src/'') (str ''/'')"
    by (simp add: string_eval)
  have next_index: "(1 :: nat) + 1 = 2" "(2 :: nat) + 1 = 3" "(3 :: nat) + 1 = 4"
    by simp_all
  have c1: "1 + 1 < length ?ls
      \<and> leading (textLine sample_tree 1) < leading (textLine sample_tree (1 + 1))"
    unfolding next_index sample_tree_text by (simp add: sample_tree_lines)
  have c2: "(0 < (2 :: nat) \<or> leading (textLine sample_tree 2) = 0)
      \<and> \<not> endsWith (str ''index.ts'') (str ''/'')
      \<and> (2 + 1 < length ?ls \<longrightarrow>
           leading (textLine sample_tree (2 + 1)) \<le> leading (textLine sample_tree 2))"
    unfolding next_index sample_tree_text
    by (simp add: sample_tree_lines; simp add: string_eval)
  have c3: "(0 < (3 :: nat) \<or> leading (textLine sample_tree 3) = 0)
      \<and> \<not> endsWith (str ''README.md'') (str ''/'')
      \<and> (3 + 1 < length ?ls \<longrightarrow>
           leading (textLine sample_tree (3 + 1)) \<le> leading (textLine sample_tree 3))"
    unfolding next_index sample_tree_text
    by (simp add: sample_tree_lines; simp add: string_eval)
  show ?thesis
    using directory_by_slash_or_next_line
        [OF len(1) st(1) e(1) ne(1) el(1), of asciiLower "[]"] c0
      directory_by_slash_or_next_line
        [OF len(2) st(2) e(2) ne(2) el(2), of asciiLower "[]"] c1
      directory_by_slash_or_next_line
        [OF len(3) st(3) e(3) ne(3) el(3), of asciiLower "[]"] c2
      directory_by_slash_or_next_line
        [OF len(4) st(4) e(4) ne(4) el(4), of asciiLower "[]"] c3
    by blast
qed

text \<open>
  C6 as it is written fails when a skipped line stands between an entry and its child:
  in \<open>gap_tree\<close> the next line that is not skipped is deeper than \<^verbatim>\<open>utils\<close>, the line
  that follows immediately is empty, and \<^verbatim>\<open>utils\<close> is resolved as a file.
\<close>

lemma gap_tree_lines:
  "toLines gap_tree
     = [\<lparr>indentation = 0, content = str ''- a.md''\<rparr>,
        \<lparr>indentation = 0, content = str ''- utils''\<rparr>,
        \<lparr>indentation = 0, content = []\<rparr>,
        \<lparr>indentation = 2, content = str ''- child''\<rparr>]"
  by (simp add: toLines_def gap_tree_def string_eval)

lemma gap_tree_text:
  "leading (textLine gap_tree 1) = 0" "textLine gap_tree 2 = []"
  "leading (textLine gap_tree 3) = 2"
  by (simp_all add: leading_def textLine_def firstLine_def gap_tree_def string_eval)

lemma gap_tree_skipped:
  "skipped \<lparr>indentation = 0, content = []\<rparr>"
  "\<not> skipped \<lparr>indentation = 2, content = str ''- child''\<rparr>"
  unfolding skipped_def sample_tree_entries isEllipsis_def
  by (simp_all add: string_eval)

lemma utils_is_document:
  "fst (fileIcon asciiLower (str ''utils'') [] loaded)
     = Inr [Text (str ''i-material-icon-theme:document'')]"
  by (simp add: fileIcon_def await_def return_def addIfTruthy_def add_def string_eval
      resolver_eval store_eval sample_eval)

theorem directory_after_gap_counterexample:
  "entryNameOf (toLines gap_tree ! 1) = str ''utils''
   \<and> leading (textLine gap_tree 1) < leading (textLine gap_tree 3)
   \<and> skipped (toLines gap_tree ! 2)
   \<and> spec_isDirectory (toLines gap_tree) 1 (str ''utils'')
   \<and> \<not> isDirectory (toLines gap_tree) 1 (str ''utils'')
   \<and> fileTreeLine asciiLower (toLines gap_tree) 1 [] loaded
       = fileIcon asciiLower (str ''utils'') [] loaded
   \<and> fst (fileTreeLine asciiLower (toLines gap_tree) 1 [] loaded)
       = Inr [Text (str ''i-material-icon-theme:document'')]"
proof -
  have e: "entryNameOf (toLines gap_tree ! 1) = str ''utils''"
    by (simp add: gap_tree_lines sample_tree_entries)
  have ne: "str ''utils'' \<noteq> []" "\<not> isEllipsis (str ''utils'')"
      "\<not> endsWith (str ''utils'') (str ''/'')"
      "startsWith (str ''- utils'') (str ''- '')"
    by (simp_all add: isEllipsis_def string_eval)
  have tx: "leading (textLine gap_tree 1) < leading (textLine gap_tree 3)"
    unfolding gap_tree_text by simp
  have sk: "skipped (toLines gap_tree ! 2)"
    by (simp add: gap_tree_lines gap_tree_skipped)
  have sp: "spec_isDirectory (toLines gap_tree) 1 (str ''utils'')"
    by (simp add: spec_isDirectory_def gap_tree_lines gap_tree_skipped)
  have cd: "\<not> isDirectory (toLines gap_tree) 1 (str ''utils'')"
    using ne(3) by (simp add: isDirectory_def gap_tree_lines)
  have st: "fileTreeLine asciiLower (toLines gap_tree) 1 [] loaded
      = fileIcon asciiLower (str ''utils'') [] loaded"
    using e ne cd by (simp add: fileTreeLine_def gap_tree_lines)
  show ?thesis using e tx sk sp cd st utils_is_document by simp
qed

text \<open>
  What the statement of C6 above leaves out: the scanner trims the text before it
  measures, so the first line of a diagram counts as not indented. In \<open>indented_tree\<close>
  both entries are indented by two blanks, and \<^verbatim>\<open>index.ts\<close>, on the first line, is taken
  for a directory.
\<close>

lemma first_line_indentation_lost:
  "leading (textLine indented_tree 0) = 2 \<and> leading (textLine indented_tree 1) = 2
   \<and> indentation (toLines indented_tree ! 0) = 0
   \<and> indentation (toLines indented_tree ! 1) = 2
   \<and> entryNameOf (toLines indented_tree ! 0) = str ''index.ts''
   \<and> fileTreeLine asciiLower (toLines indented_tree) 0 []
       = folderIcons asciiLower (str ''index.ts'') []"
proof -
  have ls: "toLines indented_tree
      = [\<lparr>indentation = 0, content = str ''- index.ts''\<rparr>,
         \<lparr>indentation = 2, content = str ''- other.ts''\<rparr>]"
    by (simp add: toLines_def indented_tree_def string_eval)
  have tx: "leading (textLine indented_tree 0) = 2" "leading (textLine indented_tree 1) = 2"
    by (simp_all add: leading_def textLine_def firstLine_def indented_tree_def string_eval)
  have ne: "str ''index.ts'' \<noteq> []" "\<not> isEllipsis (str ''index.ts'')"
      "startsWith (str ''- index.ts'') (str ''- '')"
    by (simp_all add: isEllipsis_def string_eval)
  have "fileTreeLine asciiLower (toLines indented_tree) 0 []
      = folderIcons asciiLower (str ''index.ts'') []"
    using ne by (simp add: fileTreeLine_def isDirectory_def ls sample_tree_entries)
  then show ?thesis using tx by (simp add: ls sample_tree_entries)
qed

section \<open>Ellipsis entries\<close>

text \<open>
  C9. A line whose entry name is empty, \<^verbatim>\<open>...\<close> or the ellipsis read in the wrong
  encoding leaves the set of used icons and the world as they were: no icon is looked up
  and none is added.
\<close>

theorem ellipsis_contributes_nothing:
  "entryNameOf (lines ! i) = [] \<or> isEllipsis (entryNameOf (lines ! i))
   \<Longrightarrow> fileTreeLine lc lines i usedIcons w = (Inr usedIcons, w)"
  by (auto simp: fileTreeLine_def return_def Let_def)

lemma ellipsis_tree_lines:
  "toLines ellipsis_tree
     = [\<lparr>indentation = 0, content = str ''- ...''\<rparr>,
        \<lparr>indentation = 0, content = str ''- '' @ [0xE2, 0x20AC, 0xA6]\<rparr>,
        \<lparr>indentation = 0, content = str ''- '' @ [0x60, 0x60]\<rparr>]"
  by (simp add: toLines_def ellipsis_tree_def string_eval)

text \<open>The three lines of \<open>ellipsis_tree\<close>, and the whole tree, with the sample data.\<close>

theorem ellipsis_contributes_nothing_witness:
  "fileTreeLine asciiLower (toLines ellipsis_tree) 0 [] loaded = (Inr [], loaded)
   \<and> fileTreeLine asciiLower (toLines ellipsis_tree) 1 [] loaded = (Inr [], loaded)
   \<and> fileTreeLine asciiLower (toLines ellipsis_tree) 2 [] loaded = (Inr [], loaded)
   \<and> fileTree asciiLower ellipsis_tree [] loaded = (Inr [], loaded)"
proof -
  let ?ls = "toLines ellipsis_tree"
  have n: "entryNameOf \<lparr>indentation = 0, content = str ''- ...''\<rparr> = str ''...''"
      "entryNameOf \<lparr>indentation = 0, content = str ''- '' @ [0xE2, 0x20AC, 0xA6]\<rparr>
         = [0xE2, 0x20AC, 0xA6]"
      "entryNameOf \<lparr>indentation = 0, content = str ''- '' @ [0x60, 0x60]\<rparr> = []"
    by (simp_all add: string_eval scan_eval)
  have e: "isEllipsis (entryNameOf (?ls ! 0))" "isEllipsis (entryNameOf (?ls ! 1))"
      "entryNameOf (?ls ! 2) = []"
    by (simp_all add: ellipsis_tree_lines n isEllipsis_def)
  have l: "fileTreeLine asciiLower ?ls 0 [] loaded = (Inr [], loaded)"
      "fileTreeLine asciiLower ?ls 1 [] loaded = (Inr [], loaded)"
      "fileTreeLine asciiLower ?ls 2 [] loaded = (Inr [], loaded)"
    using ellipsis_contributes_nothing [of ?ls 0 asciiLower "[]" loaded]
      ellipsis_contributes_nothing [of ?ls 1 asciiLower "[]" loaded]
      ellipsis_contributes_nothing [of ?ls 2 asciiLower "[]" loaded] e
    by simp_all
  have len: "length ?ls = 3" by (simp add: ellipsis_tree_lines)
  have ne: "ellipsis_tree \<noteq> []" by (simp add: ellipsis_tree_def str_def)
  have u: "[0..<3] = [0, 1, 2]" by (simp add: upt_rec)
  have "fileTree asciiLower ellipsis_tree [] loaded = (Inr [], loaded)"
    using l ne by (simp add: fileTree_def Let_def len u await_def return_def)
  with l show ?thesis by simp
qed

end
